(* ===== verification/Prelude.thy ===== *)
theory Prelude
  imports
    Complex_Main
    "HOL-Library.Word"
    "HOL-Library.Char_ord"
    "HOL-Library.List_Lexorder"
    "HOL-Library.Log_Nat"
    "HOL-Library.Sublist"
    "HOL-Library.Multiset"
begin

text \<open>
  Shared vocabulary of the development: the error values the Go code returns, 64-bit integers
  with their wrap-around, the parts of the packages \<open>strings\<close>, \<open>strconv\<close> and \<open>fmt\<close> that the
  modelled code calls, and the list lemmas several components use.

  A Go \<open>string\<close> is a list of bytes, which is Isabelle's \<^typ>\<open>string\<close> (a character is a byte), and
  the order on \<^typ>\<open>string\<close> from \<open>List_Lexorder\<close> and \<open>Char_ord\<close> is Go's bytewise \<open><\<close>. The
  functions of \<open>strings\<close> are written for ASCII text: a byte above 127 is left alone.
\<close>

named_theorems go_simps \<open>evaluation of the Go runtime functions on concrete values\<close>

section \<open>Errors\<close>

text \<open>
  A Go \<open>error\<close> that is not \<open>nil\<close>. The three sentinels are those of
  \<^verbatim>\<open>internal/domain/errors.go\<close>; \<open>ErrDriver\<close> carries the text of an error that a database driver
  or another collaborator returned; \<open>Err\<close> is \<^verbatim>\<open>errors.New\<close> or \<^verbatim>\<open>fmt.Errorf\<close> without
  \<^verbatim>\<open>%w\<close>; \<open>ErrWrap\<close> is \<^verbatim>\<open>fmt.Errorf\<close> with a final \<^verbatim>\<open>%w\<close>; \<open>ErrJoin\<close> is the value of
  \<^verbatim>\<open>errors.Join\<close> on these errors.
\<close>

datatype error =
    ErrNotFound
  | ErrDuplicate
  | ErrValidation
  | ErrDriver string
  | Err string
  | ErrWrap string error
  | ErrJoin "error list"

type_synonym 'a result = "error + 'a"

fun join_lines :: "string list \<Rightarrow> string" where
  "join_lines [] = ''''"
| "join_lines [l] = l"
| "join_lines (l # ls) = l @ [CHR 10] @ join_lines ls"

fun error_text :: "error \<Rightarrow> string" where
  "error_text ErrNotFound = ''record not found''"
| "error_text ErrDuplicate = ''duplicate record''"
| "error_text ErrValidation = ''validation failed''"
| "error_text (ErrDriver msg) = msg"
| "error_text (Err msg) = msg"
| "error_text (ErrWrap msg e) = msg @ error_text e"
| "error_text (ErrJoin es) = join_lines (map error_text es)"

text \<open>\<^verbatim>\<open>errors.Is\<close> follows the chain of wrapped errors.\<close>

fun error_is :: "error \<Rightarrow> error \<Rightarrow> bool" where
  "error_is (ErrWrap msg e) target = (ErrWrap msg e = target \<or> error_is e target)"
| "error_is (ErrJoin es) target = (ErrJoin es = target \<or> list_ex (\<lambda>e. error_is e target) es)"
| "error_is e target = (e = target)"

text \<open>\<^verbatim>\<open>errors.Join\<close> drops the \<open>nil\<close>s and is \<open>nil\<close> when nothing is left.\<close>

definition join_errors :: "error option list \<Rightarrow> error option" where
  "join_errors es = (case List.map_filter id es of [] \<Rightarrow> None | fs \<Rightarrow> Some (ErrJoin fs))"

section \<open>Integers\<close>

text \<open>
  Go's \<open>int\<close> and \<open>int64\<close> on a 64-bit platform: an \<^typ>\<open>int\<close> kept in range by
  \<open>wrap64\<close> after every operation that can leave it. Division truncates towards zero.
\<close>

definition wrap64 :: "int \<Rightarrow> int" where
  "wrap64 x = (x + 2 ^ 63) mod 2 ^ 64 - 2 ^ 63"

definition in_int64 :: "int \<Rightarrow> bool" where
  "in_int64 x \<longleftrightarrow> - (2 ^ 63) \<le> x \<and> x < 2 ^ 63"

definition go_div :: "int \<Rightarrow> int \<Rightarrow> int" where
  "go_div a b = sgn a * sgn b * (\<bar>a\<bar> div \<bar>b\<bar>)"

lemma wrap64_id [simp]: "in_int64 x \<Longrightarrow> wrap64 x = x"
  by (auto simp: wrap64_def in_int64_def)

lemma in_int64_wrap64 [simp]: "in_int64 (wrap64 x)"
  unfolding wrap64_def in_int64_def
  by (auto simp: algebra_simps intro: order.strict_trans1)

lemma in_int64_mono: "in_int64 a \<Longrightarrow> in_int64 b \<Longrightarrow> a \<le> x \<Longrightarrow> x \<le> b \<Longrightarrow> in_int64 x"
  by (auto simp: in_int64_def)

lemma in_int64_small: "\<bar>x\<bar> \<le> 9223372036854775807 \<Longrightarrow> in_int64 x"
  by (auto simp: in_int64_def)

lemma go_div_nonneg: "0 \<le> a \<Longrightarrow> 0 < b \<Longrightarrow> go_div a b = a div b"
  by (cases "a = 0") (auto simp: go_div_def)

section \<open>Decimal text\<close>

text \<open>\<^verbatim>\<open>%d\<close> and \<^verbatim>\<open>strconv.FormatInt(x, 10)\<close>.\<close>

definition digit_char :: "nat \<Rightarrow> char" where
  "digit_char d = char_of (48 + d)"

fun fmt_nat :: "nat \<Rightarrow> string" where
  "fmt_nat n = (if n < 10 then [digit_char n] else fmt_nat (n div 10) @ [digit_char (n mod 10)])"

declare fmt_nat.simps [simp del]

definition fmt_int :: "int \<Rightarrow> string" where
  "fmt_int i = (if i < 0 then CHR ''-'' # fmt_nat (nat (- i)) else fmt_nat (nat i))"

definition is_digit :: "char \<Rightarrow> bool" where
  "is_digit c \<longleftrightarrow> 48 \<le> (of_char c :: nat) \<and> (of_char c :: nat) \<le> 57"

definition digit_val :: "char \<Rightarrow> nat" where
  "digit_val c = of_char c - 48"

fun digits_val :: "nat \<Rightarrow> string \<Rightarrow> nat" where
  "digits_val acc [] = acc"
| "digits_val acc (c # cs) = digits_val (10 * acc + digit_val c) cs"

text \<open>
  \<^verbatim>\<open>strconv.ParseInt(s, 10, 64)\<close>: the value and whether the error is \<open>nil\<close>. A syntax error
  gives 0; a value out of range gives the nearest bound.
\<close>

definition parse_int :: "string \<Rightarrow> int \<times> bool" where
  "parse_int s =
     (let neg = (s \<noteq> [] \<and> hd s = CHR ''-'');
          ds = (if s \<noteq> [] \<and> (hd s = CHR ''-'' \<or> hd s = CHR ''+'') then tl s else s)
      in if ds = [] \<or> \<not> list_all is_digit ds then (0, False)
         else let v = int (digits_val 0 ds); x = (if neg then - v else v)
              in if x < - (2 ^ 63) then (- (2 ^ 63), False)
                 else if x \<ge> 2 ^ 63 then (2 ^ 63 - 1, False)
                 else (x, True))"

lemma of_char_digit_char [simp]: "d < 10 \<Longrightarrow> (of_char (digit_char d) :: nat) = 48 + d"
  by (simp add: digit_char_def)

lemma is_digit_digit_char [simp]: "d < 10 \<Longrightarrow> is_digit (digit_char d)"
  by (simp add: is_digit_def)

lemma digit_val_digit_char [simp]: "d < 10 \<Longrightarrow> digit_val (digit_char d) = d"
  by (simp add: digit_val_def)

lemma digits_val_append:
  "digits_val acc (xs @ ys) = digits_val (digits_val acc xs) ys"
  by (induction xs arbitrary: acc) simp_all

lemma fmt_nat_nonempty [simp]: "fmt_nat n \<noteq> []"
  by (subst fmt_nat.simps) simp

lemma fmt_nat_digits: "list_all is_digit (fmt_nat n)"
proof (induction n rule: fmt_nat.induct)
  case (1 n)
  then show ?case by (cases "n < 10") (simp_all add: fmt_nat.simps [of n])
qed

lemma digits_val_fmt_nat [simp]: "digits_val 0 (fmt_nat n) = n"
proof (induction n rule: fmt_nat.induct)
  case (1 n)
  then show ?case
    by (cases "n < 10") (simp_all add: fmt_nat.simps [of n] digits_val_append)
qed

lemma not_digit_sign: "\<not> is_digit (CHR ''-'')" "\<not> is_digit (CHR ''+'')"
  by (simp_all add: is_digit_def)

lemma hd_fmt_nat: "is_digit (hd (fmt_nat n))"
  using fmt_nat_digits [of n] fmt_nat_nonempty [of n]
  by (metis list.pred_set hd_in_set)

lemma hd_fmt_nat_not_sign: "hd (fmt_nat n) \<noteq> CHR ''-''" "hd (fmt_nat n) \<noteq> CHR ''+''"
  using hd_fmt_nat [of n] not_digit_sign by auto

text \<open>Formatting and parsing a 64-bit integer gives it back.\<close>

lemma parse_fmt_int: "in_int64 i \<Longrightarrow> parse_int (fmt_int i) = (i, True)"
  by (auto simp: parse_int_def fmt_int_def in_int64_def hd_fmt_nat_not_sign fmt_nat_digits)

lemma fmt_int_inj: "in_int64 i \<Longrightarrow> in_int64 j \<Longrightarrow> fmt_int i = fmt_int j \<Longrightarrow> i = j"
  by (metis parse_fmt_int prod.inject)

section \<open>Text\<close>

text \<open>\<^verbatim>\<open>strings.TrimSpace\<close>, \<^verbatim>\<open>strings.ToUpper\<close>, \<^verbatim>\<open>strings.ToLower\<close> and
  \<^verbatim>\<open>strings.Contains\<close> on ASCII text.\<close>

definition is_space :: "char \<Rightarrow> bool" where
  "is_space c \<longleftrightarrow> (of_char c :: nat) \<in> {9, 10, 11, 12, 13, 32}"

definition trim_space :: "string \<Rightarrow> string" where
  "trim_space s = rev (dropWhile is_space (rev (dropWhile is_space s)))"

lemma trim_space_Nil [simp]: "trim_space [] = []"
  by (simp add: trim_space_def)

lemma trim_space_idem [simp]: "trim_space (trim_space s) = trim_space s"
proof -
  let ?d = "dropWhile is_space"
  have hd: "?d (?d xs) = ?d xs" for xs by (induction xs) auto
  have rv: "?d (rev (?d (rev (?d s)))) = rev (?d (rev (?d s)))"
  proof (cases "?d (rev (?d s)) = []")
    case False
    obtain x xs where x: "?d s = x # xs" "\<not> is_space x"
    proof (cases "?d s")
      case (Cons x xs)
      then have "\<not> is_space x" by (metis hd_dropWhile list.discI list.sel(1))
      then show thesis using Cons that by blast
    next
      case Nil
      then show thesis using False by (simp only: rev.simps dropWhile.simps simp_thms)
    qed
    have "?d (rev xs @ [x]) = ?d (rev xs) @ [x]" using x(2)
      by (induction xs rule: rev_induct) auto
    then show ?thesis using x by simp
  next
    case True
    then show ?thesis by (simp only: rev.simps dropWhile.simps)
  qed
  show ?thesis unfolding trim_space_def by (simp add: rv hd)
qed

definition to_upper :: "string \<Rightarrow> string" where
  "to_upper = map (\<lambda>c. if 97 \<le> (of_char c :: nat) \<and> (of_char c :: nat) \<le> 122
                       then char_of ((of_char c :: nat) - 32) else c)"

definition to_lower :: "string \<Rightarrow> string" where
  "to_lower = map (\<lambda>c. if 65 \<le> (of_char c :: nat) \<and> (of_char c :: nat) \<le> 90
                       then char_of ((of_char c :: nat) + 32) else c)"

fun str_contains :: "string \<Rightarrow> string \<Rightarrow> bool" where
  "str_contains [] needle = (needle = [])"
| "str_contains (c # cs) needle = (prefix needle (c # cs) \<or> str_contains cs needle)"

text \<open>\<^verbatim>\<open>%q\<close> of printable ASCII text: double quotes around it, a backslash before
  a double quote and before a backslash.\<close>

definition go_quote :: "string \<Rightarrow> string" where
  "go_quote s = [CHR 0x22]
     @ concat (map (\<lambda>c. if c = CHR 0x22 \<or> c = CHR 0x5C then [CHR 0x5C, c] else [c]) s)
     @ [CHR 0x22]"

lemma str_contains_sublist: "str_contains s needle = sublist needle s"
  by (induction s) (auto simp: sublist_Cons_right)

lemma to_upper_idem [simp]: "to_upper (to_upper s) = to_upper s"
  by (induction s) (auto simp: to_upper_def)

section \<open>Lists\<close>

text \<open>The first row a predicate holds of, and updating every such row.\<close>

fun find_first :: "('a \<Rightarrow> bool) \<Rightarrow> 'a list \<Rightarrow> 'a option" where
  "find_first p [] = None"
| "find_first p (x # xs) = (if p x then Some x else find_first p xs)"

definition update_where :: "('a \<Rightarrow> bool) \<Rightarrow> ('a \<Rightarrow> 'a) \<Rightarrow> 'a list \<Rightarrow> 'a list" where
  "update_where p f = map (\<lambda>x. if p x then f x else x)"

lemma find_first_Some: "find_first p xs = Some x \<Longrightarrow> x \<in> set xs \<and> p x"
  by (induction xs) (auto split: if_splits)

lemma find_first_None: "find_first p xs = None \<longleftrightarrow> (\<forall>x \<in> set xs. \<not> p x)"
  by (induction xs) auto

lemma find_first_cong:
  "(\<And>x. x \<in> set xs \<Longrightarrow> p x = q x) \<Longrightarrow> find_first p xs = find_first q xs"
  by (induction xs) auto

lemma length_update_where [simp]: "length (update_where p f xs) = length xs"
  by (simp add: update_where_def)

lemma set_update_where: "set (update_where p f xs) = (\<lambda>x. if p x then f x else x) ` set xs"
  by (simp add: update_where_def)

lemma update_where_Nil [simp]: "update_where p f [] = []"
  by (simp add: update_where_def)

lemma update_where_Cons [simp]:
  "update_where p f (x # xs) = (if p x then f x else x) # update_where p f xs"
  by (simp add: update_where_def)

lemma update_where_none: "(\<And>x. x \<in> set xs \<Longrightarrow> \<not> p x) \<Longrightarrow> update_where p f xs = xs"
  by (induction xs) auto

lemma map_update_where:
  "(\<And>x. p x \<Longrightarrow> g (f x) = g x) \<Longrightarrow> map g (update_where p f xs) = map g xs"
  by (induction xs) auto

lemma filter_length_pos: "0 < length (filter p xs) \<longleftrightarrow> (\<exists>x \<in> set xs. p x)"
  by (auto simp: filter_empty_conv)

end
