(* ===== verification/Frame_Protocol.thy ===== *)
theory Frame_Protocol
  imports Prelude
begin

text \<open>
  The binary frame of the replication stream
  (\<^verbatim>\<open>internal/plugins/cluster_replication/protocol/protocol.go\<close>): a version byte, a kind byte,
  the revision as a signed varint, the payload length as an unsigned varint, the payload. The
  varint functions are those of Go's \<^verbatim>\<open>encoding/binary\<close>.
\<close>

unbundle bit_operations_syntax

section \<open>Data\<close>

type_synonym byte = "8 word"
type_synonym u64 = "64 word"

datatype kind =
    KindHello | KindEvent | KindSnapshotBegin | KindSnapshotUser | KindSnapshotArtifact
  | KindSnapshotEnd | KindAck | KindStatus | KindError | KindFraudEvents | KindFraudAck | KindStats

text \<open>\<open>Kind\<close> is a Go byte with named values 1 to 12; any other byte is a kind without a name.\<close>

definition kind_byte :: "kind \<Rightarrow> byte" where
  "kind_byte k = (case k of
     KindHello \<Rightarrow> 1 | KindEvent \<Rightarrow> 2 | KindSnapshotBegin \<Rightarrow> 3 | KindSnapshotUser \<Rightarrow> 4
   | KindSnapshotArtifact \<Rightarrow> 5 | KindSnapshotEnd \<Rightarrow> 6 | KindAck \<Rightarrow> 7 | KindStatus \<Rightarrow> 8
   | KindError \<Rightarrow> 9 | KindFraudEvents \<Rightarrow> 10 | KindFraudAck \<Rightarrow> 11 | KindStats \<Rightarrow> 12)"

record Frame =
  Kind :: byte
  Revision :: u64
  Payload :: "byte list"

definition Version :: byte where
  "Version = 1"

section \<open>Varints\<close>

text \<open>
  \<open>AppendUvarint\<close> writes seven bits per byte, least significant first, with the high bit set on
  every byte but the last. \<open>Uvarint\<close> returns the value and the number of bytes read; the count is
  0 when the buffer ends first and negative when the value does not fit into 64 bits.
\<close>

function AppendUvarint :: "u64 \<Rightarrow> byte list" where
  "AppendUvarint x =
     (if x \<ge> 0x80 then (ucast x OR 0x80) # AppendUvarint (drop_bit 7 x) else [ucast x])"
  by pat_completeness auto
termination
proof (relation "measure unat", goal_cases)
  case (2 x)
  then have "128 \<le> unat x" by (simp add: word_le_nat_alt)
  moreover have "unat (drop_bit 7 x) = unat x div 2 ^ 7"
    by (simp only: unat_drop_bit_eq) (simp only: drop_bit_eq_div)
  ultimately show ?case by simp
qed simp

declare AppendUvarint.simps [simp del]

definition MaxVarintLen64 :: nat where
  "MaxVarintLen64 = 10"

fun uvarint_loop :: "byte list \<Rightarrow> nat \<Rightarrow> u64 \<Rightarrow> nat \<Rightarrow> u64 \<times> int" where
  "uvarint_loop [] i x s = (0, 0)"
| "uvarint_loop (b # bs) i x s =
     (if i = MaxVarintLen64 then (0, - (int i + 1))
      else if b < 0x80 then
        (if i = MaxVarintLen64 - 1 \<and> b > 1 then (0, - (int i + 1))
         else (x OR push_bit s (ucast b), int i + 1))
      else uvarint_loop bs (i + 1) (x OR push_bit s (ucast (b AND 0x7f))) (s + 7))"

definition Uvarint :: "byte list \<Rightarrow> u64 \<times> int" where
  "Uvarint buf = uvarint_loop buf 0 0 0"

text \<open>The signed form stores the sign in the lowest bit.\<close>

definition AppendVarint :: "u64 \<Rightarrow> byte list" where
  "AppendVarint x =
     (let ux = push_bit 1 x in AppendUvarint (if sint x < 0 then NOT ux else ux))"

definition Varint :: "byte list \<Rightarrow> u64 \<times> int" where
  "Varint buf =
     (let (ux, n) = Uvarint buf; x = drop_bit 1 ux
      in (if ux AND 1 \<noteq> 0 then NOT x else x, n))"

section \<open>Frames\<close>

definition Marshal :: "Frame \<Rightarrow> byte list" where
  "Marshal frame =
     [Version, Kind frame] @ AppendVarint (Revision frame)
     @ AppendUvarint (of_nat (length (Payload frame))) @ Payload frame"

definition Unmarshal :: "byte list \<Rightarrow> Frame result" where
  "Unmarshal raw =
     (if length raw < 2 then Inl (Err ''replication frame is too short'')
      else if raw ! 0 \<noteq> Version then
        Inl (Err (''unsupported replication frame version '' @ fmt_int (uint (raw ! 0))))
      else let (revision, n) = Varint (drop 2 raw) in
        if n \<le> 0 then Inl (Err ''invalid replication frame revision'')
        else let offset = 2 + nat n; (len, m) = Uvarint (drop offset raw) in
          if m \<le> 0 then Inl (Err ''invalid replication frame payload length'')
          else let offset2 = offset + nat m; rest = of_nat (length raw - offset2) in
            if len > rest then Inl (Err ''truncated replication frame payload'')
            else if len \<noteq> rest then Inl (Err ''unexpected trailing bytes in replication frame'')
            else Inr \<lparr>Kind = raw ! 1, Revision = revision, Payload = drop offset2 raw\<rparr>)"

section \<open>Varint lemmas\<close>

lemma mask7: "(0x7f :: 'a::len word) = mask 7"
  by (simp add: mask_eq_exp_minus_1)

lemma low_bits_byte: "ucast ((ucast x OR 0x80 :: byte) AND 0x7f) = (x AND 0x7f :: u64)"
proof -
  have "(ucast x OR 0x80 :: byte) AND 0x7f = ucast x AND 0x7f"
    by (simp add: word_ao_dist)
  moreover have "ucast (ucast x AND 0x7f :: byte) = (x AND 0x7f :: u64)"
    unfolding mask7 by (rule bit_word_eqI) (auto simp: bit_simps)
  ultimately show ?thesis by simp
qed

lemma split_low7: "(x AND 0x7f) OR push_bit 7 (drop_bit 7 x) = (x :: u64)"
  unfolding mask7 by (rule bit_word_eqI) (auto simp: bit_simps, metis add_diff_inverse_nat)

lemma unat_ucast_byte: "unat (x :: u64) < 256 \<Longrightarrow> unat (ucast x :: byte) = unat x"
  by (simp add: unsigned_ucast_eq unsigned_take_bit_eq take_bit_nat_eq_self)

lemma ucast_byte_id: "unat x < 128 \<Longrightarrow> ucast (ucast x :: byte) = (x :: u64)"
  by (simp add: word_unat_eq_iff unat_ucast_byte unsigned_ucast_eq unsigned_take_bit_eq
      take_bit_nat_eq_self)

lemma high_bit_byte: "\<not> (ucast x OR 0x80 :: byte) < 0x80"
  using le_word_or2 [of "0x80 :: byte" "ucast x"] by (simp add: or.commute not_less)

lemma unat_shift7:
  fixes x :: u64
  assumes "unat x < 2 ^ (64 - 7 * i)" and i: "7 < 64 - 7 * i"
  shows "unat (drop_bit 7 x) < 2 ^ (64 - 7 * Suc i)"
proof -
  have shr: "unat (drop_bit 7 x) = unat x div 2 ^ 7"
    by (simp only: unat_drop_bit_eq) (simp only: drop_bit_eq_div)
  have "64 - 7 * i = 7 + (64 - 7 * Suc i)" using i by simp
  then have "unat x < 2 ^ 7 * 2 ^ (64 - 7 * Suc i)"
    using assms(1) by (simp only: power_add)
  then show ?thesis
    unfolding shr by (simp add: less_mult_imp_div_less mult.commute)
qed

text \<open>
  Decoding what was encoded, in the middle of a buffer: after \<open>i\<close> bytes the value that remains
  has at most \<open>64 - 7 * i\<close> bits.
\<close>

lemma uvarint_loop_append:
  assumes "unat x < 2 ^ (64 - 7 * i)" and "i \<le> 9"
  shows "uvarint_loop (AppendUvarint x @ rest) i acc (7 * i)
       = (acc OR push_bit (7 * i) x, int i + int (length (AppendUvarint x)))"
  using assms
proof (induction x arbitrary: i acc rule: AppendUvarint.induct)
  case (1 x)
  show ?case
  proof (cases "x \<ge> 0x80")
    case False
    then have "unat x < 128" by (simp add: word_le_nat_alt)
    moreover have "i = 9 \<Longrightarrow> unat x < 2" using "1.prems" by simp
    ultimately show ?thesis using False "1.prems"
      by (auto simp: AppendUvarint.simps [of x] MaxVarintLen64_def ucast_byte_id
          unat_ucast_byte word_less_nat_alt not_less)
  next
    case True
    then have "128 \<le> unat x" by (simp add: word_le_nat_alt)
    with "1.prems" have "(2::nat) ^ 7 < 2 ^ (64 - 7 * i)" by simp
    then have i: "7 < 64 - 7 * i" by (rule power_less_imp_less_exp [rotated]) simp
    then have i8: "i \<le> 8" by simp
    have "unat (drop_bit 7 x) < 2 ^ (64 - 7 * Suc i)"
      using unat_shift7 [OF "1.prems"(1) i] .
    with "1.IH" [OF True, of "Suc i"] i8
    have IH: "uvarint_loop (AppendUvarint (drop_bit 7 x) @ rest) (Suc i) a (7 + 7 * i)
      = (a OR push_bit (7 + 7 * i) (drop_bit 7 x),
         int (Suc i) + int (length (AppendUvarint (drop_bit 7 x))))" for a
      by simp
    have "acc OR push_bit (7 * i) (x AND 0x7f) OR push_bit (7 + 7 * i) (drop_bit 7 x)
        = acc OR push_bit (7 * i) ((x AND 0x7f) OR push_bit 7 (drop_bit 7 x))"
      by (simp only: push_bit_or push_bit_push_bit or.assoc add.commute [of 7])
    then show ?thesis using True i8 IH high_bit_byte [of x] low_bits_byte [of x]
      by (simp add: AppendUvarint.simps [of x] MaxVarintLen64_def split_low7 or.assoc add.commute)
  qed
qed

lemma Uvarint_append:
  "Uvarint (AppendUvarint x @ rest) = (x, int (length (AppendUvarint x)))"
  using uvarint_loop_append [of x 0 rest 0] unsigned_less [of x] by (simp add: Uvarint_def)

lemma sign_bit: "sint (x :: u64) < 0 \<longleftrightarrow> bit x 63"
  using bit_last_iff [of x] by simp

lemma bit_shl1: "bit (push_bit 1 (x :: u64)) n \<longleftrightarrow> 0 < n \<and> n < 64 \<and> bit x (n - 1)"
  by (cases n) (simp_all add: bit_push_bit_iff del: push_bit_Suc)

lemma zigzag_even: "\<not> bit x 63 \<Longrightarrow> drop_bit 1 (push_bit 1 x) = (x :: u64)"
  by (rule bit_word_eqI, rename_tac n, case_tac "n = 63")
    (simp_all only: bit_drop_bit_eq comp_def bit_shl1, simp_all)

lemma zigzag_odd: "bit x 63 \<Longrightarrow> NOT (drop_bit 1 (NOT (push_bit 1 x))) = (x :: u64)"
  by (rule bit_word_eqI, rename_tac n, case_tac "n = 63")
    (simp_all only: bit_not_iff bit_drop_bit_eq comp_def bit_shl1, simp_all)

lemma zigzag_low: "push_bit 1 x AND 1 = (0 :: u64)" "NOT (push_bit 1 x) AND 1 \<noteq> (0 :: u64)"
proof -
  show "push_bit 1 x AND 1 = (0 :: u64)"
    by (rule bit_word_eqI) (simp only: bit_and_iff bit_shl1 bit_1_iff bit_0_eq bot_apply, auto)
  have "bit (NOT (push_bit 1 x) AND (1 :: u64)) 0"
    by (simp only: bit_and_iff bit_not_iff bit_shl1 bit_1_iff) simp
  then show "NOT (push_bit 1 x) AND 1 \<noteq> (0 :: u64)" by (intro notI) (simp only: bit_0_eq bot_fun_def bot_bool_def)
qed

lemma Varint_append: "Varint (AppendVarint x @ rest) = (x, int (length (AppendVarint x)))"
  by (simp only: Varint_def AppendVarint_def Let_def Uvarint_append sign_bit split)
    (cases "bit x 63"; simp only: if_True if_False zigzag_low zigzag_even zigzag_odd
      simp_thms)

text \<open>A buffer that ends inside a varint gives the count 0.\<close>

lemma AppendUvarint_nonempty [simp]: "AppendUvarint x \<noteq> []"
  by (subst AppendUvarint.simps) simp

lemma uvarint_loop_strict_prefix:
  assumes "unat x < 2 ^ (64 - 7 * i)" and "i \<le> 9" and "k < length (AppendUvarint x)"
  shows "uvarint_loop (take k (AppendUvarint x)) i acc s = (0, 0)"
  using assms
proof (induction x arbitrary: i acc s k rule: AppendUvarint.induct)
  case (1 x)
  show ?case
  proof (cases "x \<ge> 0x80 \<and> k \<noteq> 0")
    case False
    with "1.prems" show ?thesis
      by (cases "k = 0") (simp_all add: AppendUvarint.simps [of x])
  next
    case True
    then have "128 \<le> unat x" by (simp add: word_le_nat_alt)
    with "1.prems" have "(2::nat) ^ 7 < 2 ^ (64 - 7 * i)" by simp
    then have i: "7 < 64 - 7 * i" by (rule power_less_imp_less_exp [rotated]) simp
    have "unat (drop_bit 7 x) < 2 ^ (64 - 7 * Suc i)"
      using unat_shift7 [OF "1.prems"(1) i] .
    with True i "1.prems"(3) "1.IH" [of "Suc i" "k - 1"] high_bit_byte [of x] show ?thesis
      by (cases k) (simp_all add: AppendUvarint.simps [of x] MaxVarintLen64_def)
  qed
qed

lemma Uvarint_strict_prefix:
  "k < length (AppendUvarint x) \<Longrightarrow> Uvarint (take k (AppendUvarint x)) = (0, 0)"
  using uvarint_loop_strict_prefix [of x 0 k 0 0] unsigned_less [of x] by (simp add: Uvarint_def)

lemma Varint_strict_prefix:
  assumes "k < length (AppendVarint x)"
  shows "Varint (take k (AppendVarint x)) = (0, 0)"
  using assms by (simp add: AppendVarint_def Let_def Varint_def Uvarint_strict_prefix)

section \<open>Frame properties\<close>

definition header :: "Frame \<Rightarrow> byte list" where
  "header f = [Version, Kind f] @ AppendVarint (Revision f)
     @ AppendUvarint (of_nat (length (Payload f)))"

lemma Marshal_header: "Marshal f = header f @ Payload f"
  by (simp add: Marshal_def header_def)

lemma AppendVarint_nonempty [simp]: "AppendVarint x \<noteq> []"
  by (simp add: AppendVarint_def Let_def)

text \<open>What \<open>Unmarshal\<close> does once a complete header has been read, whatever follows it.\<close>

lemma Unmarshal_header:
  "Unmarshal (header f @ body) =
     (let len = of_nat (length (Payload f)) :: u64; rest = of_nat (length body) in
      if len > rest then Inl (Err ''truncated replication frame payload'')
      else if len \<noteq> rest then Inl (Err ''unexpected trailing bytes in replication frame'')
      else Inr \<lparr>Kind = Kind f, Revision = Revision f, Payload = body\<rparr>)"
  by (simp add: Unmarshal_def header_def Varint_append Uvarint_append Let_def nat_add_distrib)

lemma of_nat_less_word: "a < 2 ^ 63 \<Longrightarrow> b < 2 ^ 63 \<Longrightarrow> (of_nat a < (of_nat b :: u64)) = (a < b)"
  by (simp add: word_less_nat_alt unsigned_of_nat take_bit_nat_eq_self)

lemma of_nat_eq_word: "a < 2 ^ 63 \<Longrightarrow> b < 2 ^ 63 \<Longrightarrow> (of_nat a = (of_nat b :: u64)) = (a = b)"
  by (simp add: word_unat_eq_iff unsigned_of_nat take_bit_nat_eq_self)

text \<open>A frame cut inside its header is refused.\<close>

lemma Unmarshal_cut_header:
  assumes "k < length (header f)"
  shows "\<exists>e. Unmarshal (take k (header f)) = Inl e"
proof -
  let ?v = "AppendVarint (Revision f)" and ?u = "AppendUvarint (of_nat (length (Payload f)))"
  consider "k < 2" | "2 \<le> k" "k - 2 < length ?v" | "2 \<le> k" "length ?v \<le> k - 2"
    by linarith
  then show ?thesis
  proof cases
    case 1
    then show ?thesis using assms by (simp add: Unmarshal_def)
  next
    case 2
    then have "take k (header f) = [Version, Kind f] @ take (k - 2) ?v"
      by (simp add: header_def take_Cons' numeral_2_eq_2)
    with 2 show ?thesis
      by (simp add: Unmarshal_def Varint_strict_prefix)
  next
    case 3
    define m where "m = k - 2 - length ?v"
    have "take k (header f) = [Version, Kind f] @ ?v @ take m ?u"
      using 3 by (simp add: header_def take_Cons' m_def)
    moreover have "m < length ?u" using assms 3 by (simp add: header_def m_def)
    ultimately show ?thesis
      by (simp add: Unmarshal_def Varint_append Uvarint_strict_prefix nat_add_distrib)
  qed
qed

text \<open>
  C21: decoding an encoded frame gives the frame back, for every kind byte, every signed 64-bit
  revision and every payload a Go slice can hold.
\<close>

theorem frame_roundtrip:
  assumes "length (Payload f) < 2 ^ 63"
  shows "Unmarshal (Marshal f) = Inr f"
  using assms by (simp add: Marshal_header Unmarshal_header Let_def)

theorem frame_roundtrip_witness:
  "Unmarshal (Marshal \<lparr>Kind = kind_byte KindAck, Revision = - 300, Payload = [1, 2, 3]\<rparr>)
   = Inr \<lparr>Kind = kind_byte KindAck, Revision = - 300, Payload = [1, 2, 3]\<rparr>"
  by (rule frame_roundtrip) simp



end
