(* ===== verification/Plugin_Graph.thy ===== *)
theory Plugin_Graph
  imports Prelude
begin

text \<open>
  The load order of the plugin host (\<^verbatim>\<open>Graph\<close> in \<^verbatim>\<open>internal/pluginhost/host.go\<close>): the
  validation of the plugins' declared services and Kahn's algorithm over the edges from a service's
  publisher to its consumers. A multimap such as \<open>reverseEdges\<close> is the list of its (key, value)
  pairs in insertion order.
\<close>

section \<open>Data\<close>

record ServiceRef =
  sr_Name :: string
  sr_Optional :: bool

record Metadata =
  md_Name :: string
  md_Kind :: string
  md_APIVersion :: string
  md_Mandatory :: bool
  md_Requires :: "ServiceRef list"
  md_Publishes :: "ServiceRef list"

section \<open>Validation\<close>

text \<open>
  The loop over one plugin's publications: \<open>declared\<close> are the names this plugin has published so
  far, \<open>published\<close> maps a service to its publisher over all plugins.
\<close>

fun collect_publications ::
  "string \<Rightarrow> ServiceRef list \<Rightarrow> string list \<Rightarrow> (string \<rightharpoonup> string) \<Rightarrow> (string \<rightharpoonup> string) result"
where
  "collect_publications plugin [] declared published = Inr published"
| "collect_publications plugin (p # ps) declared published =
     (if trim_space (sr_Name p) = '''' then
        Inl (Err (''plugin '' @ go_quote plugin @ '' declares an empty published service name''))
      else if sr_Name p \<in> set declared then
        Inl (Err (''plugin '' @ go_quote plugin @ '' declares published service '' @ go_quote (sr_Name p)
          @ '' more than once''))
      else (case published (sr_Name p) of
        Some owner \<Rightarrow> Inl (Err (''service '' @ go_quote (sr_Name p) @ '' is published by both plugins ''
          @ go_quote owner @ '' and '' @ go_quote plugin))
      | None \<Rightarrow> collect_publications plugin ps (sr_Name p # declared)
          (published(sr_Name p \<mapsto> plugin))))"

text \<open>The first loop over the metadata: names, the mandatory plugin, publications.\<close>

fun collect_plugins ::
  "Metadata list \<Rightarrow> string list \<Rightarrow> string \<Rightarrow> (string \<rightharpoonup> string) \<Rightarrow> (string \<times> (string \<rightharpoonup> string)) result"
where
  "collect_plugins [] byName mandatoryName published = Inr (mandatoryName, published)"
| "collect_plugins (m # ms) byName mandatoryName published =
     (if trim_space (md_Name m) = '''' then Inl (Err ''enabled plugin has an empty metadata name'')
      else if md_Name m \<in> set byName then
        Inl (Err (''plugin metadata contains duplicate name '' @ go_quote (md_Name m)))
      else if md_Mandatory m \<and> mandatoryName \<noteq> '''' then
        Inl (Err ''plugin dependency graph contains more than one mandatory plugin'')
      else if md_Mandatory m \<and> md_Requires m \<noteq> [] then
        Inl (Err (''mandatory plugin '' @ go_quote (md_Name m) @ '' must not require services''))
      else (case collect_publications (md_Name m) (md_Publishes m) [] published of
        Inl e \<Rightarrow> Inl e
      | Inr published' \<Rightarrow> collect_plugins ms (md_Name m # byName)
          (if md_Mandatory m then md_Name m else mandatoryName) published'))"

text \<open>
  The loop over one plugin's requirements, which adds an edge (publisher, plugin) and counts it in
  the plugin's in-degree.
\<close>

fun collect_requirements ::
  "string \<Rightarrow> (string \<rightharpoonup> string) \<Rightarrow> ServiceRef list \<Rightarrow> string list \<Rightarrow> (string \<Rightarrow> int)
    \<Rightarrow> (string \<times> string) list \<Rightarrow> ((string \<Rightarrow> int) \<times> (string \<times> string) list) result"
where
  "collect_requirements plugin published [] declared inDegree edges = Inr (inDegree, edges)"
| "collect_requirements plugin published (r # rs) declared inDegree edges =
     (if trim_space (sr_Name r) = '''' then
        Inl (Err (''plugin '' @ go_quote plugin @ '' declares an empty required service name''))
      else if sr_Name r \<in> set declared then
        Inl (Err (''plugin '' @ go_quote plugin @ '' declares required service '' @ go_quote (sr_Name r)
          @ '' more than once''))
      else (case published (sr_Name r) of
        None \<Rightarrow>
          (if sr_Optional r
           then collect_requirements plugin published rs (sr_Name r # declared) inDegree edges
           else Inl (Err (''plugin '' @ go_quote plugin @ '' requires service '' @ go_quote (sr_Name r)
             @ '' which is not published by any enabled plugin '' @
             ''(either the publishing plugin is disabled or missing)'')))
      | Some publisher \<Rightarrow>
          (if publisher = plugin then
             Inl (Err (''plugin '' @ go_quote plugin @ '' cannot require its own published service ''
               @ go_quote (sr_Name r)))
           else collect_requirements plugin published rs (sr_Name r # declared)
             (inDegree(plugin := inDegree plugin + 1)) (edges @ [(publisher, plugin)]))))"

fun collect_edges ::
  "(string \<rightharpoonup> string) \<Rightarrow> Metadata list \<Rightarrow> (string \<Rightarrow> int) \<Rightarrow> (string \<times> string) list
    \<Rightarrow> ((string \<Rightarrow> int) \<times> (string \<times> string) list) result"
where
  "collect_edges published [] inDegree edges = Inr (inDegree, edges)"
| "collect_edges published (m # ms) inDegree edges =
     (case collect_requirements (md_Name m) published (md_Requires m) []
             (inDegree(md_Name m := 0)) edges of
        Inl e \<Rightarrow> Inl e
      | Inr (inDegree', edges') \<Rightarrow> collect_edges published ms inDegree' edges')"

section \<open>Kahn's algorithm\<close>

definition consumers :: "(string \<times> string) list \<Rightarrow> string \<Rightarrow> string list" where
  "consumers edges publisher = sort (map snd (filter (\<lambda>e. fst e = publisher) edges))"

text \<open>The inner loop: one edge less to wait for, and a plugin that waits for none is ready.\<close>

fun relax ::
  "string list \<Rightarrow> string list \<Rightarrow> (string \<Rightarrow> int) \<Rightarrow> string list \<times> (string \<Rightarrow> int)"
where
  "relax [] ready inDegree = (ready, inDegree)"
| "relax (consumer # cs) ready inDegree =
     (let inDegree' = inDegree(consumer := inDegree consumer - 1)
      in relax cs (if inDegree' consumer = 0 then ready @ [consumer] else ready) inDegree')"

text \<open>
  Each turn takes one plugin off \<open>ready\<close> and puts on it only plugins whose in-degree falls from a
  positive number to 0, so the loop ends.
\<close>

definition waiting :: "(string \<times> string) list \<Rightarrow> (string \<Rightarrow> int) \<Rightarrow> string set" where
  "waiting edges inDegree = {c \<in> snd ` set edges. 0 < inDegree c}"

lemma finite_waiting [simp]: "finite (waiting edges inDegree)"
  by (simp add: waiting_def)

lemma relax_measure:
  assumes "relax cs ready inDegree = (ready', inDegree')" and "set cs \<subseteq> snd ` set edges"
  shows "length ready' + card (waiting edges inDegree') \<le> length ready + card (waiting edges inDegree)"
  using assms
proof (induction cs arbitrary: ready inDegree)
  case Nil
  then show ?case by simp
next
  case (Cons c cs)
  let ?d = "inDegree(c := inDegree c - 1)"
  have "waiting edges ?d \<subseteq> waiting edges inDegree" by (auto simp: waiting_def)
  then have le: "card (waiting edges ?d) \<le> card (waiting edges inDegree)"
    by (simp add: card_mono)
  have "Suc (card (waiting edges ?d)) \<le> card (waiting edges inDegree)" if "inDegree c = 1"
  proof -
    have "waiting edges ?d = waiting edges inDegree - {c}"
      using that by (auto simp: waiting_def)
    moreover have "c \<in> waiting edges inDegree"
      using that Cons.prems(2) by (auto simp: waiting_def)
    ultimately show ?thesis by (simp add: card_Suc_Diff1 del: card_Diff_insert)
  qed
  with le Cons.IH [of _ ?d] Cons.prems show ?case
    by (fastforce simp: Let_def split: if_splits)
qed

function kahn ::
  "(string \<times> string) list \<Rightarrow> string list \<Rightarrow> (string \<Rightarrow> int) \<Rightarrow> string list \<Rightarrow> string list"
where
  "kahn edges [] inDegree order = order"
| "kahn edges (current # ready) inDegree order =
     (let (ready', inDegree') = relax (consumers edges current) ready inDegree
      in kahn edges (sort ready') inDegree' (order @ [current]))"
  by pat_completeness auto
termination
proof (relation "measure (\<lambda>(edges, ready, inDegree, order).
    length ready + card (waiting edges inDegree))", goal_cases)
  case (2 edges current ready inDegree order r ready' inDegree')
  have "set (consumers edges current) \<subseteq> snd ` set edges"
    by (auto simp: consumers_def)
  with relax_measure [of "consumers edges current" ready inDegree ready' inDegree' edges] 2
  show ?case by simp
qed simp

text \<open>The mandatory plugin is moved to the front of the first queue.\<close>

definition mandatory_first :: "string \<Rightarrow> string list \<Rightarrow> string list" where
  "mandatory_first mandatoryName ready =
     (if mandatoryName \<noteq> '''' \<and> mandatoryName \<in> set ready
      then mandatoryName # remove1 mandatoryName ready else ready)"

definition enabled_metas :: "Metadata list \<Rightarrow> (string \<Rightarrow> bool) \<Rightarrow> Metadata list" where
  "enabled_metas plugins enabled = sort_key md_Name (filter (\<lambda>m. enabled (md_Name m)) plugins)"

definition Graph :: "Metadata list \<Rightarrow> (string \<Rightarrow> bool) \<Rightarrow> (string list) result" where
  "Graph plugins enabled =
     (let metas = enabled_metas plugins enabled
      in case collect_plugins metas [] '''' Map.empty of
        Inl e \<Rightarrow> Inl e
      | Inr (mandatoryName, published) \<Rightarrow>
          (case collect_edges published metas (\<lambda>_. 0) [] of
             Inl e \<Rightarrow> Inl e
           | Inr (inDegree, edges) \<Rightarrow>
               (let ready = sort (map md_Name (filter (\<lambda>m. inDegree (md_Name m) = 0) metas));
                    order = kahn edges (mandatory_first mandatoryName ready) inDegree []
                in if length order \<noteq> length metas
                   then Inl (Err (''plugin dependency graph contains a cycle ''
                     @ [CHR 0xE2, CHR 0x80, CHR 0x94] @ '' cannot determine load order''))
                   else Inr order)))"

section \<open>What validation establishes\<close>

lemma collect_publications_Inr:
  assumes "collect_publications plugin ps declared published = Inr published'"
  shows "published' s = (if s \<in> sr_Name ` set ps then Some plugin else published s) \<and>
    (s \<in> sr_Name ` set ps \<longrightarrow> published s = None)"
  using assms
proof (induction ps arbitrary: declared published)
  case Nil
  then show ?case by simp
next
  case (Cons p ps)
  then have "published (sr_Name p) = None"
    and "collect_publications plugin ps (sr_Name p # declared) (published(sr_Name p \<mapsto> plugin))
      = Inr published'"
    by (auto split: if_splits option.splits)
  with Cons.IH show ?case by (cases "s = sr_Name p") fastforce+
qed

lemma collect_plugins_Inr:
  assumes "collect_plugins ms byName mandatoryName published = Inr (mn, published')"
  shows "distinct (map md_Name ms) \<and> set byName \<inter> md_Name ` set ms = {} \<and> [] \<notin> md_Name ` set ms"
    and "published' s = Some p \<longleftrightarrow>
      published s = Some p \<or> (\<exists>m \<in> set ms. md_Name m = p \<and> s \<in> sr_Name ` set (md_Publishes m))"
    and "(\<forall>m \<in> set ms. md_Mandatory m \<longrightarrow> mandatoryName = [] \<and> mn = md_Name m \<and> md_Requires m = [])"
    and "(\<forall>m \<in> set ms. \<not> md_Mandatory m) \<Longrightarrow> mn = mandatoryName"
  using assms
proof (induction ms arbitrary: byName mandatoryName published)
  case Nil
  {
    case 1 then show ?case by simp
  next
    case 2 then show ?case by simp
  next
    case 3 then show ?case by simp
  next
    case 4 then show ?case by simp
  }
next
  case (Cons m ms)
  {
    case 1
    then show ?case using Cons.IH(1) by (fastforce split: if_splits sum.splits)
  next
    case 2
    then obtain pub mnext where
      c: "collect_publications (md_Name m) (md_Publishes m) [] published = Inr pub"
      and r: "collect_plugins ms (md_Name m # byName) mnext pub = Inr (mn, published')"
      by (auto split: if_splits sum.splits)
    show ?case
      using Cons.IH(2) [OF r] collect_publications_Inr [OF c, of s] by (auto split: if_splits)
  next
    case 3
    then show ?case using Cons.IH(3) Cons.IH(4) by (fastforce split: if_splits sum.splits)
  next
    case 4
    then show ?case using Cons.IH(4) by (fastforce split: if_splits sum.splits)
  }
qed

text \<open>The edges one plugin adds, and what the loops over requirements compute.\<close>

definition edges_of :: "(string \<rightharpoonup> string) \<Rightarrow> Metadata \<Rightarrow> (string \<times> string) list" where
  "edges_of published m =
     map (\<lambda>r. (the (published (sr_Name r)), md_Name m))
       (filter (\<lambda>r. published (sr_Name r) \<noteq> None) (md_Requires m))"

lemma collect_requirements_Inr:
  assumes "collect_requirements plugin published rs declared inDegree edges = Inr (inDegree', edges')"
  shows "edges' = edges @ map (\<lambda>r. (the (published (sr_Name r)), plugin))
      (filter (\<lambda>r. published (sr_Name r) \<noteq> None) rs) \<and>
    inDegree' = inDegree(plugin := inDegree plugin
      + int (length (filter (\<lambda>r. published (sr_Name r) \<noteq> None) rs))) \<and>
    (\<forall>r \<in> set rs. published (sr_Name r) = None \<longrightarrow> sr_Optional r) \<and>
    (\<forall>r \<in> set rs. published (sr_Name r) \<noteq> Some plugin)"
  using assms
  by (induction rs arbitrary: declared inDegree edges)
    (fastforce split: if_splits option.splits)+

lemma collect_edges_Inr:
  assumes "collect_edges published ms inDegree edges = Inr (inDegree', edges')"
    and "distinct (map md_Name ms)"
  shows "edges' = edges @ concat (map (edges_of published) ms) \<and>
    (\<forall>m \<in> set ms. inDegree' (md_Name m) = int (length (edges_of published m))) \<and>
    (\<forall>n. n \<notin> md_Name ` set ms \<longrightarrow> inDegree' n = inDegree n) \<and>
    (\<forall>m \<in> set ms. \<forall>r \<in> set (md_Requires m).
       (published (sr_Name r) = None \<longrightarrow> sr_Optional r) \<and> published (sr_Name r) \<noteq> Some (md_Name m))"
  using assms
proof (induction ms arbitrary: inDegree edges)
  case Nil
  then show ?case by simp
next
  case (Cons m ms)
  then obtain d es where
    r: "collect_requirements (md_Name m) published (md_Requires m) []
          (inDegree(md_Name m := 0)) edges = Inr (d, es)"
    and e: "collect_edges published ms d es = Inr (inDegree', edges')"
    by (auto split: sum.splits)
  show ?case
    using Cons.IH [OF e] Cons.prems(2) collect_requirements_Inr [OF r]
    by (auto simp: edges_of_def)
qed

section \<open>What the loop establishes\<close>

text \<open>
  The in-degree of a plugin, as the loop keeps it: how many of its edges come from plugins that are
  not yet in the order. An order respects the edges when every element comes after the publishers
  it waits for.
\<close>

definition pending :: "(string \<times> string) list \<Rightarrow> string list \<Rightarrow> string \<Rightarrow> int" where
  "pending edges order n = int (length (filter (\<lambda>e. snd e = n \<and> fst e \<notin> set order) edges))"

definition respects_edges :: "(string \<times> string) list \<Rightarrow> string list \<Rightarrow> bool" where
  "respects_edges edges order \<longleftrightarrow>
     (\<forall>ys x zs. order = ys @ x # zs \<longrightarrow> (\<forall>p. (p, x) \<in> set edges \<longrightarrow> p \<in> set ys))"

definition kahn_inv ::
  "string set \<Rightarrow> (string \<times> string) list \<Rightarrow> string list \<Rightarrow> (string \<Rightarrow> int) \<Rightarrow> string list \<Rightarrow> bool"
where
  "kahn_inv N edges ready inDegree order \<longleftrightarrow>
     distinct (order @ ready) \<and> set (order @ ready) = {n \<in> N. inDegree n = 0} \<and>
     inDegree = pending edges order \<and> respects_edges edges order"

lemma pending_zero: "pending edges order n = 0 \<longleftrightarrow> (\<forall>p. (p, n) \<in> set edges \<longrightarrow> p \<in> set order)"
  by (force simp: pending_def filter_empty_conv)

lemma count_consumers:
  "count_list (consumers edges current) n
   = length (filter (\<lambda>e. fst e = current \<and> snd e = n) edges)"
proof -
  have "count_list (consumers edges current) n
      = count_list (map snd (filter (\<lambda>e. fst e = current) edges)) n"
    unfolding consumers_def by (metis count_mset mset_sort)
  also have "\<dots> = length (filter (\<lambda>e. fst e = current \<and> snd e = n) edges)"
    by (induction edges) auto
  finally show ?thesis .
qed

lemma pending_snoc:
  assumes "current \<notin> set order"
  shows "pending edges (order @ [current]) n
       = pending edges order n - int (count_list (consumers edges current) n)"
proof -
  have "length (filter (\<lambda>e. snd e = n \<and> fst e \<notin> set order) edges)
    = length (filter (\<lambda>e. snd e = n \<and> fst e \<notin> set (order @ [current])) edges)
      + length (filter (\<lambda>e. fst e = current \<and> snd e = n) edges)"
    using assms by (induction edges) auto
  then show ?thesis by (simp add: pending_def count_consumers)
qed

lemma relax_spec:
  assumes "relax cs ready inDegree = (ready', inDegree')"
    and "\<And>c. int (count_list cs c) \<le> inDegree c"
    and "distinct ready" and "\<And>c. c \<in> set ready \<Longrightarrow> inDegree c \<le> 0"
  shows "inDegree' = (\<lambda>n. inDegree n - int (count_list cs n)) \<and> distinct ready' \<and>
    set ready' = set ready \<union> {c. 0 < inDegree c \<and> inDegree c = int (count_list cs c)}"
  using assms
proof (induction cs arbitrary: ready inDegree)
  case Nil
  then show ?case by auto
next
  case (Cons c cs)
  let ?d = "inDegree(c := inDegree c - 1)"
  let ?r = "if ?d c = 0 then ready @ [c] else ready"
  have pos: "1 + int (count_list cs c) \<le> inDegree c"
    using Cons.prems(2) [of c] by simp
  then have c: "c \<notin> set ready" using Cons.prems(4) [of c] by auto
  have "relax cs ?r ?d = (ready', inDegree')"
    using Cons.prems(1) by (simp add: Let_def)
  moreover have "int (count_list cs x) \<le> ?d x" for x
    using Cons.prems(2) [of x] pos by (cases "x = c") auto
  moreover have "distinct ?r" using Cons.prems(3) c by simp
  moreover have "?d x \<le> 0" if "x \<in> set ?r" for x
    using Cons.prems(4) [of x] that c by (cases "x = c") (auto split: if_splits)
  ultimately have IH: "inDegree' = (\<lambda>n. ?d n - int (count_list cs n)) \<and> distinct ready' \<and>
      set ready' = set ?r \<union> {x. 0 < ?d x \<and> ?d x = int (count_list cs x)}"
    by (rule Cons.IH)
  moreover have "set ?r \<union> {x. 0 < ?d x \<and> ?d x = int (count_list cs x)}
      = set ready \<union> {x. 0 < inDegree x \<and> inDegree x = int (count_list (c # cs) x)}"
    using pos by (intro set_eqI, rename_tac x, case_tac "x = c") (auto split: if_splits)
  moreover have "(\<lambda>n. ?d n - int (count_list cs n)) = (\<lambda>n. inDegree n - int (count_list (c # cs) n))"
    by auto
  ultimately show ?case by simp
qed

lemma respects_edges_Nil [simp]: "respects_edges edges []"
  by (simp add: respects_edges_def)

lemma respects_edges_snoc:
  "respects_edges edges (order @ [x]) \<longleftrightarrow>
   respects_edges edges order \<and> (\<forall>p. (p, x) \<in> set edges \<longrightarrow> p \<in> set order)"
proof
  assume r: "respects_edges edges (order @ [x])"
  have "p \<in> set ys" if "order = ys @ y # zs" and "(p, y) \<in> set edges" for ys y zs p
    using r that unfolding respects_edges_def by (metis append.assoc append_Cons)
  then show "respects_edges edges order \<and> (\<forall>p. (p, x) \<in> set edges \<longrightarrow> p \<in> set order)"
    using r unfolding respects_edges_def by blast
next
  assume r: "respects_edges edges order \<and> (\<forall>p. (p, x) \<in> set edges \<longrightarrow> p \<in> set order)"
  show "respects_edges edges (order @ [x])"
    unfolding respects_edges_def
  proof (intro allI impI)
    fix ys y zs p
    assume eq: "order @ [x] = ys @ y # zs" and e: "(p, y) \<in> set edges"
    show "p \<in> set ys"
    proof (cases zs rule: rev_cases)
      case Nil
      then show ?thesis using eq e r by simp
    next
      case (snoc zs' z)
      then have "order = ys @ y # zs'" using eq by simp
      then show ?thesis using r e by (auto simp: respects_edges_def)
    qed
  qed
qed

lemma respects_edges_acyclic:
  assumes "respects_edges edges order" and "snd ` set edges \<subseteq> set order"
  shows "acyclic (set edges)"
proof -
  let ?f = "\<lambda>x. length (takeWhile (\<lambda>y. y \<noteq> x) order)"
  have "?f p < ?f x" if e: "(p, x) \<in> set edges" for p x
  proof -
    have "x \<in> set order" using e assms(2) by force
    then obtain ys zs where o: "order = ys @ x # zs" and x: "x \<notin> set ys"
      using split_list_first by metis
    then have "p \<in> set ys" using assms(1) e by (auto simp: respects_edges_def)
    then obtain as bs where "ys = as @ p # bs" and "p \<notin> set as"
      using split_list_first by metis
    then show ?thesis using o x
      by (subst o, subst o) (auto simp: takeWhile_append)
  qed
  then have "set edges \<subseteq> measure ?f" by auto
  then show ?thesis using wf_subset [OF wf_measure] wf_acyclic by blast
qed

lemma pending_bounds:
  "0 \<le> pending edges order n" "pending edges (order @ [x]) n \<le> pending edges order n"
proof -
  show "0 \<le> pending edges order n" by (simp add: pending_def)
  show "pending edges (order @ [x]) n \<le> pending edges order n"
    unfolding pending_def by (induction edges) auto
qed

lemma pending_pos: "0 < pending edges order n \<Longrightarrow> n \<in> snd ` set edges"
  using pending_zero [of edges order n] by force

lemma kahn_inv_step:
  assumes inv: "kahn_inv N edges (current # ready) inDegree order"
    and N: "snd ` set edges \<subseteq> N"
    and r: "relax (consumers edges current) ready inDegree = (ready', inDegree')"
  shows "kahn_inv N edges (sort ready') inDegree' (order @ [current])"
proof -
  let ?cs = "consumers edges current"
  have new: "current \<notin> set order" and deg: "inDegree = pending edges order"
    and dist: "distinct (order @ current # ready)"
    and sets: "set (order @ current # ready) = {n \<in> N. inDegree n = 0}"
    and resp: "respects_edges edges order"
    using inv by (auto simp: kahn_inv_def)
  have snoc: "pending edges (order @ [current]) n = inDegree n - int (count_list ?cs n)" for n
    using pending_snoc [OF new] deg by simp
  have le: "int (count_list ?cs n) \<le> inDegree n" for n
    using snoc pending_bounds(1) by (metis diff_ge_0_iff_ge)
  have zero: "inDegree c = 0" if "c \<in> set (order @ current # ready)" for c
    using that unfolding sets by simp
  then have "inDegree c \<le> 0" if "c \<in> set ready" for c using that by simp
  then have spec: "inDegree' = (\<lambda>n. inDegree n - int (count_list ?cs n)) \<and> distinct ready' \<and>
    set ready' = set ready \<union> {c. 0 < inDegree c \<and> inDegree c = int (count_list ?cs c)}"
    using relax_spec [OF r le] dist by simp
  then have deg': "inDegree' = pending edges (order @ [current])" using snoc by (simp add: fun_eq_iff)
  have "set ready' \<inter> set (order @ [current]) = {}"
    using spec zero dist by fastforce
  moreover have "set (order @ [current]) \<union> set ready' = {n \<in> N. inDegree' n = 0}"
  proof -
    have "n \<in> N" if "0 < inDegree n" for n using that pending_pos N unfolding deg by blast
    moreover have "0 \<le> inDegree n" for n unfolding deg by (rule pending_bounds(1))
    moreover have "inDegree' n = 0 \<longleftrightarrow> inDegree n = int (count_list ?cs n)" for n
      using spec by simp
    moreover have "inDegree n = int (count_list ?cs n)" if "inDegree n = 0" for n
      using le [of n] that by simp
    ultimately have "{n \<in> N. inDegree' n = 0} = {n \<in> N. inDegree n = 0}
        \<union> {c. 0 < inDegree c \<and> inDegree c = int (count_list ?cs c)}"
      by (auto simp: order.strict_iff_order)
    then show ?thesis using spec sets by auto
  qed
  moreover have "inDegree current = 0" using zero by simp
  then have "\<forall>p. (p, current) \<in> set edges \<longrightarrow> p \<in> set order"
    using pending_zero deg by metis
  ultimately show ?thesis
    using dist spec resp deg' by (auto simp: kahn_inv_def respects_edges_snoc)
qed

lemma kahn_result:
  assumes "kahn_inv N edges ready inDegree order" and "snd ` set edges \<subseteq> N"
  shows "\<exists>deg. kahn_inv N edges [] deg (kahn edges ready inDegree order)"
  using assms
proof (induction edges ready inDegree order rule: kahn.induct)
  case (1 edges inDegree order)
  then show ?case by auto
next
  case (2 edges current ready inDegree order)
  then show ?case using kahn_inv_step by (auto split: prod.splits)
qed

lemma kahn_prefix: "\<exists>zs. kahn edges ready inDegree order = order @ zs"
proof (induction edges ready inDegree order rule: kahn.induct)
  case (2 edges current ready inDegree order)
  then show ?case by (fastforce split: prod.splits)
qed simp

section \<open>The declarations the host accepts\<close>

text \<open>
  What the validation asks of the enabled plugins, stated without the loops: \<open>service_edges\<close> are
  the pairs of a publisher and a consumer of one of its services.
\<close>

definition publishes :: "Metadata \<Rightarrow> string set" where
  "publishes m = sr_Name ` set (md_Publishes m)"

definition service_edges :: "Metadata list \<Rightarrow> (string \<times> string) set" where
  "service_edges ms = {(md_Name p, md_Name c) | p c r. p \<in> set ms \<and> c \<in> set ms \<and>
     r \<in> set (md_Requires c) \<and> sr_Name r \<in> publishes p}"

definition publications_ok :: "Metadata list \<Rightarrow> bool" where
  "publications_ok ms \<longleftrightarrow>
     (\<forall>m \<in> set ms. trim_space (md_Name m) \<noteq> '''' \<and> (md_Mandatory m \<longrightarrow> md_Requires m = []) \<and>
        (\<forall>p \<in> set (md_Publishes m). trim_space (sr_Name p) \<noteq> '''')) \<and>
     distinct (map md_Name ms) \<and> length (filter md_Mandatory ms) \<le> 1 \<and>
     distinct (concat (map (map sr_Name \<circ> md_Publishes) ms))"

definition requirements_ok :: "Metadata list \<Rightarrow> bool" where
  "requirements_ok ms \<longleftrightarrow>
     (\<forall>m \<in> set ms. distinct (map sr_Name (md_Requires m)) \<and>
        (\<forall>r \<in> set (md_Requires m). trim_space (sr_Name r) \<noteq> '''' \<and> sr_Name r \<notin> publishes m \<and>
           (sr_Optional r \<or> (\<exists>p \<in> set ms. sr_Name r \<in> publishes p))))"

lemma collect_publications_ok:
  "(\<exists>p'. collect_publications plugin ps declared published = Inr p') \<longleftrightarrow>
     (\<forall>p \<in> set ps. trim_space (sr_Name p) \<noteq> '''' \<and> sr_Name p \<notin> set declared \<and>
        published (sr_Name p) = None) \<and> distinct (map sr_Name ps)"
proof (induction ps arbitrary: declared published)
  case (Cons p ps)
  show ?case
  proof (cases "trim_space (sr_Name p) = '''' \<or> sr_Name p \<in> set declared \<or> published (sr_Name p) \<noteq> None")
    case False
    then have "(\<exists>p'. collect_publications plugin (p # ps) declared published = Inr p') \<longleftrightarrow>
      (\<exists>p'. collect_publications plugin ps (sr_Name p # declared)
        (published(sr_Name p \<mapsto> plugin)) = Inr p')"
      by simp
    also have "\<dots> \<longleftrightarrow>
      (\<forall>q \<in> set ps. trim_space (sr_Name q) \<noteq> '''' \<and> sr_Name q \<notin> set (sr_Name p # declared) \<and>
        (published(sr_Name p \<mapsto> plugin)) (sr_Name q) = None) \<and> distinct (map sr_Name ps)"
      by (rule Cons.IH)
    also have "\<dots> \<longleftrightarrow> (\<forall>q \<in> set ps. trim_space (sr_Name q) \<noteq> '''' \<and> sr_Name q \<notin> set declared \<and>
        published (sr_Name q) = None) \<and> sr_Name p \<notin> sr_Name ` set ps \<and> distinct (map sr_Name ps)"
      by (auto simp: image_iff)
    finally show ?thesis using False by simp
  qed auto
qed simp

lemma distinct_concat_publishes:
  "distinct (xs @ concat (map (map sr_Name \<circ> md_Publishes) ms)) \<longleftrightarrow>
   distinct xs \<and> distinct (concat (map (map sr_Name \<circ> md_Publishes) ms)) \<and>
   (\<forall>m \<in> set ms. set xs \<inter> publishes m = {})"
  by (auto simp: publishes_def)

lemma publications_ok_Cons:
  "publications_ok (m # ms) \<longleftrightarrow> publications_ok ms \<and>
     trim_space (md_Name m) \<noteq> '''' \<and> (md_Mandatory m \<longrightarrow> md_Requires m = []) \<and>
     (\<forall>p \<in> set (md_Publishes m). trim_space (sr_Name p) \<noteq> '''') \<and>
     md_Name m \<notin> md_Name ` set ms \<and> (md_Mandatory m \<longrightarrow> (\<forall>m' \<in> set ms. \<not> md_Mandatory m')) \<and>
     distinct (map sr_Name (md_Publishes m)) \<and>
     (\<forall>m' \<in> set ms. publishes m \<inter> publishes m' = {})"
proof -
  have mand: "length (filter md_Mandatory (m # ms)) \<le> 1 \<longleftrightarrow> length (filter md_Mandatory ms) \<le> 1 \<and>
      (md_Mandatory m \<longrightarrow> (\<forall>m' \<in> set ms. \<not> md_Mandatory m'))"
    by (auto simp: filter_empty_conv)
  have pubs: "distinct (concat (map (map sr_Name \<circ> md_Publishes) (m # ms))) \<longleftrightarrow>
      distinct (map sr_Name (md_Publishes m)) \<and>
      distinct (concat (map (map sr_Name \<circ> md_Publishes) ms)) \<and>
      (\<forall>m' \<in> set ms. publishes m \<inter> publishes m' = {})"
    using distinct_concat_publishes [of "map sr_Name (md_Publishes m)" ms]
    by (simp add: publishes_def)
  have ball: "(\<forall>x \<in> set (m # ms). P x) \<longleftrightarrow> P m \<and> (\<forall>x \<in> set ms. P x)" for P by simp
  have names: "distinct (map md_Name (m # ms)) \<longleftrightarrow>
      md_Name m \<notin> md_Name ` set ms \<and> distinct (map md_Name ms)" by simp
  show ?thesis unfolding publications_ok_def mand pubs ball names by argo
qed

lemma collect_plugins_ok:
  "(\<exists>r. collect_plugins ms byName mandatoryName published = Inr r) \<longleftrightarrow>
     publications_ok ms \<and> set byName \<inter> md_Name ` set ms = {} \<and>
     (mandatoryName \<noteq> '''' \<longrightarrow> (\<forall>m \<in> set ms. \<not> md_Mandatory m)) \<and>
     (\<forall>m \<in> set ms. \<forall>s \<in> publishes m. published s = None)"
proof (induction ms arbitrary: byName mandatoryName published)
  case Nil
  then show ?case by (simp add: publications_ok_def)
next
  case (Cons m ms)
  let ?pub = "collect_publications (md_Name m) (md_Publishes m) [] published"
  let ?ok = "trim_space (md_Name m) \<noteq> '''' \<and> md_Name m \<notin> set byName \<and>
    (md_Mandatory m \<longrightarrow> mandatoryName = '''' \<and> md_Requires m = [])"
  show ?case
  proof (cases "?ok \<and> (\<exists>p'. ?pub = Inr p')")
    case False
    then show ?thesis
      using collect_publications_ok [of "md_Name m" "md_Publishes m" "[]" published]
      by (cases ?pub) (auto simp: publications_ok_def publishes_def)
  next
    case True
    then obtain p' where p': "?pub = Inr p'" and ok: ?ok by blast
    let ?mand = "if md_Mandatory m then md_Name m else mandatoryName"
    have ne: "md_Name m \<noteq> ''''" using ok by auto
    have pub: "(\<forall>p \<in> set (md_Publishes m). trim_space (sr_Name p) \<noteq> '''' \<and> published (sr_Name p) = None) \<and>
        distinct (map sr_Name (md_Publishes m))"
      using collect_publications_ok [of "md_Name m" "md_Publishes m" "[]" published] p' by simp
    have p'_None: "p' s = None \<longleftrightarrow> s \<notin> publishes m \<and> published s = None" for s
      using collect_publications_Inr [OF p', of s] by (auto simp: publishes_def)
    have "(\<exists>r. collect_plugins (m # ms) byName mandatoryName published = Inr r) \<longleftrightarrow>
        (\<exists>r. collect_plugins ms (md_Name m # byName) ?mand p' = Inr r)"
      using ok p' by auto
    also have "\<dots> \<longleftrightarrow> publications_ok ms \<and> set (md_Name m # byName) \<inter> md_Name ` set ms = {} \<and>
        (?mand \<noteq> '''' \<longrightarrow> (\<forall>m \<in> set ms. \<not> md_Mandatory m)) \<and>
        (\<forall>m \<in> set ms. \<forall>s \<in> publishes m. p' s = None)"
      by (rule Cons.IH)
    also have "\<dots> \<longleftrightarrow> publications_ok (m # ms) \<and> set byName \<inter> md_Name ` set (m # ms) = {} \<and>
        (mandatoryName \<noteq> '''' \<longrightarrow> (\<forall>m \<in> set (m # ms). \<not> md_Mandatory m)) \<and>
        (\<forall>m \<in> set (m # ms). \<forall>s \<in> publishes m. published s = None)"
    proof -
      have names: "set (md_Name m # byName) \<inter> X = {} \<longleftrightarrow> md_Name m \<notin> X \<and> set byName \<inter> X = {}"
        "set byName \<inter> md_Name ` set (m # ms) = {} \<longleftrightarrow>
          md_Name m \<notin> set byName \<and> set byName \<inter> md_Name ` set ms = {}" for X by auto
      have free: "(\<forall>m' \<in> set ms. \<forall>s \<in> publishes m'. p' s = None) \<longleftrightarrow>
          (\<forall>m' \<in> set ms. publishes m \<inter> publishes m' = {}) \<and>
          (\<forall>m' \<in> set ms. \<forall>s \<in> publishes m'. published s = None)"
        unfolding p'_None by blast
      have own: "\<forall>s \<in> publishes m. published s = None" using pub by (auto simp: publishes_def)
      have ball: "(\<forall>x \<in> set (m # ms). P x) \<longleftrightarrow> P m \<and> (\<forall>x \<in> set ms. P x)" for P by simp
      have blank: "\<forall>p \<in> set (md_Publishes m). trim_space (sr_Name p) \<noteq> ''''" using pub by blast
      show ?thesis
        using ok ne pub own blank unfolding names free ball publications_ok_Cons
        by (cases "md_Mandatory m") (simp_all only: if_True if_False, argo+)
    qed
    finally show ?thesis .
  qed
qed

lemma collect_requirements_ok:
  "(\<exists>r. collect_requirements plugin published rs declared inDegree edges = Inr r) \<longleftrightarrow>
     distinct (map sr_Name rs) \<and>
     (\<forall>r \<in> set rs. trim_space (sr_Name r) \<noteq> '''' \<and> sr_Name r \<notin> set declared \<and>
        published (sr_Name r) \<noteq> Some plugin \<and> (sr_Optional r \<or> published (sr_Name r) \<noteq> None))"
proof (induction rs arbitrary: declared inDegree edges)
  case (Cons r rs)
  show ?case
  proof (cases "trim_space (sr_Name r) = '''' \<or> sr_Name r \<in> set declared")
    case False
    then show ?thesis using Cons.IH by (cases "published (sr_Name r)") (auto simp: image_iff)
  qed auto
qed simp

lemma collect_edges_ok:
  "(\<exists>r. collect_edges published ms inDegree edges = Inr r) \<longleftrightarrow>
     (\<forall>m \<in> set ms. distinct (map sr_Name (md_Requires m)) \<and>
        (\<forall>r \<in> set (md_Requires m). trim_space (sr_Name r) \<noteq> '''' \<and>
           published (sr_Name r) \<noteq> Some (md_Name m) \<and> (sr_Optional r \<or> published (sr_Name r) \<noteq> None)))"
proof (induction ms arbitrary: inDegree edges)
  case (Cons m ms)
  then show ?case
    using collect_requirements_ok [of "md_Name m" published "md_Requires m" "[]"
        "inDegree(md_Name m := 0)" edges]
    by (auto split: sum.splits)
qed simp

section \<open>The order of the enabled plugins\<close>

lemma filter_edges_of:
  "filter (\<lambda>e. snd e = n) (edges_of published m) = (if md_Name m = n then edges_of published m else [])"
  by (auto simp: edges_of_def filter_map o_def)

lemma length_edges_of:
  assumes "distinct (map md_Name ms)" and "m \<in> set ms"
  shows "length (filter (\<lambda>e. snd e = md_Name m) (concat (map (edges_of published) ms)))
       = length (edges_of published m)"
  using assms
proof (induction ms)
  case (Cons a ms)
  have none: "filter (\<lambda>e. snd e = n) (concat (map (edges_of published) ms)) = []"
    if "n \<notin> md_Name ` set ms" for n
    using that by (auto simp: filter_empty_conv edges_of_def)
  show ?case
  proof (cases "m = a")
    case True
    then show ?thesis using Cons.prems none [of "md_Name a"] by (simp add: filter_edges_of)
  next
    case False
    then have "m \<in> set ms" and "md_Name a \<noteq> md_Name m" using Cons.prems by force+
    then show ?thesis using Cons by (simp add: filter_edges_of)
  qed
qed simp

text \<open>What the two validation loops hand to the scheduling loop.\<close>

lemma collected:
  assumes p: "collect_plugins ms [] '''' Map.empty = Inr (mn, published)"
    and e: "collect_edges published ms (\<lambda>_. 0) [] = Inr (inDegree, edges)"
  shows "set edges = service_edges ms" and "inDegree = pending edges []"
    and "distinct (map md_Name ms)"
    and "\<forall>m \<in> set ms. md_Mandatory m \<longrightarrow> mn = md_Name m \<and> md_Name m \<noteq> [] \<and> md_Requires m = []"
    and "mn = [] \<or> (\<exists>m \<in> set ms. md_Mandatory m \<and> mn = md_Name m)"
    and "\<forall>m \<in> set ms. \<forall>r \<in> set (md_Requires m). \<not> sr_Optional r \<longrightarrow>
      (\<exists>p \<in> set ms. sr_Name r \<in> publishes p)"
proof -
  have pub: "published s = Some q \<longleftrightarrow> (\<exists>m \<in> set ms. md_Name m = q \<and> s \<in> publishes m)" for s q
    using collect_plugins_Inr(2) [OF p] by (simp add: publishes_def)
  show dist: "distinct (map md_Name ms)" using collect_plugins_Inr(1) [OF p] by simp
  have ed: "edges = concat (map (edges_of published) ms)"
    and deg: "\<forall>m \<in> set ms. inDegree (md_Name m) = int (length (edges_of published m))"
    and rest: "\<forall>n. n \<notin> md_Name ` set ms \<longrightarrow> inDegree n = 0"
    and req: "\<forall>m \<in> set ms. \<forall>r \<in> set (md_Requires m). published (sr_Name r) = None \<longrightarrow> sr_Optional r"
    using collect_edges_Inr [OF e dist] by auto
  show "set edges = service_edges ms"
  proof -
    have "(q, c) \<in> set edges \<longleftrightarrow> (\<exists>m \<in> set ms. \<exists>r \<in> set (md_Requires m).
        md_Name m = c \<and> published (sr_Name r) = Some q)" for q c
      unfolding ed edges_of_def by (force simp: image_iff)
    then show ?thesis unfolding pub service_edges_def by (simp add: set_eq_iff) metis
  qed
  show "inDegree = pending edges []"
  proof
    fix n
    show "inDegree n = pending edges [] n"
    proof (cases "n \<in> md_Name ` set ms")
      case True
      then show ?thesis using deg length_edges_of [OF dist] ed by (auto simp: pending_def)
    next
      case False
      then have "filter (\<lambda>e. snd e = n) edges = []"
        unfolding ed by (auto simp: filter_empty_conv edges_of_def)
      then show ?thesis using False rest by (simp add: pending_def)
    qed
  qed
  show "\<forall>m \<in> set ms. md_Mandatory m \<longrightarrow> mn = md_Name m \<and> md_Name m \<noteq> [] \<and> md_Requires m = []"
    using collect_plugins_Inr(1,3) [OF p] by force
  show "mn = [] \<or> (\<exists>m \<in> set ms. md_Mandatory m \<and> mn = md_Name m)"
    using collect_plugins_Inr(3,4) [OF p] by metis
  show "\<forall>m \<in> set ms. \<forall>r \<in> set (md_Requires m). \<not> sr_Optional r \<longrightarrow>
      (\<exists>p \<in> set ms. sr_Name r \<in> publishes p)"
    using req pub by (metis option.exhaust)
qed

lemma mandatory_first_perm: "mset (mandatory_first mn ready) = mset ready"
  by (simp add: mandatory_first_def)

lemma kahn_inv_start:
  assumes "distinct names" and "inDegree = pending edges []"
  shows "kahn_inv (set names) edges
    (mandatory_first mn (sort (filter (\<lambda>n. inDegree n = 0) names))) inDegree []"
proof -
  let ?ready = "filter (\<lambda>n. inDegree n = 0) names"
  have "mset (mandatory_first mn (sort ?ready)) = mset ?ready"
    by (simp add: mandatory_first_perm)
  then have "distinct (mandatory_first mn (sort ?ready))" and "set (mandatory_first mn (sort ?ready)) = set ?ready"
    using assms(1) by (metis distinct_filter mset_eq_imp_distinct_iff, metis set_mset_mset)
  then show ?thesis using assms by (auto simp: kahn_inv_def)
qed

lemma kahn_complete:
  assumes inv: "kahn_inv N edges [] deg order" and "finite N"
    and dom: "fst ` set edges \<subseteq> N" "snd ` set edges \<subseteq> N"
  shows "set order \<subseteq> N" and "set order = N \<longleftrightarrow> acyclic (set edges)"
proof -
  have "set order = {n \<in> N. pending edges order n = 0}"
    using inv by (simp add: kahn_inv_def)
  then have ord: "n \<in> set order \<longleftrightarrow> n \<in> N \<and> (\<forall>p. (p, n) \<in> set edges \<longrightarrow> p \<in> set order)" for n
    unfolding pending_zero by blast
  show "set order \<subseteq> N" using ord by blast
  show "set order = N \<longleftrightarrow> acyclic (set edges)"
  proof
    assume "set order = N"
    then show "acyclic (set edges)"
      using inv dom(2) by (auto simp: kahn_inv_def intro!: respects_edges_acyclic)
  next
    assume "acyclic (set edges)"
    then have "wf (set edges)" by (simp add: finite_acyclic_wf)
    have "n \<in> N \<longrightarrow> n \<in> set order" for n
      using \<open>wf (set edges)\<close>
    proof (induction n rule: wf_induct_rule)
      case (less n)
      have "p \<in> N" if "(p, n) \<in> set edges" for p using that dom(1) by force
      with less show ?case by (subst ord) blast
    qed
    then show "set order = N" using ord by blast
  qed
qed

lemma set_enabled_metas: "set (enabled_metas plugins enabled) = {m \<in> set plugins. enabled (md_Name m)}"
  by (auto simp: enabled_metas_def)

lemma service_edges_dom:
  "fst ` service_edges ms \<subseteq> md_Name ` set ms" "snd ` service_edges ms \<subseteq> md_Name ` set ms"
  by (auto simp: service_edges_def)

text \<open>The schedule of validated plugins, and when it misses none of them.\<close>

lemma schedule:
  fixes ms :: "Metadata list"
  assumes p: "collect_plugins ms [] '''' Map.empty = Inr (mn, published)"
    and e: "collect_edges published ms (\<lambda>_. 0) [] = Inr (inDegree, edges)"
  defines "order \<equiv> kahn edges (mandatory_first mn
    (sort (map md_Name (filter (\<lambda>m. inDegree (md_Name m) = 0) ms)))) inDegree []"
  shows "distinct order" and "respects_edges edges order"
    and "length order = length ms \<longleftrightarrow> set order = md_Name ` set ms"
    and "set order = md_Name ` set ms \<longleftrightarrow> acyclic (service_edges ms)"
    and "\<forall>m \<in> set ms. md_Mandatory m \<longrightarrow> (\<exists>zs. order = md_Name m # zs)"
proof -
  note c = collected [OF p e]
  let ?N = "md_Name ` set ms"
  let ?ready = "sort (map md_Name (filter (\<lambda>m. inDegree (md_Name m) = 0) ms))"
  have "kahn_inv (set (map md_Name ms)) edges (mandatory_first mn
      (sort (filter (\<lambda>n. inDegree n = 0) (map md_Name ms)))) inDegree []"
    by (rule kahn_inv_start [OF c(3,2)])
  then have start: "kahn_inv ?N edges (mandatory_first mn ?ready) inDegree []"
    by (simp add: filter_map o_def)
  have dom: "fst ` set edges \<subseteq> ?N" "snd ` set edges \<subseteq> ?N"
    using service_edges_dom c(1) by simp_all
  obtain deg where inv: "kahn_inv ?N edges [] deg order"
    using kahn_result [OF start dom(2)] by (auto simp: order_def)
  then show dist: "distinct order" and "respects_edges edges order"
    by (simp_all add: kahn_inv_def)
  have sub: "set order \<subseteq> ?N" and acyc: "set order = ?N \<longleftrightarrow> acyclic (set edges)"
    using kahn_complete [OF inv _ dom] by simp_all
  show "set order = ?N \<longleftrightarrow> acyclic (service_edges ms)" using acyc c(1) by simp
  have "card (set order) = length order" and "card ?N = length ms"
    using dist distinct_card [OF c(3)] by (simp_all add: distinct_card)
  then show "length order = length ms \<longleftrightarrow> set order = ?N"
    using sub by (metis card_subset_eq finite_imageI finite_set)
  show "\<forall>m \<in> set ms. md_Mandatory m \<longrightarrow> (\<exists>zs. order = md_Name m # zs)"
  proof (intro ballI impI)
    fix m assume m: "m \<in> set ms" "md_Mandatory m"
    then have mn: "mn = md_Name m" "mn \<noteq> []" and no: "md_Requires m = []" using c(4) by auto
    have "(q, md_Name m) \<notin> set edges" for q
      using c(3) m(1) no unfolding c(1) service_edges_def
      by (auto dest: eq_key_imp_eq_value simp: distinct_map inj_on_def)
    then have "inDegree mn = 0" using c(2) mn pending_zero by metis
    then have "mn \<in> set ?ready" using m mn by auto
    then obtain rs where "mandatory_first mn ?ready = mn # rs"
      using mn by (auto simp: mandatory_first_def)
    then show "\<exists>zs. order = md_Name m # zs"
      using kahn_prefix [of edges _ _ "[md_Name m]"] mn
      by (auto simp: order_def split: prod.splits)
  qed
qed

lemma Graph_Inr:
  "(\<exists>order. Graph plugins enabled = Inr order) \<longleftrightarrow>
     publications_ok (enabled_metas plugins enabled) \<and> requirements_ok (enabled_metas plugins enabled) \<and>
     acyclic (service_edges (enabled_metas plugins enabled))"
proof -
  let ?ms = "enabled_metas plugins enabled"
  have pl: "(\<exists>r. collect_plugins ?ms [] '''' Map.empty = Inr r) \<longleftrightarrow> publications_ok ?ms"
    using collect_plugins_ok [of ?ms "[]" "''''" Map.empty] by simp
  show ?thesis
  proof (cases "collect_plugins ?ms [] '''' Map.empty")
    case (Inl a)
    then show ?thesis using pl by (simp add: Graph_def)
  next
    case (Inr r)
    then obtain mn published where p: "collect_plugins ?ms [] '''' Map.empty = Inr (mn, published)"
      by (cases r) auto
    have pub: "published s = Some q \<longleftrightarrow> (\<exists>m \<in> set ?ms. md_Name m = q \<and> s \<in> publishes m)" for s q
      using collect_plugins_Inr(2) [OF p] by (simp add: publishes_def)
    have dist: "distinct (map md_Name ?ms)" using collect_plugins_Inr(1) [OF p] by simp
    have own: "published s = Some (md_Name m) \<longleftrightarrow> s \<in> publishes m" if "m \<in> set ?ms" for s m
      using that dist unfolding pub by (auto simp: distinct_map inj_on_def)
    have none: "published s \<noteq> None \<longleftrightarrow> (\<exists>m \<in> set ?ms. s \<in> publishes m)" for s
      using pub by (metis not_None_eq)
    have rq: "(\<exists>r. collect_edges published ?ms (\<lambda>_. 0) [] = Inr r) \<longleftrightarrow> requirements_ok ?ms"
      unfolding collect_edges_ok requirements_ok_def none using own by blast
    show ?thesis
    proof (cases "collect_edges published ?ms (\<lambda>_. 0) []")
      case (Inl a)
      then show ?thesis using p rq by (simp add: Graph_def)
    next
      case (Inr r)
      then obtain inDegree edges where e: "collect_edges published ?ms (\<lambda>_. 0) [] = Inr (inDegree, edges)"
        by (cases r) auto
      show ?thesis
        using pl p rq e schedule(3,4) [OF p e] by (auto simp: Graph_def Let_def)
    qed
  qed
qed

text \<open>The earlier one of two plugins of the order.\<close>

definition before :: "'a list \<Rightarrow> 'a \<Rightarrow> 'a \<Rightarrow> bool" where
  "before order p c \<longleftrightarrow> (\<exists>xs ys zs. order = xs @ p # ys @ c # zs)"

lemma respects_edges_before:
  assumes "respects_edges edges order" and "(p, c) \<in> set edges" and "c \<in> set order"
  shows "before order p c"
proof -
  obtain ys zs where o: "order = ys @ c # zs" using assms(3) split_list by metis
  then have "p \<in> set ys" using assms(1,2) by (auto simp: respects_edges_def)
  then obtain as bs where "ys = as @ p # bs" using split_list by metis
  then show ?thesis using o by (auto simp: before_def)
qed

lemma Graph_order:
  assumes "Graph plugins enabled = Inr order"
  shows "distinct order" and "set order = md_Name ` set (enabled_metas plugins enabled)"
    and "(p, c) \<in> service_edges (enabled_metas plugins enabled) \<Longrightarrow> before order p c"
    and "m \<in> set (enabled_metas plugins enabled) \<Longrightarrow> md_Mandatory m \<Longrightarrow> hd order = md_Name m"
proof -
  let ?ms = "enabled_metas plugins enabled"
  obtain mn published inDegree edges where
    p: "collect_plugins ?ms [] '''' Map.empty = Inr (mn, published)"
    and e: "collect_edges published ?ms (\<lambda>_. 0) [] = Inr (inDegree, edges)"
    and o: "order = kahn edges (mandatory_first mn
      (sort (map md_Name (filter (\<lambda>m. inDegree (md_Name m) = 0) ?ms)))) inDegree []"
    and l: "length order = length ?ms"
    using assms by (auto simp: Graph_def Let_def split: sum.splits if_splits)
  note s = schedule [OF p e, folded o]
  show "distinct order" by (rule s(1))
  show set: "set order = md_Name ` set ?ms" using s(3) l by blast
  show "before order p c" if "(p, c) \<in> service_edges ?ms"
  proof (rule respects_edges_before [OF s(2)])
    show "(p, c) \<in> set edges" using that collected(1) [OF p e] by simp
    show "c \<in> set order" using that set service_edges_dom(2) [of ?ms] by force
  qed
  show "hd order = md_Name m" if "m \<in> set ?ms" and "md_Mandatory m"
    using s(5) that by auto
qed

section \<open>Properties\<close>

text \<open>
  C6: When the host accepts the plugins, the load order holds exactly the enabled plugins, once
  each; every service a plugin needs and does not mark optional is published by an enabled plugin
  that comes before it; so does the publisher of every optional service that has one; and the
  mandatory plugin comes first.
\<close>

theorem graph_load_order:
  assumes "Graph plugins enabled = Inr order"
  shows "distinct order \<and> set order = md_Name ` {m \<in> set plugins. enabled (md_Name m)} \<and>
    (\<forall>m \<in> set plugins. enabled (md_Name m) \<longrightarrow>
       (md_Mandatory m \<longrightarrow> hd order = md_Name m) \<and>
       (\<forall>r \<in> set (md_Requires m).
          (\<not> sr_Optional r \<longrightarrow>
             (\<exists>p \<in> set plugins. enabled (md_Name p) \<and> sr_Name r \<in> publishes p)) \<and>
          (\<forall>p \<in> set plugins. enabled (md_Name p) \<and> sr_Name r \<in> publishes p \<longrightarrow>
             before order (md_Name p) (md_Name m))))"
proof (intro conjI ballI impI)
  note o = Graph_order [OF assms, unfolded set_enabled_metas]
  show "distinct order" by (rule o(1))
  show "set order = md_Name ` {m \<in> set plugins. enabled (md_Name m)}" by (rule o(2))
  fix m assume m: "m \<in> set plugins" "enabled (md_Name m)"
  then show "hd order = md_Name m" if "md_Mandatory m" using o(4) that by simp
  fix r assume r: "r \<in> set (md_Requires m)"
  have "requirements_ok (enabled_metas plugins enabled)" using Graph_Inr assms by blast
  then show "\<exists>p \<in> set plugins. enabled (md_Name p) \<and> sr_Name r \<in> publishes p" if "\<not> sr_Optional r"
    using m r that unfolding requirements_ok_def set_enabled_metas by blast
  fix p assume "p \<in> set plugins" "enabled (md_Name p) \<and> sr_Name r \<in> publishes p"
  then have "(md_Name p, md_Name m) \<in> service_edges (enabled_metas plugins enabled)"
    using m r unfolding service_edges_def set_enabled_metas by blast
  then show "before order (md_Name p) (md_Name m)" by (rule o(3))
qed

text \<open>Three of the program's plugins: the database, the billing that needs it, the core.\<close>

definition demo_plugins :: "Metadata list" where
  "demo_plugins =
     [\<lparr>md_Name = ''billing'', md_Kind = ''service'', md_APIVersion = ''1'', md_Mandatory = False,
        md_Requires = [\<lparr>sr_Name = ''database.repository'', sr_Optional = False\<rparr>,
          \<lparr>sr_Name = ''pricing.engine'', sr_Optional = True\<rparr>],
        md_Publishes = [\<lparr>sr_Name = ''billing.service'', sr_Optional = False\<rparr>]\<rparr>,
      \<lparr>md_Name = ''core'', md_Kind = ''core'', md_APIVersion = ''1'', md_Mandatory = True,
        md_Requires = [], md_Publishes = [\<lparr>sr_Name = ''core.config'', sr_Optional = False\<rparr>]\<rparr>,
      \<lparr>md_Name = ''database'', md_Kind = ''storage'', md_APIVersion = ''1'', md_Mandatory = False,
        md_Requires = [\<lparr>sr_Name = ''core.config'', sr_Optional = False\<rparr>],
        md_Publishes = [\<lparr>sr_Name = ''database.repository'', sr_Optional = False\<rparr>]\<rparr>]"

theorem graph_load_order_witness:
  "Graph demo_plugins (\<lambda>_. True) = Inr [''core'', ''database'', ''billing''] \<and>
   distinct [''core'', ''database'', ''billing''] \<and>
   set [''core'', ''database'', ''billing''] = md_Name ` {m \<in> set demo_plugins. True}"
proof -
  have "Graph demo_plugins (\<lambda>_. True) = Inr [''core'', ''database'', ''billing'']"
    unfolding demo_plugins_def by code_simp
  with graph_load_order [OF this] show ?thesis by blast
qed

text \<open>
  C7: The host accepts the enabled plugins exactly when their declarations are well formed and the
  relation from publishers to consumers has no cycle; in particular it never reports a cycle that
  is not there.
\<close>

theorem graph_accepts_iff:
  "(\<exists>order. Graph plugins enabled = Inr order) \<longleftrightarrow>
     publications_ok (enabled_metas plugins enabled) \<and> requirements_ok (enabled_metas plugins enabled) \<and>
     acyclic (service_edges (enabled_metas plugins enabled))"
  by (rule Graph_Inr)

text \<open>
  C24: The load order does not depend on the order in which the registered plugins are listed (the
  configuration is a map): two lists of the same plugins with distinct names give the same result.
\<close>

theorem graph_deterministic:
  assumes "mset plugins = mset plugins'" and "distinct (map md_Name plugins)"
  shows "Graph plugins enabled = Graph plugins' enabled"
proof -
  have "enabled_metas plugins enabled = enabled_metas plugins' enabled"
    unfolding enabled_metas_def
  proof (rule sort_key_inj_key_eq)
    show "mset (filter (\<lambda>m. enabled (md_Name m)) plugins)
        = mset (sort_key md_Name (filter (\<lambda>m. enabled (md_Name m)) plugins'))"
      using assms(1) by simp
    show "inj_on md_Name (set (filter (\<lambda>m. enabled (md_Name m)) plugins))"
      using assms(2) by (auto simp: distinct_map intro: inj_on_subset)
  qed simp
  then show ?thesis by (simp add: Graph_def)
qed

theorem graph_deterministic_witness:
  "mset demo_plugins = mset (rev demo_plugins) \<and> distinct (map md_Name demo_plugins) \<and>
   Graph demo_plugins (\<lambda>_. True) = Graph (rev demo_plugins) (\<lambda>_. True)"
proof -
  have "mset demo_plugins = mset (rev demo_plugins)" by simp
  moreover have "distinct (map md_Name demo_plugins)" by (simp add: demo_plugins_def)
  ultimately show ?thesis using graph_deterministic [of demo_plugins "rev demo_plugins"] by blast
qed

end
