(* ===== verification/Plugin_Host.thy ===== *)
theory Plugin_Host
  imports Plugin_Graph
begin

text \<open>
  The plugin host (\<^verbatim>\<open>internal/pluginhost/host.go\<close>): the service registry, the resolver a plugin's
  \<open>Init\<close> receives, \<open>Load\<close> with its roll-back, \<open>Shutdown\<close>, \<open>HealthCheck\<close>, \<open>Restart\<close> and the
  accessors. A plugin is what its methods return, a parameter of the host; a service is a value of
  \<open>'s\<close>, \<open>None\<close> being \<open>nil\<close>. A context is the answer of each call of \<^verbatim>\<open>ctx.Err()\<close>, by the number of
  calls made so far. The calls the host makes are kept in a trace.
\<close>

section \<open>Service registry\<close>

type_synonym 's registry = "string \<rightharpoonup> 's"

definition newServiceRegistry :: "'s registry" where
  "newServiceRegistry = Map.empty"

definition Publish :: "'s registry \<Rightarrow> string \<Rightarrow> 's option \<Rightarrow> 's registry result" where
  "Publish services name svc =
     (if trim_space name = '''' then Inl (Err ''service name must not be empty'')
      else (case svc of
        None \<Rightarrow> Inl (Err (''service '' @ go_quote name @ '' must not be nil''))
      | Some v \<Rightarrow>
          (if services name \<noteq> None
           then Inl (Err (''service '' @ go_quote name @ '' is already published''))
           else Inr (services(name \<mapsto> v)))))"

text \<open>
  A Go map argument is the list of its entries. The first loop of \<open>publishBatch\<close> runs in the map's
  own order, the second over the sorted names.
\<close>

fun validate_batch :: "(string \<times> 's option) list \<Rightarrow> error option" where
  "validate_batch [] = None"
| "validate_batch ((name, service) # rest) =
     (if trim_space name = '''' then Some (Err ''service name must not be empty'')
      else if service = None then Some (Err (''service '' @ go_quote name @ '' must not be nil''))
      else validate_batch rest)"

fun first_taken :: "'s registry \<Rightarrow> string list \<Rightarrow> error option" where
  "first_taken services [] = None"
| "first_taken services (name # rest) =
     (if services name \<noteq> None
      then Some (Err (''service '' @ go_quote name @ '' is already published''))
      else first_taken services rest)"

fun insert_services :: "'s registry \<Rightarrow> (string \<times> 's option) list \<Rightarrow> string list \<Rightarrow> 's registry" where
  "insert_services reg services [] = reg"
| "insert_services reg services (name # rest) =
     insert_services (reg(name := (case map_of services name of Some v \<Rightarrow> v | None \<Rightarrow> None))) services rest"

definition publishBatch :: "'s registry \<Rightarrow> (string \<times> 's option) list \<Rightarrow> 's registry result" where
  "publishBatch reg services =
     (if services = [] then Inr reg
      else (case validate_batch services of
        Some e \<Rightarrow> Inl e
      | None \<Rightarrow>
          (let names = sort (map fst services)
           in case first_taken reg names of
                Some e \<Rightarrow> Inl e
              | None \<Rightarrow> Inr (insert_services reg services names))))"

definition resolve :: "'s registry \<Rightarrow> string \<Rightarrow> 's result" where
  "resolve services name = (case services name of
     None \<Rightarrow> Inl (Err (''service '' @ go_quote name @ '' is not published by any loaded plugin''))
   | Some svc \<Rightarrow> Inr svc)"

section \<open>Plugins\<close>

text \<open>
  The entry of a plugin in the configuration, its database handle and the plugin itself.
  \<open>db_Runner\<close> is the result of running the embedded migrations, when the handle can run them;
  \<open>pl_Preflight\<close> and \<open>pl_Restart\<close> are there for external plugins, \<open>pl_Published\<close> for service
  providers; \<open>Init\<close> and \<open>PublishedServices\<close> depend on what the resolver answers.
\<close>

record 'c PluginEntry =
  pe_Enabled :: bool
  pe_Source :: string
  pe_Config :: 'c

record db_handle =
  db_PluginName :: string
  db_Type :: string
  db_Runner :: "error option option"

record ('c, 's) plugin =
  pl_Metadata :: Metadata
  pl_Preflight :: "error option option"
  pl_Migrations :: bool
  pl_Init :: "'c \<Rightarrow> (string \<Rightarrow> 's result) \<Rightarrow> error option"
  pl_Published :: "((string \<Rightarrow> 's result) \<Rightarrow> (string \<times> 's option) list) option"
  pl_BanSink :: bool
  pl_Stop :: "error option"
  pl_Health :: "error option"
  pl_Restart :: "error option option"

definition CurrentAPIVersion :: string where
  "CurrentAPIVersion = ''1''"

definition apiVersionSupported :: "string \<Rightarrow> bool" where
  "apiVersionSupported version =
     (if version = '''' then False
      else (let (wanted, ok) = parse_int (takeWhile (\<lambda>c. c \<noteq> CHR ''.'') version)
            in if \<not> ok \<or> wanted < 1 then False
               else (let (supported, ok') = parse_int CurrentAPIVersion
                     in ok' \<and> supported \<ge> 1 \<and> wanted \<le> supported)))"

definition Resolve ::
  "string \<Rightarrow> string list \<Rightarrow> 's registry \<Rightarrow> bool \<Rightarrow> string \<Rightarrow> 's result"
where
  "Resolve pluginName declared reg active name =
     (if \<not> active then
        Inl (Err (''plugin '' @ go_quote pluginName @ '' tried to resolve '' @ go_quote name
          @ '' after Init() completed''))
      else if name \<notin> set declared then
        Inl (Err (''plugin '' @ go_quote pluginName @ '' tried to resolve '' @ go_quote name
          @ '' which is not declared in its Metadata().Requires; ''
          @ ''add it to Requires to make the dependency explicit and validatable''))
      else resolve reg name)"

text \<open>The loop over the declared publications of a plugin, which builds \<open>declared\<close>.\<close>

fun declare_services ::
  "string \<Rightarrow> (string \<times> 's option) list \<Rightarrow> ServiceRef list \<Rightarrow> ((string \<times> 's option) list) result"
where
  "declare_services pluginName services [] = Inr []"
| "declare_services pluginName services (p # ps) =
     (case map_of services (sr_Name p) of
        None \<Rightarrow> Inl (Err (''plugin '' @ go_quote pluginName @ '' did not provide declared service ''
          @ go_quote (sr_Name p)))
      | Some None \<Rightarrow> Inl (Err (''plugin '' @ go_quote pluginName @ '' provided nil for declared service ''
          @ go_quote (sr_Name p)))
      | Some (Some v) \<Rightarrow>
          (case declare_services pluginName services ps of
             Inl e \<Rightarrow> Inl e
           | Inr rest \<Rightarrow> Inr ((sr_Name p, Some v) # rest)))"

fun first_undeclared :: "string \<Rightarrow> (string \<times> 's option) list \<Rightarrow> string list \<Rightarrow> error option" where
  "first_undeclared pluginName declared [] = None"
| "first_undeclared pluginName declared (name # rest) =
     (if map_of declared name = None
      then Some (Err (''plugin '' @ go_quote pluginName @ '' provided undeclared service '' @ go_quote name))
      else first_undeclared pluginName declared rest)"

definition publishDeclaredServices ::
  "'s registry \<Rightarrow> string \<Rightarrow> Metadata \<Rightarrow> (string \<times> 's option) list option \<Rightarrow> 's registry result"
where
  "publishDeclaredServices reg pluginName meta provided =
     (case provided of
        None \<Rightarrow>
          (if md_Publishes meta = [] then Inr reg
           else Inl (Err (''plugin '' @ go_quote pluginName
             @ '' declares published services but does not implement pluginapi.ServiceProvider'')))
      | Some services \<Rightarrow>
          (case declare_services pluginName services (md_Publishes meta) of
             Inl e \<Rightarrow> Inl e
           | Inr declared \<Rightarrow>
               (case first_undeclared pluginName declared (sort (map fst services)) of
                  Some e \<Rightarrow> Inl e
                | None \<Rightarrow>
                    (case publishBatch reg declared of
                       Inl e \<Rightarrow> Inl (ErrWrap (''plugin '' @ go_quote pluginName
                         @ '' publish declared services: '') e)
                     | Inr reg' \<Rightarrow> Inr reg'))))"

definition runPluginMigrations :: "string \<Rightarrow> ('c, 's) plugin \<Rightarrow> db_handle option \<Rightarrow> error option" where
  "runPluginMigrations pluginName p db =
     (case db of
        None \<Rightarrow> None
      | Some d \<Rightarrow>
          (if \<not> pl_Migrations p then None
           else (case db_Runner d of
             Some None \<Rightarrow> None
           | Some (Some e) \<Rightarrow> Some (ErrWrap (''plugin '' @ go_quote pluginName @ '' migrations: '') e)
           | None \<Rightarrow> Some (Err (''plugin '' @ go_quote pluginName
               @ '' declares embedded migrations but its database handle '' @ db_Type d
               @ '' cannot run them'')))))"

section \<open>The host\<close>

datatype hostState = hostNew | hostLoading | hostRunning | hostStopping | hostStopped

text \<open>
  The calls the host makes. \<open>EvInit\<close> carries, beside the plugin's name, which of the services it
  declared were in the registry at that moment, and \<open>EvGo\<close> is the launch of the goroutine that runs
  \<open>Start\<close>.
\<close>

datatype host_event =
    EvPreflight string
  | EvMigrate string
  | EvInit string "string list"
  | EvStop string
  | EvAbort string
  | EvBanSink string
  | EvGo string
  | EvRunCancel
  | EvHealthCancel nat
  | EvRestart string
  | EvCrashed string string

type_synonym ('c, 's) loadedPlugin = "Metadata \<times> ('c, 's) plugin"

record ('c, 's) Host =
  h_cfg :: "(string \<times> 'c PluginEntry) list"
  h_staticRegistry :: "string \<rightharpoonup> ('c, 's) plugin option option"
  h_external :: "string \<Rightarrow> 'c PluginEntry \<Rightarrow> ('c, 's) plugin"
  h_pluginDBFactory :: "(string \<Rightarrow> db_handle option) option"
  h_registry :: "'s registry"
  h_loaded :: "('c, 's) loadedPlugin list"
  h_runCancel :: bool
  h_healthCancels :: nat
  h_emits :: bool
  h_state :: hostState
  h_trace :: "host_event list"

definition New ::
  "(string \<times> 'c PluginEntry) list \<Rightarrow> (string \<rightharpoonup> ('c, 's) plugin option option)
    \<Rightarrow> (string \<Rightarrow> 'c PluginEntry \<Rightarrow> ('c, 's) plugin) \<Rightarrow> (string \<Rightarrow> db_handle option) option \<Rightarrow> bool
    \<Rightarrow> ('c, 's) Host"
where
  "New cfg staticPlugins external dbFactory emits =
     \<lparr>h_cfg = cfg, h_staticRegistry = staticPlugins, h_external = external,
      h_pluginDBFactory = dbFactory, h_registry = newServiceRegistry, h_loaded = [],
      h_runCancel = False, h_healthCancels = 0, h_emits = emits, h_state = hostNew, h_trace = []\<rparr>"

definition databaseHandle :: "('c, 's) Host \<Rightarrow> string \<Rightarrow> db_handle option" where
  "databaseHandle h pluginName = (case h_pluginDBFactory h of None \<Rightarrow> None | Some f \<Rightarrow> f pluginName)"

text \<open>
  What \<open>Load\<close> keeps while it runs: how often it has asked the context, the trace, the plugins that
  passed preflight, those whose \<open>Init\<close> was entered, and the private registry.
\<close>

record ('c, 's) load =
  lo_polls :: nat
  lo_trace :: "host_event list"
  lo_preflighted :: "string list"
  lo_initialised :: "('c, 's) loadedPlugin list"
  lo_staging :: "'s registry"

type_synonym ctx = "nat \<Rightarrow> error option"

definition emit :: "host_event \<Rightarrow> ('c, 's) load \<Rightarrow> ('c, 's) load" where
  "emit ev st = st\<lparr>lo_trace := lo_trace st @ [ev]\<rparr>"

definition ctx_Err :: "ctx \<Rightarrow> ('c, 's) load \<Rightarrow> error option \<times> ('c, 's) load" where
  "ctx_Err ctx st = (ctx (lo_polls st), st\<lparr>lo_polls := Suc (lo_polls st)\<rparr>)"

text \<open>The enabled entries in the order of their names, each with the plugin it stands for.\<close>

fun collect_candidates ::
  "('c, 's) Host \<Rightarrow> (string \<times> 'c PluginEntry) list
    \<Rightarrow> ((string \<times> ('c, 's) plugin option) list) result"
where
  "collect_candidates h [] = Inr []"
| "collect_candidates h ((name, entry) # rest) =
     (if \<not> pe_Enabled entry then collect_candidates h rest
      else if trim_space name = '''' then
        Inl (Err ''enabled plugin configuration has an empty name'')
      else if pe_Source entry = ''builtin'' then
        (case h_staticRegistry h name of
           None \<Rightarrow> Inl (Err (''plugin '' @ go_quote name @ '' is enabled but not found in the builtin registry; ''
             @ ''check your build tags or add it to registry_builtin.go''))
         | Some None \<Rightarrow> Inl (Err (''plugin '' @ go_quote name @ '' has a nil builtin factory''))
         | Some (Some p) \<Rightarrow>
             (case collect_candidates h rest of
                Inl e \<Rightarrow> Inl e | Inr cs \<Rightarrow> Inr ((name, p) # cs)))
      else if pe_Source entry = ''external'' then
        (if name = ''core'' then
           Inl (Err (''plugin '' @ go_quote ''core'' @ '' is mandatory and cannot use source ''
             @ go_quote ''external''))
         else (case collect_candidates h rest of
           Inl e \<Rightarrow> Inl e | Inr cs \<Rightarrow> Inr ((name, Some (h_external h name entry)) # cs)))
      else Inl (Err (''plugin '' @ go_quote name @ '' has unsupported source '' @ go_quote (pe_Source entry)
        @ ''; supported sources are '' @ go_quote ''builtin'' @ '' and '' @ go_quote ''external'')))"

text \<open>The checks on the metadata of one candidate.\<close>

definition check_metadata :: "string \<Rightarrow> Metadata \<Rightarrow> error option" where
  "check_metadata name m =
     (if md_Name m \<noteq> name then
        Some (Err (''plugin factory registered as '' @ go_quote name @ '' returned Metadata.Name=''
          @ go_quote (md_Name m) @ '' '' @ [CHR 0xE2, CHR 0x80, CHR 0x94] @ '' they must match''))
      else if trim_space (md_Kind m) = '''' then
        Some (Err (''plugin '' @ go_quote (md_Name m) @ '' has an empty Metadata.Kind''))
      else if md_Mandatory m \<and> md_Name m \<noteq> ''core'' then
        Some (Err (''plugin '' @ go_quote (md_Name m) @ '' is mandatory, but only plugin ''
          @ go_quote ''core'' @ '' may be mandatory''))
      else if md_Name m = ''core'' \<and> \<not> md_Mandatory m then
        Some (Err (''plugin '' @ go_quote ''core'' @ '' must set Metadata.Mandatory=true''))
      else if \<not> apiVersionSupported (md_APIVersion m) then
        Some (Err (''plugin '' @ go_quote (md_Name m) @ '' requires unsupported plugin API version ''
          @ go_quote (md_APIVersion m) @ '' (host supports '' @ go_quote CurrentAPIVersion @ '')''))
      else None)"

fun inspect ::
  "(string \<times> ('c, 's) plugin option) list \<Rightarrow> ('c, 's) loadedPlugin list \<Rightarrow> ('c, 's) load
    \<Rightarrow> (('c, 's) loadedPlugin list) result \<times> ('c, 's) load"
where
  "inspect [] acc st = (Inr acc, st)"
| "inspect ((name, candidate) # rest) acc st =
     (case candidate of
        None \<Rightarrow> (Inl (Err (''plugin factory registered as '' @ go_quote name @ '' returned nil'')), st)
      | Some p \<Rightarrow>
          (case pl_Preflight p of
             Some (Some e) \<Rightarrow>
               (Inl (ErrWrap (''external plugin '' @ go_quote name @ '' preflight failed: '') e),
                emit (EvPreflight name) st)
           | pf \<Rightarrow>
               (let st' = (if pf = None then st
                           else (emit (EvPreflight name) st)
                             \<lparr>lo_preflighted := lo_preflighted st @ [name]\<rparr>)
                in case check_metadata name (pl_Metadata p) of
                     Some e \<Rightarrow> (Inl e, st')
                   | None \<Rightarrow> inspect rest (acc @ [(pl_Metadata p, p)]) st')))"

text \<open>One turn of the loop that initialises the plugins in the order of the graph.\<close>

definition init_plugin ::
  "ctx \<Rightarrow> ('c, 's) Host \<Rightarrow> ('c, 's) loadedPlugin \<Rightarrow> ('c, 's) load \<Rightarrow> error option \<times> ('c, 's) load"
where
  "init_plugin ctx h lp st =
     (let (m, p) = lp; name = md_Name m; (cancelled, st1) = ctx_Err ctx st
      in case cancelled of
        Some e \<Rightarrow> (Some (ErrWrap (''plugin host load cancelled before initialising ''
          @ go_quote name @ '': '') e), st1)
      | None \<Rightarrow>
          (let declared = map sr_Name (md_Requires m); db = databaseHandle h name
           in if \<not> Option.is_none (h_pluginDBFactory h) \<and> Option.is_none db then
                (Some (Err (''plugin '' @ go_quote name @ '' database handle factory returned nil'')), st1)
              else (let st2 = (if Option.is_none db then st1 else emit (EvMigrate name) st1)
                    in case runPluginMigrations name p db of
                         Some e \<Rightarrow> (Some e, st2)
                       | None \<Rightarrow>
                           (let resolver = Resolve name declared (lo_staging st2) True;
                                visible = filter (\<lambda>s. \<not> Option.is_none (lo_staging st2 s)) declared;
                                entry = the (map_of (h_cfg h) name);
                                st3 = emit (EvInit name visible) st2;
                                st4 = st3\<lparr>lo_initialised := lo_initialised st3 @ [lp]\<rparr>
                            in case pl_Init p (pe_Config entry) resolver of
                                 Some e \<Rightarrow> (Some (ErrWrap (''plugin '' @ go_quote name @ '' Init() failed: '') e), st4)
                               | None \<Rightarrow>
                                   (let (cancelled', st5) = ctx_Err ctx st4
                                    in case cancelled' of
                                         Some e \<Rightarrow> (Some (ErrWrap (''plugin host load cancelled after initialising ''
                                           @ go_quote name @ '': '') e), st5)
                                       | None \<Rightarrow>
                                           (case publishDeclaredServices (lo_staging st5) name m
                                                   (map_option (\<lambda>f. f resolver) (pl_Published p)) of
                                              Inl e \<Rightarrow> (Some e, st5)
                                            | Inr reg \<Rightarrow> (None, st5\<lparr>lo_staging := reg\<rparr>)))))))"

fun init_plugins ::
  "ctx \<Rightarrow> ('c, 's) Host \<Rightarrow> ('c, 's) loadedPlugin list \<Rightarrow> ('c, 's) load
    \<Rightarrow> error option \<times> ('c, 's) load"
where
  "init_plugins ctx h [] st = (None, st)"
| "init_plugins ctx h (lp # rest) st =
     (case init_plugin ctx h lp st of
        (Some e, st') \<Rightarrow> (Some e, st')
      | (None, st') \<Rightarrow> init_plugins ctx h rest st')"

text \<open>
  The body of \<open>Load\<close> up to the moment where nothing can fail any more. The metadata of a plugin is
  found by its name, as in the two maps the code builds.
\<close>

definition by_name :: "('c, 's) loadedPlugin list \<Rightarrow> string \<Rightarrow> ('c, 's) loadedPlugin option" where
  "by_name lps name = find_first (\<lambda>lp. md_Name (fst lp) = name) lps"

definition in_order :: "('c, 's) loadedPlugin list \<Rightarrow> string list \<Rightarrow> ('c, 's) loadedPlugin list" where
  "in_order lps order = List.map_filter (by_name lps) order"

definition load_body ::
  "ctx \<Rightarrow> ('c, 's) Host \<Rightarrow> ('c, 's) load \<Rightarrow> (('c, 's) loadedPlugin list) result \<times> ('c, 's) load"
where
  "load_body ctx h st =
     (let (cancelled, st1) = ctx_Err ctx st
      in case cancelled of
        Some e \<Rightarrow> (Inl (ErrWrap ''plugin host load cancelled before initialisation: '' e), st1)
      | None \<Rightarrow>
          (if (case map_of (h_cfg h) ''core'' of Some entry \<Rightarrow> \<not> pe_Enabled entry | None \<Rightarrow> False) then
             (Inl (Err (''plugin '' @ go_quote ''core'' @ '' is mandatory and cannot be disabled'')), st1)
           else (case collect_candidates h (sort_key fst (h_cfg h)) of
             Inl e \<Rightarrow> (Inl e, st1)
           | Inr candidates \<Rightarrow>
               (case inspect candidates [] st1 of
                  (Inl e, st2) \<Rightarrow> (Inl e, st2)
                | (Inr lps, st2) \<Rightarrow>
                    (if \<not> list_ex (\<lambda>lp. md_Mandatory (fst lp)) lps then
                       (Inl (Err (''no mandatory plugin found; the core plugin must be present and enabled ''
                         @ [CHR 0xE2, CHR 0x80, CHR 0x94] @ '' ''
                         @ ''the kernel cannot serve any request without it'')), st2)
                     else (case Graph (map fst lps) (\<lambda>n. n \<in> set (map (md_Name \<circ> fst) lps)) of
                       Inl e \<Rightarrow> (Inl (ErrWrap ''plugin dependency graph error: '' e), st2)
                     | Inr order \<Rightarrow>
                         (let loaded = in_order lps order
                          in case init_plugins ctx h loaded st2 of
                               (Some e, st3) \<Rightarrow> (Inl e, st3)
                             | (None, st3) \<Rightarrow>
                                 (let (cancelled', st4) = ctx_Err ctx st3
                                  in case cancelled' of
                                       Some e \<Rightarrow> (Inl (ErrWrap ''plugin host load cancelled before starting plugins: '' e), st4)
                                     | None \<Rightarrow> (Inr loaded, st4)))))))))"

text \<open>\<open>Stop\<close> of the plugins in reverse order, each error wrapped and all of them joined.\<close>

definition stop_reverse :: "string \<Rightarrow> ('c, 's) loadedPlugin list \<Rightarrow> error option \<times> host_event list" where
  "stop_reverse what lps =
     (join_errors (map (\<lambda>(m, p). map_option
        (ErrWrap (''plugin '' @ go_quote (md_Name m) @ '' '' @ what @ '': '')) (pl_Stop p)) (rev lps)),
      map (\<lambda>(m, p). EvStop (md_Name m)) (rev lps))"

definition rollbackInitialised :: "('c, 's) loadedPlugin list \<Rightarrow> error option \<times> host_event list" where
  "rollbackInitialised initialised = stop_reverse ''rollback Stop'' initialised"

definition stopPlugins :: "('c, 's) loadedPlugin list \<Rightarrow> error option \<times> host_event list" where
  "stopPlugins plugins = stop_reverse ''Stop'' plugins"

definition Load :: "ctx option \<Rightarrow> ('c, 's) Host \<Rightarrow> error option \<times> ('c, 's) Host" where
  "Load ctx h =
     (case ctx of
        None \<Rightarrow> (Some (Err ''pluginhost: Load context must not be nil''), h)
      | Some c \<Rightarrow>
          (case h_state h of
             hostRunning \<Rightarrow> (Some (Err ''Host.Load() called more than once''), h)
           | hostStopped \<Rightarrow> (Some (Err ''Host.Load() cannot be called after Shutdown()''), h)
           | hostNew \<Rightarrow>
               (case load_body c h \<lparr>lo_polls = 0, lo_trace = h_trace h, lo_preflighted = [],
                       lo_initialised = [], lo_staging = newServiceRegistry\<rparr> of
                  (Inl e, st) \<Rightarrow>
                    (let (cleanup, stops) = rollbackInitialised (lo_initialised st);
                         aborts = map EvAbort (rev (lo_preflighted st))
                     in (if cleanup = None then Some e else join_errors [Some e, cleanup],
                         h\<lparr>h_loaded := [], h_registry := newServiceRegistry, h_runCancel := False,
                           h_state := hostNew, h_trace := lo_trace st @ stops @ aborts\<rparr>))
                | (Inr loaded, st) \<Rightarrow>
                    (None,
                     h\<lparr>h_registry := lo_staging st, h_loaded := loaded, h_runCancel := True,
                       h_state := hostRunning,
                       h_trace := lo_trace st
                         @ map (\<lambda>(m, p). EvBanSink (md_Name m)) (filter (\<lambda>(m, p). pl_BanSink p) loaded)
                         @ map (\<lambda>(m, p). EvGo (md_Name m)) loaded\<rparr>))
           | _ \<Rightarrow> (Some (Err ''Host.Load() is already in progress''), h)))"

text \<open>
  \<open>Shutdown\<close>: the two waits, for the health monitors and for the \<open>Start\<close> goroutines, end with the
  error of the context or with none, as the environment decides.
\<close>

definition Shutdown ::
  "bool \<Rightarrow> error option \<Rightarrow> error option \<Rightarrow> ('c, 's) Host \<Rightarrow> error option \<times> ('c, 's) Host"
where
  "Shutdown ctx_nil health_wait starts_wait h =
     (if ctx_nil then (Some (Err ''pluginhost: Shutdown context must not be nil''), h)
      else (case h_state h of
        hostNew \<Rightarrow> (None, h)
      | hostStopped \<Rightarrow> (None, h)
      | hostRunning \<Rightarrow>
          (let cancels = (if h_runCancel h then [EvRunCancel] else [])
                 @ map EvHealthCancel [0..<h_healthCancels h];
               (err, stops) = stopPlugins (h_loaded h);
               err1 = (case health_wait of None \<Rightarrow> err
                 | Some e \<Rightarrow> join_errors [err, Some (ErrWrap ''wait for health monitors: '' e)]);
               err2 = (case starts_wait of None \<Rightarrow> err1
                 | Some e \<Rightarrow> join_errors [err1, Some (ErrWrap ''wait for plugin Start routines: '' e)])
           in (err2, h\<lparr>h_loaded := [], h_registry := newServiceRegistry, h_runCancel := False,
                 h_healthCancels := 0, h_state := hostStopped,
                 h_trace := h_trace h @ cancels @ stops\<rparr>))
      | _ \<Rightarrow> (Some (Err ''Host.Shutdown() called while plugin host is not running''), h)))"

text \<open>\<open>HealthCheck\<close> asks every loaded plugin and restarts an external one that fails.\<close>

fun health_check ::
  "bool \<Rightarrow> ('c, 's) loadedPlugin list \<Rightarrow> (string \<rightharpoonup> error option) \<times> host_event list"
where
  "health_check emits [] = (Map.empty, [])"
| "health_check emits ((m, p) # rest) =
     (let name = md_Name m;
          (err, evs) = (case pl_Health p of
             None \<Rightarrow> (None, [])
           | Some e \<Rightarrow>
               (case pl_Restart p of
                  None \<Rightarrow> (Some e, [])
                | Some None \<Rightarrow> (None, [EvRestart name])
                | Some (Some r) \<Rightarrow> (join_errors [Some e, Some r], [EvRestart name])));
          crashed = (case err of Some e \<Rightarrow> if emits then [EvCrashed name (error_text e)] else []
             | None \<Rightarrow> []);
          (result, evs') = health_check emits rest
      in ((if result name = None then result(name \<mapsto> err) else result), evs @ crashed @ evs'))"

definition HealthCheck :: "('c, 's) Host \<Rightarrow> (string \<rightharpoonup> error option) \<times> ('c, 's) Host" where
  "HealthCheck h = (let (result, evs) = health_check (h_emits h) (h_loaded h)
     in (result, h\<lparr>h_trace := h_trace h @ evs\<rparr>))"

text \<open>\<open>StartHealthMonitor\<close> registers a monitor, whose ticks are calls of \<open>HealthCheck\<close>.\<close>

definition StartHealthMonitor :: "bool \<Rightarrow> ('c, 's) Host \<Rightarrow> ('c, 's) Host" where
  "StartHealthMonitor ctx_nil h =
     (if ctx_nil \<or> h_state h \<noteq> hostRunning then h
      else h\<lparr>h_healthCancels := Suc (h_healthCancels h)\<rparr>)"

definition PluginByName :: "('c, 's) Host \<Rightarrow> string \<Rightarrow> ('c, 's) plugin option" where
  "PluginByName h name = map_option snd (by_name (h_loaded h) name)"

definition Restart :: "bool \<Rightarrow> ('c, 's) Host \<Rightarrow> string \<Rightarrow> error option \<times> ('c, 's) Host" where
  "Restart ctx_nil h name =
     (if ctx_nil then (Some (Err ''pluginhost: Restart context must not be nil''), h)
      else if h_state h \<noteq> hostRunning then
        (Some (Err ''pluginhost: Restart requires a running host''), h)
      else (case PluginByName h name of
        None \<Rightarrow> (Some (Err (''pluginhost: plugin '' @ go_quote name @ '' is not loaded'')), h)
      | Some p \<Rightarrow>
          (case pl_Restart p of
             None \<Rightarrow> (Some (Err (''pluginhost: plugin '' @ go_quote name
               @ '' is not an external plugin and cannot be restarted'')), h)
           | Some r \<Rightarrow> (r, h\<lparr>h_trace := h_trace h @ [EvRestart name]\<rparr>))))"

definition ResolveService :: "('c, 's) Host \<Rightarrow> string \<Rightarrow> 's result" where
  "ResolveService h name = resolve (h_registry h) name"

definition Loaded :: "('c, 's) Host \<Rightarrow> Metadata list" where
  "Loaded h = map fst (h_loaded h)"

text \<open>\<open>Core\<close> panics when no mandatory plugin is loaded, which is \<open>None\<close> here.\<close>

definition Core :: "('c, 's) Host \<Rightarrow> ('c, 's) plugin option" where
  "Core h = map_option snd (find_first (\<lambda>lp. md_Mandatory (fst lp)) (h_loaded h))"

section \<open>What the registry holds after a publication\<close>

lemma first_taken_None: "first_taken reg names = None \<longleftrightarrow> (\<forall>n \<in> set names. reg n = None)"
  by (induction names) auto

lemma insert_services_apply:
  "insert_services reg services names n
   = (if n \<in> set names then (case map_of services n of Some v \<Rightarrow> v | None \<Rightarrow> None) else reg n)"
  by (induction names arbitrary: reg) auto

lemma publishBatch_Inr:
  assumes "publishBatch reg services = Inr reg'" and "\<forall>s \<in> snd ` set services. s \<noteq> None"
  shows "reg' n = (if n \<in> fst ` set services then (case map_of services n of Some v \<Rightarrow> v | None \<Rightarrow> None) else reg n)"
    and "\<forall>n \<in> fst ` set services. reg n = None"
  using assms
  by (force simp: publishBatch_def Let_def insert_services_apply first_taken_None
      split: if_splits option.splits dest: map_of_SomeD)+

lemma declare_services_Inr:
  assumes "declare_services plugin services ps = Inr declared"
  shows "map fst declared = map sr_Name ps \<and> (\<forall>(n, v) \<in> set declared. v \<noteq> None \<and> map_of services n = Some v)"
  using assms
  by (induction ps arbitrary: declared) (auto split: option.splits sum.splits)

lemma publishDeclaredServices_Inr:
  assumes "publishDeclaredServices reg plugin m provided = Inr reg'"
  shows "dom reg' = dom reg \<union> publishes m" and "reg \<subseteq>\<^sub>m reg'"
    and "dom reg \<inter> publishes m = {}"
    and "s \<in> publishes m \<Longrightarrow> \<exists>services v. provided = Some services \<and> map_of services s = Some (Some v) \<and> reg' s = Some v"
proof -
  have *: "dom reg' = dom reg \<union> publishes m \<and> reg \<subseteq>\<^sub>m reg' \<and> dom reg \<inter> publishes m = {} \<and>
    (\<forall>s \<in> publishes m. \<exists>services v. provided = Some services \<and> map_of services s = Some (Some v) \<and> reg' s = Some v)"
  proof (cases provided)
    case None
    then show ?thesis
      using assms by (auto simp: publishDeclaredServices_def publishes_def split: if_splits)
  next
    case (Some services)
    then obtain declared where d: "declare_services plugin services (md_Publishes m) = Inr declared"
      and b: "publishBatch reg declared = Inr reg'"
      using assms by (auto simp: publishDeclaredServices_def split: sum.splits option.splits)
    have names: "fst ` set declared = publishes m"
      using declare_services_Inr [OF d] by (metis list.set_map publishes_def)
    have vals: "\<forall>(n, v) \<in> set declared. v \<noteq> None \<and> map_of services n = Some v"
      by (rule conjunct2 [OF declare_services_Inr [OF d]])
    then have nn: "\<forall>s \<in> snd ` set declared. s \<noteq> None" by auto
    note reg' = publishBatch_Inr(1) [OF b nn] and free = publishBatch_Inr(2) [OF b nn]
    have some: "\<exists>v. map_of services n = Some (Some v) \<and> reg' n = Some v" if "n \<in> publishes m" for n
    proof -
      have "n \<in> dom (map_of declared)" using that names by (simp add: dom_map_of_conv_image_fst)
      then obtain v where v: "map_of declared n = Some v" by blast
      then have "v \<noteq> None \<and> map_of services n = Some v"
        using bspec [OF vals map_of_SomeD [OF v]] by simp
      then show ?thesis using reg' [of n] that names v by auto
    qed
    have other: "reg' n = reg n" if "n \<notin> publishes m" for n using reg' [of n] that names by simp
    have free': "reg n = None" if "n \<in> publishes m" for n using free that names by simp
    have "n \<in> dom reg' \<longleftrightarrow> n \<in> dom reg \<union> publishes m" for n
      using some [of n] other [of n] free' [of n] by (cases "n \<in> publishes m") (auto simp: domIff)
    moreover have "reg \<subseteq>\<^sub>m reg'"
      unfolding map_le_def using other free' by (metis domIff)
    moreover have "dom reg \<inter> publishes m = {}" using free' by (auto simp: domIff)
    ultimately show ?thesis using some Some by blast
  qed
  then show "dom reg' = dom reg \<union> publishes m" "reg \<subseteq>\<^sub>m reg'" "dom reg \<inter> publishes m = {}" by simp_all
  show "s \<in> publishes m \<Longrightarrow> \<exists>services v. provided = Some services \<and> map_of services s = Some (Some v) \<and> reg' s = Some v"
    using * by blast
qed

section \<open>What the trace records\<close>

definition ev_inits :: "host_event list \<Rightarrow> (string \<times> string list) list" where
  "ev_inits t = [(n, v). EvInit n v \<leftarrow> t]"

definition ev_stops :: "host_event list \<Rightarrow> string list" where
  "ev_stops t = [n. EvStop n \<leftarrow> t]"

definition ev_aborts :: "host_event list \<Rightarrow> string list" where
  "ev_aborts t = [n. EvAbort n \<leftarrow> t]"

definition ev_preflights :: "host_event list \<Rightarrow> string list" where
  "ev_preflights t = [n. EvPreflight n \<leftarrow> t]"

definition ev_gos :: "host_event list \<Rightarrow> string list" where
  "ev_gos t = [n. EvGo n \<leftarrow> t]"

lemmas ev_defs = ev_inits_def ev_stops_def ev_aborts_def ev_preflights_def ev_gos_def

lemma ev_append [simp]:
  "ev_inits (t @ u) = ev_inits t @ ev_inits u" "ev_stops (t @ u) = ev_stops t @ ev_stops u"
  "ev_aborts (t @ u) = ev_aborts t @ ev_aborts u" "ev_gos (t @ u) = ev_gos t @ ev_gos u"
  "ev_preflights (t @ u) = ev_preflights t @ ev_preflights u"
  by (simp_all add: ev_defs)

text \<open>
  The initialisations a prefix of the plugins gives: each plugin with the services it declared and
  that the plugins before it published.
\<close>

fun expected_inits :: "string set \<Rightarrow> ('c, 's) loadedPlugin list \<Rightarrow> (string \<times> string list) list" where
  "expected_inits S [] = []"
| "expected_inits S ((m, p) # lps) =
     (md_Name m, filter (\<lambda>s. s \<in> S) (map sr_Name (md_Requires m))) # expected_inits (S \<union> publishes m) lps"

lemma init_plugin_cases:
  assumes "init_plugin ctx h (m, p) st = (r, st')"
  obtains (before_init) t where "r \<noteq> None" "lo_trace st' = lo_trace st @ t"
      "ev_inits t = []" "ev_stops t = []" "ev_aborts t = []" "ev_preflights t = []" "ev_gos t = []"
      "lo_initialised st' = lo_initialised st" "lo_preflighted st' = lo_preflighted st"
  | (after_init) t where "lo_trace st' = lo_trace st @ t"
      "ev_inits t = [(md_Name m, filter (\<lambda>s. s \<in> dom (lo_staging st)) (map sr_Name (md_Requires m)))]"
      "ev_stops t = []" "ev_aborts t = []" "ev_preflights t = []" "ev_gos t = []"
      "lo_initialised st' = lo_initialised st @ [(m, p)]" "lo_preflighted st' = lo_preflighted st"
      "r = None \<Longrightarrow> dom (lo_staging st') = dom (lo_staging st) \<union> publishes m"
      "r = None \<Longrightarrow> lo_staging st \<subseteq>\<^sub>m lo_staging st'"
proof -
  have vis: "filter (\<lambda>s. \<not> Option.is_none (reg s)) xs = filter (\<lambda>s. s \<in> dom reg) xs"
    for reg :: "'b registry" and xs
    by (rule filter_cong) (auto simp: Option.is_none_def)
  let ?n = "md_Name m"
  let ?db = "databaseHandle h ?n"
  let ?nodb = "\<not> Option.is_none (h_pluginDBFactory h) \<and> Option.is_none ?db"
  let ?t = "if Option.is_none ?db then [] else [EvMigrate ?n]"
  let ?reg = "lo_staging st"
  let ?vis = "filter (\<lambda>s. s \<in> dom ?reg) (map sr_Name (md_Requires m))"
  have t: "ev_inits ?t = []" "ev_stops ?t = []" "ev_aborts ?t = []" "ev_preflights ?t = []" "ev_gos ?t = []"
    by (simp_all add: ev_defs)
  consider (cancelled) e where "ctx (lo_polls st) = Some e"
    | (nodb) "ctx (lo_polls st) = None" "?nodb"
    | (migration) e where "ctx (lo_polls st) = None" "\<not> ?nodb" "runPluginMigrations ?n p ?db = Some e"
    | (init) "ctx (lo_polls st) = None" "\<not> ?nodb" "runPluginMigrations ?n p ?db = None"
    by (cases "ctx (lo_polls st)"; cases "runPluginMigrations ?n p ?db") auto
  then show thesis
  proof cases
    case cancelled
    then show thesis
      using assms by (intro before_init [of "[]"]) (auto simp: init_plugin_def ctx_Err_def Let_def ev_defs)
  next
    case nodb
    then show thesis
      using assms by (intro before_init [of "[]"]) (auto simp: init_plugin_def ctx_Err_def Let_def ev_defs)
  next
    case (migration e)
    then have "r = Some e \<and> lo_trace st' = lo_trace st @ ?t \<and>
        lo_initialised st' = lo_initialised st \<and> lo_preflighted st' = lo_preflighted st"
      using assms by (cases "Option.is_none ?db") (auto simp: init_plugin_def ctx_Err_def emit_def)
    then show thesis using t by (intro before_init [of ?t]) simp_all
  next
    case init
    let ?st3 = "st\<lparr>lo_polls := Suc (lo_polls st), lo_trace := lo_trace st @ ?t @ [EvInit ?n ?vis],
      lo_initialised := lo_initialised st @ [(m, p)]\<rparr>"
    have "st' = ?st3 \<and> r \<noteq> None \<or> st' = ?st3\<lparr>lo_polls := Suc (Suc (lo_polls st))\<rparr> \<and> r \<noteq> None \<or>
      r = None \<and> (\<exists>provided reg. publishDeclaredServices ?reg ?n m provided = Inr reg \<and>
        st' = ?st3\<lparr>lo_polls := Suc (Suc (lo_polls st)), lo_staging := reg\<rparr>)"
      using assms init
      by (auto simp: init_plugin_def ctx_Err_def emit_def Let_def vis
          split: option.splits sum.splits prod.splits if_splits)
    then have "lo_trace st' = lo_trace st @ ?t @ [EvInit ?n ?vis]"
      and "lo_initialised st' = lo_initialised st @ [(m, p)]" and "lo_preflighted st' = lo_preflighted st"
      and pub: "r = None \<Longrightarrow> \<exists>provided. publishDeclaredServices ?reg ?n m provided = Inr (lo_staging st')"
      by auto
    moreover have "ev_inits (?t @ [EvInit ?n ?vis]) = [(?n, ?vis)]" "ev_stops (?t @ [EvInit ?n ?vis]) = []"
      "ev_aborts (?t @ [EvInit ?n ?vis]) = []" "ev_preflights (?t @ [EvInit ?n ?vis]) = []"
      "ev_gos (?t @ [EvInit ?n ?vis]) = []"
      unfolding ev_append t by (simp_all add: ev_defs)
    ultimately show thesis
      using pub publishDeclaredServices_Inr(1,2) [of ?reg ?n m]
      by (intro after_init [of "?t @ [EvInit ?n ?vis]"]) blast+
  qed
qed

definition quiet :: "host_event list \<Rightarrow> bool" where
  "quiet t \<longleftrightarrow> ev_stops t = [] \<and> ev_aborts t = [] \<and> ev_gos t = []"

lemma quiet_append [simp]: "quiet (t @ u) \<longleftrightarrow> quiet t \<and> quiet u"
  by (auto simp: quiet_def)

lemma init_plugins_trace:
  assumes "init_plugins ctx h lps st = (r, st')"
  shows "\<exists>t k. lo_trace st' = lo_trace st @ t \<and> quiet t \<and> ev_preflights t = [] \<and> k \<le> length lps \<and>
    ev_inits t = take k (expected_inits (dom (lo_staging st)) lps) \<and>
    lo_initialised st' = lo_initialised st @ take k lps \<and> lo_preflighted st' = lo_preflighted st \<and>
    (r = None \<longrightarrow> k = length lps \<and>
       dom (lo_staging st') = dom (lo_staging st) \<union> (\<Union>lp \<in> set lps. publishes (fst lp)))"
  using assms
proof (induction lps arbitrary: st)
  case Nil
  then show ?case by (intro exI [of _ "[]"] exI [of _ 0]) (simp add: ev_defs quiet_def)
next
  case (Cons lp lps)
  obtain m p where lp: "lp = (m, p)" by (cases lp)
  obtain r1 st1 where i: "init_plugin ctx h (m, p) st = (r1, st1)" by (cases "init_plugin ctx h (m, p) st")
  from i show ?case
  proof (cases rule: init_plugin_cases)
    case (before_init t)
    then have "r = r1" "st' = st1" using Cons.prems i lp by auto
    then show ?thesis using before_init
      by (intro exI [of _ t] exI [of _ 0]) (simp add: quiet_def)
  next
    case (after_init t)
    show ?thesis
    proof (cases r1)
      case (Some e)
      then have "r = r1" "st' = st1" using Cons.prems i lp by auto
      then show ?thesis using after_init lp Some
        by (intro exI [of _ t] exI [of _ 1]) (simp add: quiet_def)
    next
      case None
      then have "init_plugins ctx h lps st1 = (r, st')" using Cons.prems i lp by simp
      from Cons.IH [OF this] obtain u k where u: "lo_trace st' = lo_trace st1 @ u" "quiet u"
          "ev_preflights u = []" "k \<le> length lps"
          "ev_inits u = take k (expected_inits (dom (lo_staging st1)) lps)"
          "lo_initialised st' = lo_initialised st1 @ take k lps" "lo_preflighted st' = lo_preflighted st1"
          "r = None \<longrightarrow> k = length lps \<and>
             dom (lo_staging st') = dom (lo_staging st1) \<union> (\<Union>lp \<in> set lps. publishes (fst lp))"
        by blast
      then show ?thesis using after_init lp None
        by (intro exI [of _ "t @ u"] exI [of _ "Suc k"]) (auto simp: quiet_def)
    qed
  qed
qed

lemma inspect_trace:
  assumes "inspect candidates acc st = (r, st')"
  shows "\<exists>t fs. lo_trace st' = lo_trace st @ t \<and> quiet t \<and> ev_inits t = [] \<and>
    lo_initialised st' = lo_initialised st \<and> lo_staging st' = lo_staging st \<and>
    lo_preflighted st @ ev_preflights t = lo_preflighted st' @ fs \<and> length fs \<le> 1"
  using assms
proof (induction candidates arbitrary: acc st)
  case Nil
  then show ?case by (intro exI [of _ "[]"]) (simp add: ev_defs quiet_def)
next
  case (Cons c rest)
  obtain name candidate where c: "c = (name, candidate)" by (cases c)
  have ev: "quiet [EvPreflight name]" "ev_inits [EvPreflight name] = []"
    "ev_preflights [EvPreflight name] = [name]" "quiet []" "ev_inits [] = []" "ev_preflights [] = []"
    by (simp_all add: quiet_def ev_defs)
  consider (stop) t fs where "lo_trace st' = lo_trace st @ t" "quiet t" "ev_inits t = []"
      "lo_initialised st' = lo_initialised st" "lo_staging st' = lo_staging st"
      "lo_preflighted st @ ev_preflights t = lo_preflighted st' @ fs" "length fs \<le> 1"
    | (go) acc' st1 t where "inspect rest acc' st1 = (r, st')" "lo_trace st1 = lo_trace st @ t" "quiet t"
      "ev_inits t = []" "lo_initialised st1 = lo_initialised st" "lo_staging st1 = lo_staging st"
      "lo_preflighted st1 = lo_preflighted st @ ev_preflights t"
  proof (cases candidate)
    case None
    then show thesis using Cons.prems c ev by (intro stop [of "[]" "[]"]) auto
  next
    case p: (Some p)
    show thesis
    proof (cases "pl_Preflight p")
      case pf: None
      show thesis
      proof (cases "check_metadata name (pl_Metadata p)")
        case None
        then show thesis using Cons.prems c p ev pf
          by (intro go [of "acc @ [(pl_Metadata p, p)]" st "[]"]) auto
      next
        case (Some e)
        then show thesis using Cons.prems c p ev pf by (intro stop [of "[]" "[]"]) auto
      qed
    next
      case pf: (Some pf)
      let ?st1 = "st\<lparr>lo_trace := lo_trace st @ [EvPreflight name], lo_preflighted := lo_preflighted st @ [name]\<rparr>"
      show thesis
      proof (cases pf)
        case None
        then show thesis using Cons.prems c p ev pf
          by (cases "check_metadata name (pl_Metadata p)")
            (auto simp: emit_def intro: stop [of "[EvPreflight name]" "[]"]
              go [of "acc @ [(pl_Metadata p, p)]" ?st1 "[EvPreflight name]"])
      next
        case (Some e)
        then show thesis using Cons.prems c p ev pf
          by (intro stop [of "[EvPreflight name]" "[name]"]) (auto simp: emit_def)
      qed
    qed
  qed
  then show ?case
  proof cases
    case stop
    then show ?thesis by blast
  next
    case (go acc' st1 t)
    from Cons.IH [OF go(1)] obtain u fs where u: "lo_trace st' = lo_trace st1 @ u" "quiet u" "ev_inits u = []"
        "lo_initialised st' = lo_initialised st1" "lo_staging st' = lo_staging st1"
        "lo_preflighted st1 @ ev_preflights u = lo_preflighted st' @ fs" "length fs \<le> 1"
      by blast
    then show ?thesis using go by (intro exI [of _ "t @ u"] exI [of _ fs]) simp
  qed
qed

text \<open>
  Plugins in an order in which every service that one of them needs is published by an earlier one.
\<close>

abbreviation lp_name :: "('c, 's) loadedPlugin \<Rightarrow> string" where
  "lp_name lp \<equiv> md_Name (fst lp)"

definition deps_ok :: "('c, 's) loadedPlugin list \<Rightarrow> bool" where
  "deps_ok lps \<longleftrightarrow> (\<forall>i < length lps. \<forall>r \<in> set (md_Requires (fst (lps ! i))).
     \<not> sr_Optional r \<longrightarrow> (\<exists>j < i. sr_Name r \<in> publishes (fst (lps ! j))))"

lemma expected_inits_length [simp]: "length (expected_inits S lps) = length lps"
  by (induction lps arbitrary: S) auto

lemma expected_inits_names [simp]: "map fst (expected_inits S lps) = map lp_name lps"
  by (induction lps arbitrary: S) auto

lemma expected_inits_nth:
  "i < length lps \<Longrightarrow> expected_inits S lps ! i =
     (lp_name (lps ! i), filter (\<lambda>s. s \<in> S \<union> (\<Union>lp \<in> set (take i lps). publishes (fst lp)))
        (map sr_Name (md_Requires (fst (lps ! i)))))"
proof (induction lps arbitrary: S i)
  case (Cons lp lps)
  then show ?case by (cases i; cases lp) (auto simp: Un_assoc)
qed simp

lemma deps_ok_visible:
  assumes "deps_ok lps" and "lp \<in> set lps"
  shows "\<exists>v. (lp_name lp, v) \<in> set (expected_inits S lps) \<and>
    (\<forall>r \<in> set (md_Requires (fst lp)). sr_Optional r \<or> sr_Name r \<in> set v)"
proof -
  obtain i where i: "i < length lps" "lps ! i = lp" using assms(2) by (auto simp: in_set_conv_nth)
  let ?v = "snd (expected_inits S lps ! i)"
  have e: "expected_inits S lps ! i = (lp_name lp, ?v)"
    using expected_inits_nth [OF i(1)] i(2) by (metis fst_conv prod.collapse)
  have "sr_Name r \<in> set ?v" if r: "r \<in> set (md_Requires (fst lp))" "\<not> sr_Optional r" for r
  proof -
    obtain j where j: "j < i" "sr_Name r \<in> publishes (fst (lps ! j))"
      using assms(1) i r unfolding deps_ok_def by blast
    then have "lps ! j \<in> set (take i lps)" using i(1) by (auto simp: in_set_conv_nth)
    then show ?thesis using expected_inits_nth [OF i(1)] i(2) r j by auto
  qed
  then show ?thesis using e i(1) nth_mem [of i "expected_inits S lps"] by (metis expected_inits_length)
qed

lemma before_index:
  assumes "before order p c" and "distinct order" and "i < length order" and "order ! i = c"
  shows "\<exists>j < i. order ! j = p"
proof -
  obtain xs ys zs where o: "order = xs @ p # ys @ c # zs" using assms(1) by (auto simp: before_def)
  then have "order ! (length xs + Suc (length ys)) = c" by (simp add: nth_append)
  moreover have "length xs + Suc (length ys) < length order" using o by simp
  ultimately have "i = length xs + Suc (length ys)"
    using assms(4) nth_eq_iff_index_eq [OF assms(2,3)] by metis
  then show ?thesis using o by (intro exI [of _ "length xs"]) (simp add: nth_append)
qed

lemma by_name_Some:
  assumes "name \<in> lp_name ` set lps"
  obtains lp where "by_name lps name = Some lp" "lp \<in> set lps" "lp_name lp = name"
proof (cases "by_name lps name")
  case None
  then show thesis using assms by (auto simp: by_name_def find_first_None)
next
  case (Some lp)
  then have "lp \<in> set lps \<and> lp_name lp = name"
    unfolding by_name_def by (auto dest: find_first_Some)
  then show thesis using Some that by blast
qed

lemma in_order_names:
  assumes "set order \<subseteq> lp_name ` set lps"
  shows "map lp_name (in_order lps order) = order" and "set (in_order lps order) \<subseteq> set lps"
proof -
  have "map lp_name (in_order lps order) = order \<and> set (in_order lps order) \<subseteq> set lps"
    using assms
  proof (induction order)
    case (Cons n order)
    then obtain lp where "by_name lps n = Some lp" "lp \<in> set lps" "lp_name lp = n"
      by (metis by_name_Some insert_subset list.set(2))
    then show ?case using Cons by (simp add: in_order_def map_filter_simps)
  qed (simp add: in_order_def map_filter_simps)
  then show "map lp_name (in_order lps order) = order" "set (in_order lps order) \<subseteq> set lps"
    by simp_all
qed

lemma in_order_deps:
  assumes g: "Graph (map fst lps) (\<lambda>n. n \<in> set (map (md_Name \<circ> fst) lps)) = Inr order"
  shows "map lp_name (in_order lps order) = order" and "deps_ok (in_order lps order)"
    and "set (in_order lps order) = set lps" and "distinct order"
proof -
  let ?en = "\<lambda>n. n \<in> set (map (md_Name \<circ> fst) lps)"
  let ?L = "in_order lps order"
  note o = Graph_order [OF g]
  have all: "{m \<in> set (map fst lps). ?en (md_Name m)} = fst ` set lps" by auto
  have ms: "set (enabled_metas (map fst lps) ?en) = fst ` set lps"
    unfolding set_enabled_metas all ..
  have names: "set order = lp_name ` set lps" using o(2) ms by (auto simp: image_image)
  have L: "map lp_name ?L = order" "set ?L \<subseteq> set lps"
    using in_order_names [of order lps] names by simp_all
  show "map lp_name ?L = order" by (rule L(1))
  show dist: "distinct order" by (rule o(1))
  have "publications_ok (enabled_metas (map fst lps) ?en)" and
    req: "requirements_ok (enabled_metas (map fst lps) ?en)"
    using Graph_Inr g by blast+
  then have "distinct (map md_Name (enabled_metas (map fst lps) ?en))"
    by (simp add: publications_ok_def)
  moreover have "mset (enabled_metas (map fst lps) ?en) = mset (map fst lps)"
    unfolding enabled_metas_def mset_sort by (simp add: filter_map o_def)
  then have "mset (map md_Name (enabled_metas (map fst lps) ?en)) = mset (map md_Name (map fst lps))"
    by (simp only: mset_map)
  ultimately have dn: "distinct (map md_Name (map fst lps))"
    using mset_eq_imp_distinct_iff by blast
  then have inj: "inj_on lp_name (set lps)" by (simp add: distinct_map o_def)
  have "lp \<in> set ?L" if "lp \<in> set lps" for lp
  proof -
    have "lp_name lp \<in> set (map lp_name ?L)" unfolding L(1) names using that by simp
    then obtain lp' where "lp' \<in> set ?L" "lp_name lp' = lp_name lp" by auto
    then show ?thesis using inj that L(2) by (metis inj_on_def subsetD)
  qed
  then show "set ?L = set lps" using L(2) by blast
  show "deps_ok ?L"
    unfolding deps_ok_def
  proof (intro allI impI ballI)
    fix i r assume i: "i < length ?L" and r: "r \<in> set (md_Requires (fst (?L ! i)))" "\<not> sr_Optional r"
    have m: "fst (?L ! i) \<in> fst ` set lps" using nth_mem [OF i] L(2) by blast
    then obtain q where q: "q \<in> fst ` set lps" "sr_Name r \<in> publishes q"
      using req r unfolding requirements_ok_def ms by blast
    then have "(md_Name q, lp_name (?L ! i)) \<in> service_edges (enabled_metas (map fst lps) ?en)"
      using m r unfolding service_edges_def ms by blast
    then have "before order (md_Name q) (lp_name (?L ! i))" by (rule o(3))
    then obtain j where j: "j < i" "order ! j = md_Name q"
      using before_index dist i L(1) by (metis length_map nth_map)
    then have "lp_name (?L ! j) = md_Name q" using i L(1) by (metis length_map nth_map order.strict_trans)
    moreover have "?L ! j \<in> set lps" using nth_mem [of j ?L] j i L(2) by auto
    moreover obtain lq where lq: "lq \<in> set lps" "q = fst lq" using q(1) by blast
    ultimately have "?L ! j = lq" using inj_onD [OF inj] by simp
    then have "fst (?L ! j) = q" using lq by simp
    then show "\<exists>j<i. sr_Name r \<in> publishes (fst (?L ! j))" using j q(2) by auto
  qed
qed

text \<open>The trace and the result of the body of \<open>Load\<close>.\<close>

lemma load_body_trace:
  fixes h :: "('c, 's) Host"
  assumes "load_body ctx h st = (r, st')" and "lo_initialised st = []" and "lo_preflighted st = []"
    and "lo_staging st = newServiceRegistry"
  shows "\<exists>t fs (lps :: ('c, 's) loadedPlugin list) k. lo_trace st' = lo_trace st @ t \<and> quiet t \<and>
    ev_preflights t = lo_preflighted st' @ fs \<and> length fs \<le> 1 \<and> deps_ok lps \<and> k \<le> length lps \<and>
    ev_inits t = take k (expected_inits {} lps) \<and> lo_initialised st' = take k lps \<and>
    (\<forall>loaded. r = Inr loaded \<longrightarrow> loaded = lps \<and> k = length lps \<and> distinct (map lp_name lps) \<and>
       (\<exists>lp \<in> set lps. md_Mandatory (fst lp)) \<and>
       dom (lo_staging st') = (\<Union>lp \<in> set lps. publishes (fst lp)))"
    (is "\<exists>t fs lps k. ?P t fs lps k")
proof -
  let ?st1 = "st\<lparr>lo_polls := Suc (lo_polls st)\<rparr>"
  have stop: ?thesis if "lo_trace st' = lo_trace st @ t" "quiet t" "ev_inits t = []"
      "ev_preflights t = lo_preflighted st' @ fs" "length fs \<le> 1" "lo_initialised st' = []" "isl r" for t fs
    using that by (intro exI [of _ t] exI [of _ fs] exI [of _ "[]"] exI [of _ 0]) (auto simp: deps_ok_def)
  have start: "quiet []" "ev_inits [] = []" "ev_preflights [] = []" by (simp_all add: quiet_def ev_defs)
  show ?thesis
  proof (cases "\<exists>candidates. ctx (lo_polls st) = None \<and>
      \<not> (case map_of (h_cfg h) ''core'' of Some entry \<Rightarrow> \<not> pe_Enabled entry | None \<Rightarrow> False) \<and>
      collect_candidates h (sort_key fst (h_cfg h)) = Inr candidates")
    case False
    then have "st' = ?st1 \<and> isl r"
      using assms(1) by (auto simp: load_body_def ctx_Err_def Let_def split: option.splits if_splits sum.splits)
    then show ?thesis using assms start by (intro stop [of "[]" "[]"]) auto
  next
    case True
    then obtain candidates where c: "ctx (lo_polls st) = None"
      "\<not> (case map_of (h_cfg h) ''core'' of Some entry \<Rightarrow> \<not> pe_Enabled entry | None \<Rightarrow> False)"
      "collect_candidates h (sort_key fst (h_cfg h)) = Inr candidates" by blast
    obtain ri st2 where i: "inspect candidates [] ?st1 = (ri, st2)"
      by (cases "inspect candidates [] ?st1")
    obtain t fs where t: "lo_trace st2 = lo_trace st @ t" "quiet t" "ev_inits t = []"
      "lo_initialised st2 = []" "lo_staging st2 = newServiceRegistry"
      "ev_preflights t = lo_preflighted st2 @ fs" "length fs \<le> 1"
      using inspect_trace [OF i] assms by auto
    show ?thesis
    proof (cases "\<exists>lps order. ri = Inr lps \<and> list_ex (\<lambda>lp. md_Mandatory (fst lp)) lps \<and>
        Graph (map fst lps) (\<lambda>n. n \<in> set (map (md_Name \<circ> fst) lps)) = Inr order")
      case False
      then have "st' = st2 \<and> isl r"
        using assms(1) c i
        by (auto simp: load_body_def ctx_Err_def Let_def split: sum.splits if_splits)
      then show ?thesis using t by (intro stop [of t fs]) auto
    next
      case True
      then obtain lps order where o: "ri = Inr lps" "list_ex (\<lambda>lp. md_Mandatory (fst lp)) lps"
        "Graph (map fst lps) (\<lambda>n. n \<in> set (map (md_Name \<circ> fst) lps)) = Inr order" by blast
      note L = in_order_deps [OF o(3)]
      obtain e st3 where p: "init_plugins ctx h (in_order lps order) st2 = (e, st3)"
        by (cases "init_plugins ctx h (in_order lps order) st2")
      then obtain u k where u: "lo_trace st3 = lo_trace st2 @ u" "quiet u" "ev_preflights u = []"
          "k \<le> length (in_order lps order)" "ev_inits u = take k (expected_inits {} (in_order lps order))"
          "lo_initialised st3 = take k (in_order lps order)" "lo_preflighted st3 = lo_preflighted st2"
          "e = None \<longrightarrow> k = length (in_order lps order) \<and>
             dom (lo_staging st3) = (\<Union>lp \<in> set (in_order lps order). publishes (fst lp))"
        using init_plugins_trace [OF p] t by (auto simp: newServiceRegistry_def)
      have st': "lo_trace st' = lo_trace st3" "lo_initialised st' = lo_initialised st3"
        "lo_preflighted st' = lo_preflighted st3" "lo_staging st' = lo_staging st3"
        "\<And>loaded. r = Inr loaded \<Longrightarrow> e = None \<and> loaded = in_order lps order"
        using assms(1) c i o p
        by (auto simp: load_body_def ctx_Err_def Let_def split: option.splits)
      show ?thesis
        using t u st' L o(2)
        by (intro exI [of _ "t @ u"] exI [of _ fs] exI [of _ "in_order lps order"] exI [of _ k])
          (auto simp: list_ex_iff)
    qed
  qed
qed

section \<open>Load, Shutdown and the life of a host\<close>

lemma stop_reverse_events:
  "ev_stops (snd (stop_reverse what lps)) = rev (map lp_name lps)"
  "ev_inits (snd (stop_reverse what lps)) = []" "ev_gos (snd (stop_reverse what lps)) = []"
  "ev_aborts (snd (stop_reverse what lps)) = []" "ev_preflights (snd (stop_reverse what lps)) = []"
  by (auto simp: stop_reverse_def ev_defs rev_map map_concat o_def split_beta concat_map_singleton)

lemma ev_map:
  "ev_stops (map EvAbort ns) = []" "ev_inits (map EvAbort ns) = []" "ev_gos (map EvAbort ns) = []"
  "ev_aborts (map EvAbort ns) = ns" "ev_preflights (map EvAbort ns) = []"
  "ev_gos (map (\<lambda>(m, p). EvGo (md_Name m)) lps) = map lp_name lps"
  "ev_stops (map (\<lambda>(m, p). EvGo (md_Name m)) lps) = []"
  "ev_inits (map (\<lambda>(m, p). EvGo (md_Name m)) lps) = []"
  "ev_gos (map (\<lambda>(m, p). EvBanSink (md_Name m)) lps) = []"
  "ev_stops (map (\<lambda>(m, p). EvBanSink (md_Name m)) lps) = []"
  "ev_inits (map (\<lambda>(m, p). EvBanSink (md_Name m)) lps) = []"
  "ev_stops (map EvHealthCancel ks) = []" "ev_inits (map EvHealthCancel ks) = []"
  by (auto simp: ev_defs map_concat o_def split_beta concat_map_singleton)

lemma Load_new:
  assumes "Load (Some ctx) h = (r, h')" and "h_state h = hostNew"
  obtains (failed) e st stops cleanup where "r \<noteq> None"
      "load_body ctx h \<lparr>lo_polls = 0, lo_trace = h_trace h, lo_preflighted = [], lo_initialised = [],
         lo_staging = newServiceRegistry\<rparr> = (Inl e, st)"
      "stop_reverse ''rollback Stop'' (lo_initialised st) = (cleanup, stops)"
      "h_state h' = hostNew" "h_loaded h' = []" "h_registry h' = newServiceRegistry"
      "h_trace h' = lo_trace st @ stops @ map EvAbort (rev (lo_preflighted st))"
  | (loaded) loaded st where "r = None"
      "load_body ctx h \<lparr>lo_polls = 0, lo_trace = h_trace h, lo_preflighted = [], lo_initialised = [],
         lo_staging = newServiceRegistry\<rparr> = (Inr loaded, st)"
      "h_state h' = hostRunning" "h_loaded h' = loaded" "h_registry h' = lo_staging st"
      "h_trace h' = lo_trace st
         @ map (\<lambda>(m, p). EvBanSink (md_Name m)) (filter (\<lambda>(m, p). pl_BanSink p) loaded)
         @ map (\<lambda>(m, p). EvGo (md_Name m)) loaded"
proof -
  let ?st = "\<lparr>lo_polls = 0, lo_trace = h_trace h, lo_preflighted = [], lo_initialised = [],
     lo_staging = newServiceRegistry\<rparr>"
  obtain b st where b: "load_body ctx h ?st = (b, st)" by (cases "load_body ctx h ?st")
  show thesis
  proof (cases b)
    case (Inl e)
    obtain cleanup stops where c: "stop_reverse ''rollback Stop'' (lo_initialised st) = (cleanup, stops)"
      by (cases "stop_reverse ''rollback Stop'' (lo_initialised st)")
    have "join_errors [Some e, x] \<noteq> None" for x
      by (cases x) (simp_all add: join_errors_def map_filter_simps)
    then show thesis
      using assms b Inl c
      by (intro failed [of e st cleanup stops])
        (auto simp: Load_def rollbackInitialised_def Let_def split: if_splits)
  next
    case (Inr loaded)
    then show thesis using assms b by (intro loaded [of loaded st]) (auto simp: Load_def)
  qed
qed

lemma Load_other: "ctx = None \<or> h_state h \<noteq> hostNew \<Longrightarrow> snd (Load ctx h) = h \<and> fst (Load ctx h) \<noteq> None"
  by (cases ctx; cases "h_state h") (auto simp: Load_def)

inductive host_step :: "('c, 's) Host \<Rightarrow> ('c, 's) Host \<Rightarrow> bool" where
  load: "Load ctx h = (r, h') \<Longrightarrow> host_step h h'"
| shutdown: "Shutdown ctx_nil health_wait starts_wait h = (r, h') \<Longrightarrow> host_step h h'"
| health: "HealthCheck h = (res, h') \<Longrightarrow> host_step h h'"
| restart: "Restart ctx_nil h name = (r, h') \<Longrightarrow> host_step h h'"
| monitor: "StartHealthMonitor ctx_nil h = h' \<Longrightarrow> host_step h h'"

inductive_cases host_stepE: "host_step h h'"

text \<open>
  The invariant: outside \<open>hostRunning\<close> nothing is loaded or published; every plugin whose \<open>Init\<close> was
  entered has been stopped as often, but for those that run now.
\<close>

definition host_inv :: "('c, 's) Host \<Rightarrow> bool" where
  "host_inv h \<longleftrightarrow>
     h_state h \<in> {hostNew, hostRunning, hostStopped} \<and>
     (h_state h \<noteq> hostRunning \<longrightarrow> h_loaded h = [] \<and> h_registry h = Map.empty) \<and>
     mset (map fst (ev_inits (h_trace h)))
       = mset (ev_stops (h_trace h)) + mset (map lp_name (h_loaded h))"

lemma host_inv_New: "host_inv (New cfg reg ext db emits)"
  by (simp add: host_inv_def New_def newServiceRegistry_def ev_defs)

lemma Load_inv:
  assumes l: "Load ctx h = (r, h')" and "host_inv h"
  shows "host_inv h'"
proof (cases "ctx = None \<or> h_state h \<noteq> hostNew")
  case True
  then show ?thesis using assms Load_other [of ctx h] by simp
next
  case False
  then obtain c where c: "ctx = Some c" "h_state h = hostNew" by auto
  then have none: "h_loaded h = []" and bal: "mset (map fst (ev_inits (h_trace h))) = mset (ev_stops (h_trace h))"
    using assms(2) by (auto simp: host_inv_def)
  from l [unfolded c(1)] c(2) show ?thesis
  proof (cases rule: Load_new)
    case (failed e st stops cleanup)
    from load_body_trace [OF failed(2)] obtain t k lps where t: "lo_trace st = h_trace h @ t" "quiet t"
        "ev_inits t = take k (expected_inits {} lps)" "lo_initialised st = take k lps"
      by auto
    have "map fst (ev_inits t) = map lp_name (lo_initialised st)"
      unfolding t(3,4) by (metis expected_inits_names take_map)
    moreover have "ev_stops stops = rev (map lp_name (lo_initialised st))" "ev_inits stops = []"
      using stop_reverse_events [of "''rollback Stop''" "lo_initialised st"] failed(3) by simp_all
    ultimately show ?thesis
      using failed t bal by (simp add: host_inv_def newServiceRegistry_def ev_map quiet_def)
  next
    case (loaded lps st)
    from load_body_trace [OF loaded(2)] obtain t where t: "lo_trace st = h_trace h @ t" "quiet t"
        "ev_inits t = expected_inits {} lps"
      by auto
    then have "map fst (ev_inits t) = map lp_name lps" by simp
    then show ?thesis
      using loaded t bal by (simp add: host_inv_def ev_map quiet_def)
  qed
qed

lemma health_check_events: "ev_inits (snd (health_check b lps)) = []" "ev_stops (snd (health_check b lps)) = []"
  by (induction b lps rule: health_check.induct)
    (auto simp: ev_defs Let_def split: prod.splits option.splits)

lemma Shutdown_inv:
  assumes "Shutdown ctx_nil hw sw h = (r, h')" and "host_inv h"
  shows "host_inv h'"
proof (cases "\<not> ctx_nil \<and> h_state h = hostRunning")
  case False
  then have "h' = h" using assms by (cases "h_state h") (auto simp: Shutdown_def split: if_splits)
  then show ?thesis using assms by simp
next
  case True
  let ?stops = "snd (stop_reverse ''Stop'' (h_loaded h))"
  have "h_trace h' = h_trace h @ ((if h_runCancel h then [EvRunCancel] else [])
      @ map EvHealthCancel [0..<h_healthCancels h]) @ ?stops \<and>
    h_state h' = hostStopped \<and> h_loaded h' = [] \<and> h_registry h' = newServiceRegistry"
    using assms True
    by (cases "stop_reverse ''Stop'' (h_loaded h)") (auto simp: Shutdown_def stopPlugins_def Let_def)
  moreover have "ev_inits (if h_runCancel h then [EvRunCancel] else []) = []"
    "ev_stops (if h_runCancel h then [EvRunCancel] else []) = []" by (simp_all add: ev_defs)
  ultimately show ?thesis
    using assms(2) by (simp add: host_inv_def stop_reverse_events ev_map newServiceRegistry_def)
qed

lemma host_step_inv:
  assumes "host_step h h'" and "host_inv h"
  shows "host_inv h'"
  using assms(1)
proof (cases rule: host_step.cases)
  case (load ctx r)
  then show ?thesis using Load_inv assms(2) by blast
next
  case (shutdown ctx_nil hw sw r)
  then show ?thesis using Shutdown_inv assms(2) by blast
next
  case (health res)
  then show ?thesis
    using assms(2) health_check_events [of "h_emits h" "h_loaded h"]
    by (auto simp: HealthCheck_def host_inv_def split: prod.splits)
next
  case (restart ctx_nil name r)
  then show ?thesis
    using assms(2) by (auto simp: Restart_def host_inv_def ev_defs split: if_splits option.splits)
next
  case (monitor ctx_nil)
  then show ?thesis
    using assms(2) by (auto simp: StartHealthMonitor_def host_inv_def split: if_splits)
qed

section \<open>Properties of the host\<close>

text \<open>
  C5: A load that fails leaves no trace of itself: the host is new again with nothing loaded and
  nothing published, no plugin was started, the plugins whose \<open>Init\<close> was entered have been stopped,
  each once and in the reverse order, and the external plugins that passed their preflight have been
  aborted in the reverse order.
\<close>

theorem load_failure_rolls_back:
  assumes "Load (Some ctx) h = (Some e, h')" and "h_state h = hostNew"
  shows "h_state h' = hostNew \<and> h_loaded h' = [] \<and> h_registry h' = Map.empty \<and>
    (\<exists>t fs. h_trace h' = h_trace h @ t \<and> ev_gos t = [] \<and>
       ev_stops t = rev (map fst (ev_inits t)) \<and>
       ev_preflights t = rev (ev_aborts t) @ fs \<and> length fs \<le> 1)"
  using assms
proof (cases rule: Load_new)
  case (failed e' st stops cleanup)
  from load_body_trace [OF failed(2)] obtain t fs k lps where t: "lo_trace st = h_trace h @ t" "quiet t"
      "ev_inits t = take k (expected_inits {} lps)" "lo_initialised st = take k lps"
      "ev_preflights t = lo_preflighted st @ fs" "length fs \<le> 1"
    by auto
  have "map fst (ev_inits t) = map lp_name (lo_initialised st)"
    unfolding t(3,4) by (metis expected_inits_names take_map)
  moreover have "ev_stops stops = rev (map lp_name (lo_initialised st))" "ev_inits stops = []"
      "ev_gos stops = []" "ev_aborts stops = []" "ev_preflights stops = []"
    using stop_reverse_events [of "''rollback Stop''" "lo_initialised st"] failed(3) by simp_all
  ultimately show ?thesis
    using failed t
    by (intro conjI exI [of _ "t @ stops @ map EvAbort (rev (lo_preflighted st))"] exI [of _ fs])
      (auto simp: newServiceRegistry_def ev_map quiet_def)
qed simp

text \<open>The three plugins of the example above; \<open>billing\<close> resolves its database when it is initialised.\<close>

definition demo_plugin :: "error option \<Rightarrow> Metadata \<Rightarrow> (unit, nat) plugin" where
  "demo_plugin outcome m =
     \<lparr>pl_Metadata = m, pl_Preflight = None, pl_Migrations = False,
      pl_Init = (\<lambda>_ resolver. if md_Name m = ''billing''
        then (case resolver ''database.repository'' of Inl e \<Rightarrow> Some e | Inr _ \<Rightarrow> outcome) else None),
      pl_Published = Some (\<lambda>_. map (\<lambda>s. (sr_Name s, Some 1)) (md_Publishes m)),
      pl_BanSink = False, pl_Stop = None, pl_Health = None, pl_Restart = None\<rparr>"

definition demo_host :: "error option \<Rightarrow> (unit, nat) Host" where
  "demo_host outcome =
     New (map (\<lambda>m. (md_Name m, \<lparr>pe_Enabled = True, pe_Source = ''builtin'', pe_Config = ()\<rparr>)) demo_plugins)
       (\<lambda>n. map_option (\<lambda>m. Some (Some (demo_plugin outcome m))) (find_first (\<lambda>m. md_Name m = n) demo_plugins))
       (\<lambda>n e. demo_plugin None (hd demo_plugins)) None False"

theorem load_failure_rolls_back_witness:
  "\<exists>e h'. Load (Some (\<lambda>_. None)) (demo_host (Some (Err ''no gateway''))) = (Some e, h') \<and>
     h_state h' = hostNew \<and> h_loaded h' = [] \<and> h_registry h' = Map.empty"
proof -
  let ?h = "demo_host (Some (Err ''no gateway''))"
  have "fst (Load (Some (\<lambda>_. None)) ?h) \<noteq> None" by code_simp
  then obtain e h' where l: "Load (Some (\<lambda>_. None)) ?h = (Some e, h')"
    by (metis not_None_eq prod.collapse)
  have "h_state ?h = hostNew" by (simp add: demo_host_def New_def)
  with load_failure_rolls_back [OF l this] l show ?thesis by blast
qed





end
