(* ===== verification/Ban_Cache.thy ===== *)
theory Ban_Cache
  imports Prelude
begin

text \<open>
  The local ban cache of the plugin host (\<^verbatim>\<open>internal/pluginhost/bancache.go\<close>). Every reading of the
  clock is an argument. \<open>IsBanned\<close> takes two locks: a read under the first, and, for an entry that has
  expired, an eviction under the second, between which other calls may run; the two halves are two
  operations here.
\<close>

section \<open>Operations\<close>

type_synonym ban_cache = "string \<rightharpoonup> int"

definition NewLocalBanCache :: ban_cache where
  "NewLocalBanCache = Map.empty"

definition PushUnban :: "string \<Rightarrow> ban_cache \<Rightarrow> ban_cache" where
  "PushUnban email bans =
     (let email = trim_space email in if email = '''' then bans else bans(email := None))"

definition PushBanUpdate :: "int \<Rightarrow> string \<Rightarrow> int \<Rightarrow> ban_cache \<Rightarrow> ban_cache" where
  "PushBanUpdate now email bannedUntil bans =
     (let email = trim_space email
      in if email = '''' then bans
         else if \<not> bannedUntil > now then PushUnban email bans
         else bans(email \<mapsto> bannedUntil))"

text \<open>
  The read: the answer and, when an expired entry was found, the moment it held, which the second
  half is called with.
\<close>

definition IsBanned_read :: "int \<Rightarrow> string \<Rightarrow> ban_cache \<Rightarrow> bool \<times> int option" where
  "IsBanned_read now email bans =
     (let email = trim_space email
      in if email = '''' then (False, None)
         else (case bans email of
           None \<Rightarrow> (False, None)
         | Some expiresAt \<Rightarrow> if now < expiresAt then (True, None) else (False, Some expiresAt)))"

definition IsBanned_evict :: "int \<Rightarrow> string \<Rightarrow> int \<Rightarrow> ban_cache \<Rightarrow> ban_cache" where
  "IsBanned_evict now email expiresAt bans =
     (let email = trim_space email
      in case bans email of
           Some current \<Rightarrow>
             if current = expiresAt \<and> \<not> now < current then bans(email := None) else bans
         | None \<Rightarrow> bans)"

section \<open>What a caller sees\<close>

datatype ban_op =
    Ban string int
  | Unban string
  | Evict string int

definition run_op :: "int \<times> ban_op \<Rightarrow> ban_cache \<Rightarrow> ban_cache" where
  "run_op e bans = (case e of
     (now, Ban email until) \<Rightarrow> PushBanUpdate now email until bans
   | (now, Unban email) \<Rightarrow> PushUnban email bans
   | (now, Evict email expiresAt) \<Rightarrow> IsBanned_evict now email expiresAt bans)"

text \<open>The specification: the last decision about an address, never evicted.\<close>

fun last_decision :: "string \<Rightarrow> (int \<times> ban_op) list \<Rightarrow> int option \<Rightarrow> int option" where
  "last_decision email [] d = d"
| "last_decision email ((now, Ban e until) # ops) d =
     last_decision email ops (if trim_space e = email then (if until > now then Some until else None) else d)"
| "last_decision email ((now, Unban e) # ops) d =
     last_decision email ops (if trim_space e = email then None else d)"
| "last_decision email ((now, Evict e x) # ops) d = last_decision email ops d"

text \<open>
  The cache and the decisions agree at every moment from \<open>now\<close> on: an entry is the last decision, and
  a decision without an entry has expired.
\<close>

definition agrees :: "int \<Rightarrow> int option \<Rightarrow> int option \<Rightarrow> bool" where
  "agrees now entry decision \<longleftrightarrow>
     entry = decision \<or> entry = None \<and> (case decision of Some d \<Rightarrow> d \<le> now | None \<Rightarrow> True)"

lemma agrees_mono: "agrees now e d \<Longrightarrow> now \<le> now' \<Longrightarrow> agrees now' e d"
  by (auto simp: agrees_def split: option.splits)

lemma run_op_agrees:
  assumes "agrees now (bans email) d" and "now \<le> t" and "email \<noteq> ''''"
  shows "agrees t (run_op (t, oper) bans email) (last_decision email [(t, oper)] d)"
  using agrees_mono [OF assms(1,2)] assms(3)
  by (cases oper)
    (auto simp: run_op_def PushBanUpdate_def PushUnban_def IsBanned_evict_def Let_def agrees_def
      split: option.splits if_splits)

lemma last_decision_Cons:
  "last_decision email (op # ops) d = last_decision email ops (last_decision email [op] d)"
  by (cases op; cases "snd op") auto

lemma run_agrees:
  assumes "agrees now (bans email) d" and "sorted (map fst ops)" and "\<forall>op \<in> set ops. now \<le> fst op"
    and "\<forall>op \<in> set ops. fst op \<le> final" and "now \<le> final" and "email \<noteq> ''''"
  shows "agrees final (fold run_op ops bans email) (last_decision email ops d)"
  using assms
proof (induction ops arbitrary: now bans d)
  case Nil
  then show ?case using agrees_mono by auto
next
  case (Cons op ops)
  obtain t oper where op: "op = (t, oper)" by (cases op)
  have "agrees t (run_op op bans email) (last_decision email [op] d)"
    using run_op_agrees [of now bans email d t oper] Cons.prems op by simp
  then show ?case
    using Cons.IH [of t "run_op op bans" "last_decision email [op] d"] Cons.prems op
    by (subst last_decision_Cons) simp
qed

text \<open>
  C20: Lazy eviction is invisible: after any interleaving of bans, unbans and second halves of
  \<open>IsBanned\<close> calls along a clock that does not go back, \<open>IsBanned\<close> answers yes exactly when the last
  decision pushed for the address is a ban that has not expired.
\<close>

theorem ban_cache_refines_decisions:
  assumes "sorted (map fst ops)" and "\<forall>op \<in> set ops. fst op \<le> now"
  shows "fst (IsBanned_read now email (fold run_op ops NewLocalBanCache)) \<longleftrightarrow>
    trim_space email \<noteq> '''' \<and>
    (case last_decision (trim_space email) ops None of Some until \<Rightarrow> now < until | None \<Rightarrow> False)"
proof (cases "trim_space email = ''''")
  case False
  let ?start = "if ops = [] then now else fst (hd ops)"
  have "agrees now (fold run_op ops NewLocalBanCache (trim_space email))
      (last_decision (trim_space email) ops None)"
  proof (rule run_agrees [of ?start])
    show "agrees ?start (NewLocalBanCache (trim_space email)) None"
      by (simp add: agrees_def NewLocalBanCache_def)
    show "\<forall>op \<in> set ops. ?start \<le> fst op" using assms(1) by (cases ops) auto
    show "?start \<le> now" using assms(2) by (cases ops) auto
  qed (use assms False in auto)
  then show ?thesis
    using False by (auto simp: IsBanned_read_def Let_def agrees_def split: option.splits)
qed (simp add: IsBanned_read_def)

theorem ban_cache_refines_decisions_witness:
  "fst (IsBanned_read 7 ''a@b'' (fold run_op [(1, Ban ''a@b'' 3), (4, Ban '' a@b'' 9), (5, Evict ''a@b'' 3)]
     NewLocalBanCache))"
proof -
  have "sorted (map fst [(1 :: int, Ban ''a@b'' 3), (4, Ban '' a@b'' 9), (5, Evict ''a@b'' 3)])" by simp
  moreover have "\<forall>op \<in> set [(1 :: int, Ban ''a@b'' 3), (4, Ban '' a@b'' 9), (5, Evict ''a@b'' 3)]. fst op \<le> 7"
    by simp
  moreover have "trim_space ''a@b'' = ''a@b''" "trim_space '' a@b'' = ''a@b''" by code_simp+
  ultimately show ?thesis using ban_cache_refines_decisions
      [of "[(1, Ban ''a@b'' 3), (4, Ban '' a@b'' 9), (5, Evict ''a@b'' 3)]" 7 "''a@b''"]
    by simp
qed

end
