(* ===== verification/Go_Float.thy ===== *)
theory Go_Float
  imports Prelude
begin

text \<open>
  Go's \<open>float64\<close> where the program uses it (remaining days of a subscription, fractions of a
  duration): a value is the rational number it stands for, and every operation rounds its exact
  result to 53 significant bits, ties to even, as IEEE 754 prescribes. The numbers at hand are far
  from the overflow and the subnormal range, which are left out.
\<close>

section \<open>Powers of two\<close>

definition pow2 :: "int \<Rightarrow> rat" where
  "pow2 e = (if 0 \<le> e then 2 ^ nat e else 1 / 2 ^ nat (- e))"

lemma pow2_pos [simp]: "0 < pow2 e"
  by (simp add: pow2_def)

lemma pow2_neq_0 [simp]: "pow2 e \<noteq> 0"
  using pow2_pos [of e] by linarith

lemma pow2_Suc: "pow2 (e + 1) = 2 * pow2 e"
proof -
  consider "0 \<le> e" | "e = - 1" | "e < - 1" by linarith
  then show ?thesis
  proof cases
    case 1
    then show ?thesis by (simp add: pow2_def nat_add_distrib)
  next
    case 3
    then have "nat (- e) = Suc (nat (- (e + 1)))" by simp
    then show ?thesis using 3 by (simp add: pow2_def)
  qed (simp add: pow2_def)
qed

lemma pow2_add_nat: "pow2 (e + int n) = pow2 e * 2 ^ n"
proof (induction n)
  case (Suc n)
  have "pow2 (e + int (Suc n)) = pow2 (e + int n + 1)" by (simp add: algebra_simps)
  then show ?case using Suc pow2_Suc by simp
qed simp

lemma pow2_mono: "e \<le> f \<Longrightarrow> pow2 e \<le> pow2 f"
proof -
  assume "e \<le> f"
  then obtain n where f: "f = e + int n" by (metis zle_iff_zadd)
  have "1 \<le> (2 :: rat) ^ n" by simp
  then have "pow2 e * 1 \<le> pow2 e * 2 ^ n" by (intro mult_left_mono) (simp_all add: less_imp_le)
  then show "pow2 e \<le> pow2 f" unfolding f pow2_add_nat by simp
qed

lemma pow2_nat: "pow2 (int n) = 2 ^ n"
  by (simp add: pow2_def)

section \<open>Rounding\<close>

text \<open>The exponent of a positive number: \<open>pow2 e \<le> x < pow2 (e + 1)\<close>.\<close>

definition exponent :: "rat \<Rightarrow> int" where
  "exponent x = (let (p, q) = quotient_of x; n = bitlen p - bitlen q
     in if pow2 n \<le> x then n else n - 1)"

definition round_even :: "rat \<Rightarrow> int" where
  "round_even y = (let f = \<lfloor>y\<rfloor>; d = y - of_int f
     in if d < 1 / 2 then f else if d > 1 / 2 then f + 1 else if even f then f else f + 1)"

definition f64_pos :: "rat \<Rightarrow> rat" where
  "f64_pos x = (let u = pow2 (exponent x - 52) in of_int (round_even (x / u)) * u)"

definition f64_round :: "rat \<Rightarrow> rat" where
  "f64_round x = (if x = 0 then 0 else if x < 0 then - f64_pos (- x) else f64_pos x)"

lemma exponent:
  assumes "0 < x"
  shows "pow2 (exponent x) \<le> x \<and> x < pow2 (exponent x + 1)"
proof -
  obtain p q where pq: "quotient_of x = (p, q)" by (cases "quotient_of x")
  have x: "x = of_int p / of_int q" using quotient_of_div [OF pq] .
  have q: "0 < q" using quotient_of_denom_pos [OF pq] .
  then have p: "0 < p" using x assms by (simp add: zero_less_divide_iff)
  have bl: "\<exists>k. bitlen n = int k + 1 \<and> (2 :: rat) ^ k \<le> of_int n \<and> of_int n < (2 :: rat) ^ (k + 1)"
    if "0 < n" for n
  proof -
    let ?k = "nat (bitlen n - 1)"
    have b: "1 \<le> bitlen n" using that by (simp add: bitlen_def floorlog_def)
    have "2 ^ ?k \<le> n" "n < 2 ^ nat (bitlen n)"
      using bitlen_bounds [OF that] by auto
    moreover have "nat (bitlen n) = ?k + 1" using b by simp
    ultimately have "(2 :: int) ^ ?k \<le> n \<and> n < 2 ^ (?k + 1)" by simp
    then have "(of_int (2 ^ ?k) :: rat) \<le> of_int n \<and> (of_int n :: rat) < of_int (2 ^ (?k + 1))"
      by (simp only: of_int_le_iff of_int_less_iff)
    then show ?thesis using b by (intro exI [of _ ?k]) simp
  qed
  obtain k where k: "bitlen p = int k + 1" "(2 :: rat) ^ k \<le> of_int p" "of_int p < (2 :: rat) ^ (k + 1)"
    using bl [OF p] by blast
  obtain l where l: "bitlen q = int l + 1" "(2 :: rat) ^ l \<le> of_int q" "of_int q < (2 :: rat) ^ (l + 1)"
    using bl [OF q] by blast
  let ?n = "int k - int l"
  have kn: "(2 :: rat) ^ k = pow2 ?n * 2 ^ l" using pow2_add_nat [of ?n l] pow2_nat [of k] by simp
  have "x < pow2 (?n + 1)"
  proof -
    have "of_int p < 2 * (pow2 ?n * 2 ^ l)" using k(3) kn by simp
    also have "\<dots> \<le> 2 * (pow2 ?n * of_int q)" using l(2) by simp
    finally show ?thesis unfolding x pow2_Suc using q by (simp add: pos_divide_less_eq mult.assoc)
  qed
  moreover have "pow2 (?n - 1) \<le> x"
  proof -
    have "pow2 (?n - 1) * of_int q \<le> pow2 (?n - 1) * 2 ^ (l + 1)" using l(3) by simp
    also have "\<dots> = 2 ^ k" using kn pow2_Suc [of "?n - 1"] by simp
    also have "\<dots> \<le> of_int p" by (rule k(2))
    finally show ?thesis unfolding x using q by (simp add: pos_le_divide_eq)
  qed
  ultimately show ?thesis using k(1) l(1) pq by (auto simp: exponent_def Let_def)
qed

lemma exponent_mono:
  assumes "0 < x" and "x \<le> y"
  shows "exponent x \<le> exponent y"
proof (rule ccontr)
  assume "\<not> exponent x \<le> exponent y"
  then have "pow2 (exponent y + 1) \<le> pow2 (exponent x)" by (intro pow2_mono) simp
  then show False using exponent [OF assms(1)] exponent [of y] assms by linarith
qed

lemma round_even_bounds: "\<lfloor>y\<rfloor> \<le> round_even y" "round_even y \<le> \<lfloor>y\<rfloor> + 1" "round_even y \<le> \<lceil>y\<rceil>"
proof -
  show "\<lfloor>y\<rfloor> \<le> round_even y" "round_even y \<le> \<lfloor>y\<rfloor> + 1" by (auto simp: round_even_def Let_def)
  show "round_even y \<le> \<lceil>y\<rceil>"
  proof (cases "y = of_int \<lfloor>y\<rfloor>")
    case True
    then have "round_even y = \<lfloor>y\<rfloor>" by (simp add: round_even_def Let_def)
    then show ?thesis by linarith
  next
    case False
    then have "\<lfloor>y\<rfloor> + 1 \<le> \<lceil>y\<rceil>" by linarith
    then show ?thesis by (auto simp: round_even_def Let_def)
  qed
qed

lemma round_even_int [simp]: "round_even (of_int n) = n"
  by (simp add: round_even_def)

lemma round_even_mono: "x \<le> y \<Longrightarrow> round_even x \<le> round_even y"
proof -
  assume xy: "x \<le> y"
  show ?thesis
  proof (cases "\<lfloor>x\<rfloor> = \<lfloor>y\<rfloor>")
    case True
    then show ?thesis using xy by (auto simp: round_even_def Let_def)
  next
    case False
    then have "\<lfloor>x\<rfloor> + 1 \<le> \<lfloor>y\<rfloor>" using floor_mono [OF xy] by linarith
    then show ?thesis using round_even_bounds(2) [of x] round_even_bounds(1) [of y] by linarith
  qed
qed

lemma f64_pos_bounds:
  assumes "0 < x"
  shows "pow2 (exponent x) \<le> f64_pos x \<and> f64_pos x \<le> pow2 (exponent x + 1)"
proof -
  let ?u = "pow2 (exponent x - 52)"
  have e: "pow2 (exponent x) = 2 ^ 52 * ?u" using pow2_add_nat [of "exponent x - 52" 52] by simp
  then have e1: "pow2 (exponent x + 1) = 2 ^ 53 * ?u" unfolding pow2_Suc by simp
  have "2 ^ 52 \<le> x / ?u" "x / ?u \<le> 2 ^ 53"
    using exponent [OF assms] unfolding e e1 by (simp_all add: pos_le_divide_eq pos_divide_le_eq)
  then have "round_even (of_int (2 ^ 52)) \<le> round_even (x / ?u)"
    "round_even (x / ?u) \<le> round_even (of_int (2 ^ 53))"
    by (auto intro!: round_even_mono)
  then have "2 ^ 52 \<le> round_even (x / ?u)" "round_even (x / ?u) \<le> 2 ^ 53"
    unfolding round_even_int .
  then have "of_int (2 ^ 52) \<le> (of_int (round_even (x / ?u)) :: rat)"
    "(of_int (round_even (x / ?u)) :: rat) \<le> of_int (2 ^ 53)"
    by (simp_all only: of_int_le_iff)
  then show ?thesis unfolding e e1 f64_pos_def Let_def
    by (auto intro!: mult_right_mono simp: less_imp_le)
qed

lemma f64_pos_mono:
  assumes "0 < x" and "x \<le> y"
  shows "f64_pos x \<le> f64_pos y"
proof (cases "exponent x = exponent y")
  case True
  have "x / pow2 (exponent y - 52) \<le> y / pow2 (exponent y - 52)"
    using assms(2) by (simp add: divide_right_mono less_imp_le)
  then have "round_even (x / pow2 (exponent y - 52)) \<le> round_even (y / pow2 (exponent y - 52))"
    by (rule round_even_mono)
  then show ?thesis
    using True unfolding f64_pos_def Let_def by (simp add: mult_right_mono less_imp_le)
next
  case False
  then have "exponent x + 1 \<le> exponent y" using exponent_mono [OF assms] by simp
  then have "pow2 (exponent x + 1) \<le> pow2 (exponent y)" by (rule pow2_mono)
  then show ?thesis using f64_pos_bounds [OF assms(1)] f64_pos_bounds [of y] assms by linarith
qed

lemma f64_round_mono: "x \<le> y \<Longrightarrow> f64_round x \<le> f64_round y"
proof -
  assume xy: "x \<le> y"
  have pos: "0 < f64_pos z" if "0 < z" for z
    using f64_pos_bounds [OF that] pow2_pos [of "exponent z"] by linarith
  consider "0 < x" | "x \<le> 0" "0 \<le> y" | "y < 0" by linarith
  then show ?thesis
  proof cases
    case 1
    then show ?thesis using f64_pos_mono [OF 1 xy] xy by (simp add: f64_round_def)
  next
    case 2
    then have "f64_round x \<le> 0" "0 \<le> f64_round y"
      using pos [of "- x"] pos [of y] by (auto simp: f64_round_def)
    then show ?thesis by linarith
  next
    case 3
    then show ?thesis using f64_pos_mono [of "- y" "- x"] xy by (auto simp: f64_round_def)
  qed
qed

lemma f64_round_int:
  assumes "\<bar>n\<bar> \<le> 2 ^ 53"
  shows "f64_round (of_int n) = of_int n"
proof -
  have pos: "f64_pos (of_int m) = of_int m" if m: "0 < m" "m \<le> 2 ^ 53" for m
  proof -
    let ?x = "of_int m :: rat" and ?e = "exponent (of_int m)"
    have "pow2 ?e \<le> ?x" using exponent [of ?x] m by simp
    moreover have "?x \<le> pow2 53" using m by (simp add: pow2_def)
    ultimately have "pow2 ?e \<le> pow2 53" by linarith
    then have e53: "?e \<le> 53"
      using pow2_Suc [of 53] pow2_mono [of 54 ?e] pow2_pos [of 53] by force
    have "?x < pow2 (?e + 1)" "1 \<le> ?x" using exponent [of ?x] m by simp_all
    then have e0: "0 \<le> ?e"
      using pow2_mono [of "?e + 1" 0] by (fastforce simp: pow2_def)
    show ?thesis
    proof (cases "?e \<le> 52")
      case True
      then have u: "pow2 (?e - 52) = 1 / 2 ^ nat (52 - ?e)" by (auto simp: pow2_def)
      have "?x / pow2 (?e - 52) = of_int (m * 2 ^ nat (52 - ?e))" unfolding u by simp
      then show ?thesis unfolding f64_pos_def Let_def u by (simp only: round_even_int) simp
    next
      case False
      then have "?e = 53" using e53 by simp
      then have "2 ^ 53 \<le> ?x" using \<open>pow2 ?e \<le> ?x\<close> by (simp add: pow2_def)
      then have "m = 2 ^ 53" using m by (metis antisym of_int_le_iff of_int_numeral of_int_power)
      then have "?x / pow2 (?e - 52) = of_int (2 ^ 52)" unfolding \<open>?e = 53\<close> by (simp add: pow2_def)
      then show ?thesis unfolding f64_pos_def Let_def \<open>?e = 53\<close>
        using \<open>m = 2 ^ 53\<close> by (simp only: round_even_int) (simp add: pow2_def)
    qed
  qed
  show ?thesis using pos [of n] pos [of "- n"] assms by (auto simp: f64_round_def)
qed

text \<open>The operations the program uses; \<open>math.Ceil\<close> and the conversion to \<open>int\<close> do not round.\<close>

definition f64_add :: "rat \<Rightarrow> rat \<Rightarrow> rat" where
  "f64_add x y = f64_round (x + y)"

definition f64_mul :: "rat \<Rightarrow> rat \<Rightarrow> rat" where
  "f64_mul x y = f64_round (x * y)"

definition f64_div :: "rat \<Rightarrow> rat \<Rightarrow> rat" where
  "f64_div x y = f64_round (x / y)"

definition f64_of_int :: "int \<Rightarrow> rat" where
  "f64_of_int n = f64_round (of_int n)"

definition f64_to_int :: "rat \<Rightarrow> int" where
  "f64_to_int x = (if 0 \<le> x then \<lfloor>x\<rfloor> else \<lceil>x\<rceil>)"

end
