(* ===== verification/Go_Time.thy ===== *)
theory Go_Time
  imports Go_Float
begin

text \<open>
  Go's \<open>time\<close> package where the program uses it. A \<open>time.Time\<close> is the number of nanoseconds from
  the Unix epoch, read in UTC; a \<open>time.Duration\<close> is a number of nanoseconds. Holds \<open>Sub\<close>, \<open>Hours\<close>,
  \<open>AddDate\<close> by months over the Gregorian calendar, and \<open>ParseDuration\<close>.
\<close>

type_synonym time = int
type_synonym duration = int

abbreviation Second :: duration where "Second \<equiv> 1000000000"
abbreviation Minute :: duration where "Minute \<equiv> 60000000000"
abbreviation Hour :: duration where "Hour \<equiv> 3600000000000"
abbreviation Day :: duration where "Day \<equiv> 86400000000000"

text \<open>The zero \<open>time.Time\<close>, the first of January of the year 1.\<close>

definition zero_time :: time where
  "zero_time = - 62135596800 * Second"

definition time_sub :: "time \<Rightarrow> time \<Rightarrow> duration" where
  "time_sub t u = max (- (2 ^ 63)) (min (2 ^ 63 - 1) (t - u))"

definition Hours :: "duration \<Rightarrow> rat" where
  "Hours d = f64_add (f64_of_int (go_div d Hour))
     (f64_div (f64_of_int (d - Hour * go_div d Hour)) (60 * 60 * 1000000000))"

lemma Hours_mono:
  assumes "0 \<le> d" and "d \<le> d'" and "d' < 2 ^ 63"
  shows "Hours d \<le> Hours d'"
proof -
  define q r where "q = d div Hour" and "r = d mod Hour"
  define q' r' where "q' = d' div Hour" and "r' = d' mod Hour"
  have split: "go_div d Hour = q" "d - Hour * q = r" "go_div d' Hour = q'" "d' - Hour * q' = r'"
    using assms by (auto simp: go_div_nonneg q_def r_def q'_def r'_def minus_mult_div_eq_mod)
  have r: "0 \<le> r" "r < Hour" "0 \<le> r'" "r' < Hour" "0 \<le> q" "0 \<le> q'"
    using assms by (auto simp: r_def r'_def q_def q'_def pos_imp_zdiv_nonneg_iff)
  have small: "f64_of_int n = of_int n" if "0 \<le> n" "n \<le> 2 ^ 53" for n
    using that unfolding f64_of_int_def by (intro f64_round_int) simp
  have qs: "q \<le> 2 ^ 53" "q' \<le> 2 ^ 53"
    using assms zdiv_mono1 [of d "2 ^ 63" Hour] zdiv_mono1 [of d' "2 ^ 63" Hour]
    by (simp_all add: q_def q'_def)
  have frac_le: "f64_div (f64_of_int r) (60 * 60 * 1000000000) \<le> 1"
  proof -
    have "f64_round (of_int r / (60 * 60 * 1000000000)) \<le> f64_round (of_int 1)"
      using r by (intro f64_round_mono) simp
    then show ?thesis using r f64_round_int [of 1] unfolding f64_div_def by (subst small) auto
  qed
  have frac_ge: "0 \<le> f64_div (f64_of_int r') (60 * 60 * 1000000000)"
  proof -
    have "f64_round (of_int 0) \<le> f64_round (of_int r' / (60 * 60 * 1000000000))"
      using r by (intro f64_round_mono) simp
    then show ?thesis using r f64_round_int [of 0] unfolding f64_div_def by (subst small) auto
  qed
  show ?thesis
  proof (cases "q = q'")
    case True
    then have "r \<le> r'" using assms split by linarith
    then have "f64_div (f64_of_int r) (60 * 60 * 1000000000) \<le> f64_div (f64_of_int r') (60 * 60 * 1000000000)"
      unfolding f64_div_def using r by (intro f64_round_mono divide_right_mono) (simp_all add: small)
    then show ?thesis unfolding Hours_def split unfolding True f64_add_def by (intro f64_round_mono) simp
  next
    case False
    then have "q + 1 \<le> q'" using zdiv_mono1 [OF assms(2), of Hour] unfolding q_def q'_def by simp
    then have "(of_int q :: rat) + 1 \<le> of_int q'" by (metis of_int_1 of_int_add of_int_le_iff)
    then show ?thesis
      unfolding Hours_def split f64_add_def using r qs frac_le frac_ge
      by (intro f64_round_mono) (simp add: small)
  qed
qed

section \<open>The calendar\<close>

text \<open>
  Days are counted from the first of January of the year 0 of the proleptic Gregorian calendar, which
  is day \<open>-719528\<close> from the epoch; a month is its number from January of the year 0.
\<close>

definition leap :: "int \<Rightarrow> bool" where
  "leap y \<longleftrightarrow> y mod 4 = 0 \<and> (y mod 100 \<noteq> 0 \<or> y mod 400 = 0)"

definition year_start :: "int \<Rightarrow> int" where
  "year_start y = 365 * y + (y + 3) div 4 - (y + 99) div 100 + (y + 399) div 400"

definition days_before :: "bool \<Rightarrow> int list" where
  "days_before lp = (if lp then [0, 31, 60, 91, 121, 152, 182, 213, 244, 274, 305, 335]
     else [0, 31, 59, 90, 120, 151, 181, 212, 243, 273, 304, 334])"

definition month_start :: "int \<Rightarrow> int" where
  "month_start k = year_start (k div 12) + days_before (leap (k div 12)) ! nat (k mod 12)"

lemma div_step:
  fixes y :: int
  assumes "0 < n" and m: "m = n - 1"
  shows "(y + n) div n = (y + m) div n + (if y mod n = 0 then 1 else 0)"
proof -
  define q r where "q = y div n" and "r = y mod n"
  have y: "y = r + q * n" and r: "0 \<le> r" "r < n" using assms(1) by (auto simp: q_def r_def)
  have "(y + n) div n = q + (r + n) div n" "(y + m) div n = q + (r + n - 1) div n"
    unfolding y m using assms(1) div_mult_self1 [of n "r + n" q] div_mult_self1 [of n "r + n - 1" q]
    by (simp_all add: algebra_simps)
  moreover have "(r + n) div n = 1"
    using r by (intro int_div_pos_eq [of _ _ _ r]) auto
  moreover have "(r + n - 1) div n = (if r = 0 then 0 else 1)"
  proof (cases "r = 0")
    case False
    then have "(r + n - 1) div n = 1" using r by (intro int_div_pos_eq [of _ _ _ "r - 1"]) auto
    then show ?thesis using False by simp
  qed (use assms(1) in simp)
  ultimately show ?thesis by (simp add: r_def)
qed

lemma year_length: "year_start (y + 1) = year_start y + (if leap y then 366 else 365)"
proof -
  define c where "c n = (if y mod n = 0 then 1 else 0 :: int)" for n
  have step: "(y + 4) div 4 = (y + 3) div 4 + c 4" "(y + 100) div 100 = (y + 99) div 100 + c 100"
    "(y + 400) div 400 = (y + 399) div 400 + c 400"
    unfolding c_def by (rule div_step; simp)+
  have gen: "365 * (y + 1) + (u + p) - (v + q) + (w + r) = 365 * y + u - v + w + 365 + p - q + r"
    for u v w p q r :: int by simp
  have "year_start (y + 1) = 365 * (y + 1) + (y + 4) div 4 - (y + 100) div 100 + (y + 400) div 400"
    unfolding year_start_def by (simp add: add.commute)
  then have len: "year_start (y + 1) = year_start y + 365 + c 4 - c 100 + c 400"
    unfolding step unfolding year_start_def [of y]
    by (rule trans, intro gen)
  have "y mod 100 = 0 \<Longrightarrow> y mod 4 = 0" "y mod 400 = 0 \<Longrightarrow> y mod 100 = 0"
    using dvd_trans [of 4 100 y] dvd_trans [of 100 400 y] by (simp_all add: mod_eq_0_iff_dvd)
  then show ?thesis
    unfolding len leap_def c_def by (cases "y mod 4 = 0"; cases "y mod 100 = 0"; cases "y mod 400 = 0") simp_all
qed

lemma divmod_eqI:
  fixes m n q r :: int
  assumes "n = m * q + r" and "0 \<le> r" and "r < m"
  shows "n div m = q" and "n mod m = r"
  using int_div_pos_eq [of n m q r] int_mod_pos_eq [of n m q r] assms by simp_all

lemma month_length: "28 \<le> month_start (k + 1) - month_start k \<and> month_start (k + 1) - month_start k \<le> 31"
proof -
  have "x \<in> {0, 1, 2, 3, 4, 5, 6, 7, 8, 9, 10, 11}" if "0 \<le> x" "x \<le> 11" for x :: int
    using that by simp presburger
  then have c: "k mod 12 \<in> {0, 1, 2, 3, 4, 5, 6, 7, 8, 9, 10, 11}" by simp
  show ?thesis
  proof (cases "k mod 12 = 11")
    case True
    then have "12 * (k div 12) + 11 = k" using mult_div_mod_eq [of 12 k] by metis
    then have "k + 1 = 12 * (k div 12 + 1) + 0" by (simp add: distrib_left)
    then have "(k + 1) div 12 = k div 12 + 1" "(k + 1) mod 12 = 0" by (rule divmod_eqI; simp)+
    then show ?thesis using True year_length [of "k div 12"]
      by (simp add: month_start_def days_before_def)
  next
    case False
    have "k + 1 = 12 * (k div 12) + (k mod 12 + 1)" using mult_div_mod_eq [of 12 k] by (simp add: add.assoc [symmetric])
    moreover have "0 \<le> k mod 12 + 1" "k mod 12 + 1 < 12" using c False by auto
    ultimately have "(k + 1) div 12 = k div 12" "(k + 1) mod 12 = k mod 12 + 1" by (rule divmod_eqI)+
    then show ?thesis using c False
      by (auto simp: month_start_def days_before_def)
  qed
qed

lemma month_start_add: "28 * int n \<le> month_start (k + int n) - month_start k"
proof (induction n)
  case (Suc n)
  then show ?case using month_length [of "k + int n"] by (simp add: algebra_simps)
qed simp

lemma month_start_mono: "k \<le> l \<Longrightarrow> month_start k \<le> month_start l"
  using month_start_add [of "nat (l - k)" k] by simp

text \<open>The year and the month of a day.\<close>

definition year_of :: "int \<Rightarrow> int" where
  "year_of n = (let y = (400 * n) div 146097
     in if n < year_start y then y - 1 else if year_start (y + 1) \<le> n then y + 1 else y)"

lemma year_of: "year_start (year_of n) \<le> n \<and> n < year_start (year_of n + 1)"
proof -
  define y where "y = (400 * n) div 146097"
  have bd: "n * (w div n) \<le> w \<and> w < n * (w div n) + n" if "0 < n" for w n :: int
    using that pos_mod_bound [of n w] pos_mod_sign [of n w] mult_div_mod_eq [of n w] by linarith
  have y: "146097 * y \<le> 400 * n" "400 * n < 146097 * y + 146097"
    using bd [of 146097 "400 * n"] by (simp_all add: y_def)
  have gen: "146097 * z \<le> 400 * (365 * z + u - v + w) + 396 \<and> 400 * (365 * z + u - v + w) \<le> 146097 * z + 699"
    if "4 * u \<le> z + 3 \<and> z + 3 < 4 * u + 4" "100 * v \<le> z + 99 \<and> z + 99 < 100 * v + 100"
      "400 * w \<le> z + 399 \<and> z + 399 < 400 * w + 400" for z u v w :: int
    using that by auto
  have b: "146097 * z \<le> 400 * year_start z + 396 \<and> 400 * year_start z \<le> 146097 * z + 699" for z
    unfolding year_start_def by (rule gen; rule bd; simp)
  have "year_start (y - 1) \<le> n" "n < year_start (y + 2)"
    using b [of "y - 1"] b [of "y + 2"] y by auto
  then show ?thesis unfolding year_of_def Let_def y_def [symmetric] by (auto simp: add.assoc)
qed

definition month_of :: "int \<Rightarrow> int" where
  "month_of n = (let y = year_of n; d = n - year_start y
     in 12 * y + int (length (takeWhile (\<lambda>c. c \<le> d) (tl (days_before (leap y))))))"

lemma month_of: "month_start (month_of n) \<le> n \<and> n < month_start (month_of n + 1)"
proof -
  define y d where "y = year_of n" and "d = n - year_start (year_of n)"
  have d: "0 \<le> d" "d < (if leap y then 366 else 365)"
    using year_of [of n] year_length [of y] by (auto simp: y_def d_def)
  define k where "k = length (takeWhile (\<lambda>c. c \<le> d) (tl (days_before (leap y))))"
  have m: "month_of n = 12 * y + int k" by (simp add: month_of_def Let_def y_def d_def k_def)
  have k: "k \<le> 11" unfolding k_def
    by (rule order_trans [OF length_takeWhile_le]) (simp add: days_before_def)
  have db: "days_before (leap y) ! k \<le> d" "k < 11 \<Longrightarrow> d < days_before (leap y) ! (k + 1)"
    using d(1) unfolding k_def
    by (cases "leap y"; auto simp: days_before_def split: if_splits)+
  have "(12 * y + int k) div 12 = y" "(12 * y + int k) mod 12 = int k"
    by (rule divmod_eqI [of _ 12 y "int k"]; use k in simp)+
  then have start: "month_start (month_of n) = year_start y + days_before (leap y) ! k"
    unfolding m month_start_def by simp
  have "n < month_start (month_of n + 1)"
  proof (cases "k = 11")
    case True
    have "(12 * y + int k + 1) div 12 = y + 1" "(12 * y + int k + 1) mod 12 = 0"
      by (rule divmod_eqI [of _ 12 "y + 1" 0]; use True in simp)+
    then have "month_start (month_of n + 1) = year_start (y + 1)"
      unfolding m month_start_def by (simp add: days_before_def)
    then show ?thesis using year_of [of n] by (simp add: y_def)
  next
    case False
    have "(12 * y + int k + 1) div 12 = y" "(12 * y + int k + 1) mod 12 = int (k + 1)"
      by (rule divmod_eqI [of _ 12 y "int (k + 1)"]; use k False in simp)+
    then have "month_start (month_of n + 1) = year_start y + days_before (leap y) ! (k + 1)"
      unfolding m month_start_def by (simp only: nat_int)
    then show ?thesis using db(2) False k by (simp add: d_def y_def)
  qed
  then show ?thesis using start db(1) by (simp add: d_def y_def)
qed

lemma month_of_unique: "month_start k \<le> n \<Longrightarrow> n < month_start (k + 1) \<Longrightarrow> month_of n = k"
  using month_of [of n] month_start_mono [of "k + 1" "month_of n"] month_start_mono [of "month_of n + 1" k]
  by linarith

definition epoch_day :: int where
  "epoch_day = 719528"

text \<open>\<open>t.AddDate(0, months, 0)\<close>: the same day number and clock in the later month, days beyond its end spilling over.\<close>

definition add_months :: "time \<Rightarrow> int \<Rightarrow> time" where
  "add_months t months =
     (let n = t div Day + epoch_day; k = month_of n
      in (month_start (k + months) + (n - month_start k) - epoch_day) * Day + t mod Day)"

lemma add_months_increases:
  assumes "0 \<le> months"
  shows "28 * months * Day \<le> add_months t months - t"
proof -
  define n where "n = t div Day + epoch_day"
  have "28 * months \<le> month_start (month_of n + months) - month_start (month_of n)"
    using month_start_add [of "nat months" "month_of n"] assms by simp
  then have "28 * months * Day \<le> (month_start (month_of n + months) - month_start (month_of n)) * Day" by simp
  also have "\<dots> = add_months t months - t"
    unfolding add_months_def Let_def n_def [symmetric]
    using div_mult_mod_eq [of t Day] by (simp add: n_def algebra_simps)
  finally show ?thesis .
qed

section \<open>Durations as text\<close>

text \<open>
  \<open>time.ParseDuration\<close>, with \<open>None\<close> for an error. \<open>leadingInt\<close> fails on a number above
  \<open>2 ^ 63\<close>; \<open>leadingFraction\<close> ignores the digits that would overflow.
\<close>

fun leadingInt :: "int \<Rightarrow> string \<Rightarrow> (int \<times> string) option" where
  "leadingInt x [] = Some (x, [])"
| "leadingInt x (c # cs) =
     (if \<not> is_digit c then Some (x, c # cs)
      else if x > 2 ^ 63 div 10 then None
      else (let y = x * 10 + int (digit_val c)
            in if y > 2 ^ 63 then None else leadingInt y cs))"

fun leadingFraction :: "int \<Rightarrow> rat \<Rightarrow> bool \<Rightarrow> string \<Rightarrow> int \<times> rat \<times> string" where
  "leadingFraction x scale overflow [] = (x, scale, [])"
| "leadingFraction x scale overflow (c # cs) =
     (if \<not> is_digit c then (x, scale, c # cs)
      else if overflow \<or> x > (2 ^ 63 - 1) div 10 then leadingFraction x scale True cs
      else (let y = x * 10 + int (digit_val c)
            in if y > 2 ^ 63 then leadingFraction x scale True cs
               else leadingFraction y (f64_mul scale 10) False cs))"

definition unitMap :: "string \<rightharpoonup> duration" where
  "unitMap = map_of [(''ns'', 1), (''us'', 1000), ([CHR 0xC2, CHR 0xB5] @ ''s'', 1000),
     ([CHR 0xCE, CHR 0xBC] @ ''s'', 1000), (''ms'', 1000000), (''s'', Second), (''m'', Minute), (''h'', Hour)]"

text \<open>One number with its unit, and what is left of the text.\<close>

definition duration_term :: "string \<Rightarrow> (int \<times> string) option" where
  "duration_term s =
     (if s = [] \<or> \<not> (hd s = CHR ''.'' \<or> is_digit (hd s)) then None
      else (case leadingInt 0 s of
        None \<Rightarrow> None
      | Some (v, s1) \<Rightarrow>
          (let pre = length s1 \<noteq> length s;
               (f, scale, s2) = (if s1 \<noteq> [] \<and> hd s1 = CHR ''.'' then leadingFraction 0 1 False (tl s1)
                 else (0, 1, s1));
               post = s1 \<noteq> [] \<and> hd s1 = CHR ''.'' \<and> length s2 \<noteq> length (tl s1);
               u = takeWhile (\<lambda>c. \<not> (c = CHR ''.'' \<or> is_digit c)) s2;
               s3 = drop (length u) s2
           in if \<not> pre \<and> \<not> post \<or> u = [] then None
              else (case unitMap u of
                None \<Rightarrow> None
              | Some unit \<Rightarrow>
                  (if v > 2 ^ 63 div unit then None
                   else (let w = v * unit + (if f > 0
                           then f64_to_int (f64_mul (f64_of_int f) (f64_div (f64_of_int unit) scale)) else 0)
                         in if w > 2 ^ 63 then None else Some (w, s3)))))))"

lemma leadingInt_length: "leadingInt x s = Some (v, s') \<Longrightarrow> length s' \<le> length s"
  by (induction x s rule: leadingInt.induct) (auto simp: Let_def split: if_splits)

lemma leadingFraction_length: "leadingFraction x sc ov s = (f, scale, s') \<Longrightarrow> length s' \<le> length s"
  by (induction x sc ov s rule: leadingFraction.induct) (auto simp: Let_def split: if_splits)

lemma duration_term_length: "duration_term s = Some (w, s') \<Longrightarrow> length s' < length s"
proof -
  assume a: "duration_term s = Some (w, s')"
  then obtain v s1 where i: "leadingInt 0 s = Some (v, s1)"
    by (auto simp: duration_term_def split: if_splits option.splits)
  obtain f scale s2 where f: "(if s1 \<noteq> [] \<and> hd s1 = CHR ''.'' then leadingFraction 0 1 False (tl s1)
      else (0, 1, s1)) = (f, scale, s2)" by (metis prod_cases3)
  let ?u = "takeWhile (\<lambda>c. \<not> (c = CHR ''.'' \<or> is_digit c)) s2"
  have "?u \<noteq> [] \<and> s' = drop (length ?u) s2"
    using a i f by (auto simp: duration_term_def Let_def split: if_splits option.splits)
  moreover have "length s2 \<le> length s1"
    using f leadingFraction_length [of 0 1 False "tl s1" f scale s2] by (auto split: if_splits)
  moreover have "length s1 \<le> length s" using leadingInt_length [OF i] .
  moreover have "length ?u \<le> length s2" by (rule length_takeWhile_le)
  ultimately show ?thesis by (cases ?u) auto
qed

function duration_terms :: "int \<Rightarrow> string \<Rightarrow> int option" where
  "duration_terms d s =
     (if s = [] then Some d
      else (case duration_term s of
        None \<Rightarrow> None
      | Some (w, s') \<Rightarrow>
          (let d' = (d + w) mod 2 ^ 64 in if d' > 2 ^ 63 then None else duration_terms d' s')))"
  by pat_completeness auto
termination
  by (relation "measure (\<lambda>(d, s). length s)") (auto dest: duration_term_length)

definition ParseDuration :: "string \<Rightarrow> duration option" where
  "ParseDuration s =
     (let signed = s \<noteq> [] \<and> (hd s = CHR ''-'' \<or> hd s = CHR ''+'');
          neg = (s \<noteq> [] \<and> hd s = CHR ''-'');
          rest = (if signed then tl s else s)
      in if rest = ''0'' then Some 0
         else if rest = [] then None
         else (case duration_terms 0 rest of
           None \<Rightarrow> None
         | Some d \<Rightarrow> if neg then Some (- d) else if d > 2 ^ 63 - 1 then None else Some d))"

lemma ParseDuration_levels:
  "ParseDuration ''72h'' = Some (72 * Hour)" "ParseDuration ''24h'' = Some (24 * Hour)"
  "ParseDuration ''3h'' = Some (3 * Hour)" "ParseDuration ''1h'' = Some Hour"
  by code_simp+

lemma ParseDuration_examples:
  "ParseDuration ''1h30m'' = Some (90 * Minute)" "ParseDuration ''1.5h'' = Some (90 * Minute)"
  "ParseDuration ''-2s'' = Some (- 2 * Second)" "ParseDuration ''5'' = None" "ParseDuration '''' = None"
  by code_simp+

section \<open>Formatting\<close>

text \<open>\<open>Duration.Seconds\<close>, and \<open>Time.Format(time.RFC3339)\<close> of a time in UTC.\<close>

definition Seconds :: "duration \<Rightarrow> rat" where
  "Seconds d = f64_add (f64_of_int (go_div d Second)) (f64_div (f64_of_int (d - Second * go_div d Second)) (of_int Second))"

definition pad :: "nat \<Rightarrow> int \<Rightarrow> string" where
  "pad n x = (let s = fmt_int x in replicate (n - length s) (CHR ''0'') @ s)"

definition fmt_rfc3339 :: "time \<Rightarrow> string" where
  "fmt_rfc3339 t =
     (let n = t div Day + epoch_day; k = month_of n; secs = (t mod Day) div Second
      in pad 4 (k div 12) @ ''-'' @ pad 2 (k mod 12 + 1) @ ''-'' @ pad 2 (n - month_start k + 1) @ ''T''
         @ pad 2 (secs div 3600) @ '':'' @ pad 2 (secs div 60 mod 60) @ '':'' @ pad 2 (secs mod 60) @ ''Z'')"

lemma fmt_rfc3339_examples:
  "fmt_rfc3339 0 = ''1970-01-01T00:00:00Z''"
  "fmt_rfc3339 (1709251199 * Second + 999) = ''2024-02-29T23:59:59Z''"
  by code_simp+

end
