(* ===== verification/Effects.thy ===== *)
theory Effects
  imports Go_Time
begin

text \<open>
  The effects of the service code: a database that every statement may fail on, the clock, and the
  events handed to the dispatcher. A computation takes the world and returns a result and the world;
  \<open>'d\<close> is the content of the database. The fault plan says for every statement, counted from the
  start, whether it fails and with which driver error; the clock gives every call of \<open>time.Now\<close> its
  reading. The theorems hold for every plan and every clock.
\<close>

section \<open>The world\<close>

datatype json =
    JNull
  | JBool bool
  | JNum int
  | JReal rat
  | JStr string
  | JArr "json list"
  | JObj "(string \<times> json) list"

text \<open>A \<open>map[string]any\<close> is the list of its entries, at most one per key.\<close>

type_synonym json_map = "(string \<times> json) list"

record event =
  ev_Type :: string
  ev_Data :: json_map
  ev_User :: json_map

record 'd world =
  w_db :: 'd
  w_stmt :: nat
  w_fault :: "nat \<Rightarrow> error option"
  w_tick :: nat
  w_clock :: "nat \<Rightarrow> time"
  w_intx :: bool
  w_events :: "event list"

type_synonym ('d, 'a) prog = "'d world \<Rightarrow> 'a result \<times> 'd world"

section \<open>Sequencing\<close>

definition ret :: "'a \<Rightarrow> ('d, 'a) prog" where
  "ret x w = (Inr x, w)"

definition fail :: "error \<Rightarrow> ('d, 'a) prog" where
  "fail e w = (Inl e, w)"

definition bind :: "('d, 'a) prog \<Rightarrow> ('a \<Rightarrow> ('d, 'b) prog) \<Rightarrow> ('d, 'b) prog" where
  "bind m f w = (case m w of (Inl e, w') \<Rightarrow> (Inl e, w') | (Inr x, w') \<Rightarrow> f x w')"

text \<open>A call whose error the caller looks at or drops.\<close>

definition attempt :: "('d, 'a) prog \<Rightarrow> ('d, 'a result) prog" where
  "attempt m w = (case m w of (r, w') \<Rightarrow> (Inr r, w'))"

definition map_error :: "(error \<Rightarrow> error) \<Rightarrow> ('d, 'a) prog \<Rightarrow> ('d, 'a) prog" where
  "map_error f m w = (case m w of (Inl e, w') \<Rightarrow> (Inl (f e), w') | (Inr x, w') \<Rightarrow> (Inr x, w'))"

fun for_each :: "('b \<Rightarrow> ('d, unit) prog) \<Rightarrow> 'b list \<Rightarrow> ('d, unit) prog" where
  "for_each f [] = ret ()"
| "for_each f (x # xs) = bind (f x) (\<lambda>_. for_each f xs)"

section \<open>Statements, transactions, time, events\<close>

text \<open>
  A statement computes its result and the new content of the database, or fails with the driver's
  error and changes nothing.
\<close>

definition stmt :: "('d \<Rightarrow> 'a result \<times> 'd) \<Rightarrow> ('d, 'a) prog" where
  "stmt f w =
     (let w' = w\<lparr>w_stmt := Suc (w_stmt w)\<rparr>
      in case w_fault w (w_stmt w) of
           Some e \<Rightarrow> (Inl e, w')
         | None \<Rightarrow> (case f (w_db w) of (r, d) \<Rightarrow> (r, w'\<lparr>w_db := (case r of Inl _ \<Rightarrow> w_db w | Inr _ \<Rightarrow> d)\<rparr>)))"

definition query :: "('d \<Rightarrow> 'a) \<Rightarrow> ('d, 'a) prog" where
  "query f = stmt (\<lambda>d. (Inr (f d), d))"

text \<open>gorm's own error for a \<open>First\<close> that finds no row, and the driver's for a broken unique index.\<close>

definition gorm_not_found :: error where
  "gorm_not_found = ErrDriver ''record not found''"

definition unique_violation :: error where
  "unique_violation = ErrDriver ''UNIQUE constraint failed''"

definition query_first :: "('d \<Rightarrow> 'a option) \<Rightarrow> ('d, 'a) prog" where
  "query_first f = stmt (\<lambda>d. case f d of None \<Rightarrow> (Inl gorm_not_found, d) | Some x \<Rightarrow> (Inr x, d))"

definition exec :: "('d \<Rightarrow> 'a \<times> 'd) \<Rightarrow> ('d, 'a) prog" where
  "exec f = stmt (\<lambda>d. case f d of (x, d') \<Rightarrow> (Inr x, d'))"

text \<open>
  \<open>gorm.DB.Transaction\<close>. Outside a transaction it begins one, runs the body and commits; inside one
  it sets a save point and runs the body. A body that fails, and a commit that fails, leave the
  database as it was at the start; begin, save point and commit are statements that can fail.
\<close>

definition transaction :: "('d, 'a) prog \<Rightarrow> ('d, 'a) prog" where
  "transaction body w =
     (let before = w_db w; nested = w_intx w
      in case stmt (\<lambda>d. (Inr (), d)) w of
           (Inl e, w1) \<Rightarrow> (Inl e, w1)
         | (Inr _, w1) \<Rightarrow>
             (case body (w1\<lparr>w_intx := True\<rparr>) of
                (Inl e, w2) \<Rightarrow> (Inl e, w2\<lparr>w_db := before, w_intx := nested\<rparr>)
              | (Inr x, w2) \<Rightarrow>
                  (if nested then (Inr x, w2\<lparr>w_intx := nested\<rparr>)
                   else (case stmt (\<lambda>d. (Inr (), d)) w2 of
                           (Inl e, w3) \<Rightarrow> (Inl e, w3\<lparr>w_db := before, w_intx := nested\<rparr>)
                         | (Inr _, w3) \<Rightarrow> (Inr x, w3\<lparr>w_intx := nested\<rparr>)))))"

definition now :: "('d, time) prog" where
  "now w = (Inr (w_clock w (w_tick w)), w\<lparr>w_tick := Suc (w_tick w)\<rparr>)"

definition dispatch :: "string \<Rightarrow> json_map \<Rightarrow> json_map \<Rightarrow> ('d, unit) prog" where
  "dispatch evType data userMeta w =
     (Inr (), w\<lparr>w_events := w_events w @ [\<lparr>ev_Type = evType, ev_Data = data, ev_User = userMeta\<rparr>]\<rparr>)"

lemmas prog_defs = ret_def fail_def bind_def attempt_def map_error_def

end
