(* ===== verification/Domain_Model.thy ===== *)
theory Domain_Model
  imports Effects "HOL-Library.Product_Lexorder" "HOL-Library.AList"
begin

text \<open>
  The records of \<^verbatim>\<open>internal/domain/models.go\<close>, which are also the rows of the tables
  (\<^verbatim>\<open>internal/database/models.go\<close> has the same fields, and \<^verbatim>\<open>mappers.go\<close> copies them one by
  one), the tables, and the statements of the data layer over them. A nullable column is an option. The
  numbers stored inside JSON columns are integers, the only ones the program itself stores there.
\<close>

section \<open>Rows\<close>

record User =
  u_ID :: string
  u_Username :: string
  u_Balance :: int
  u_IsAdmin :: bool
  u_RefCode :: string
  u_ReferredBy :: "string option"
  u_Metadata :: json_map
  u_IsBlocked :: bool
  u_CreatedAt :: time

record Subscription =
  s_ID :: string
  s_UserID :: string
  s_Email :: string
  s_UUID :: string
  s_Status :: string
  s_MaxDevices :: int
  s_StartsAt :: "time option"
  s_EndsAt :: "time option"
  s_AutoRenew :: bool
  s_Metadata :: json_map
  s_CreatedAt :: time
  s_UpdatedAt :: time

record Device =
  d_ID :: int
  d_SubscriptionID :: string
  d_HWID :: string
  d_DeviceModel :: string
  d_DeviceOS :: string
  d_UserAgent :: string

record Payment =
  p_ID :: int
  p_UserID :: string
  p_Amount :: int
  p_Status :: string
  p_PaymentType :: string
  p_Method :: string
  p_ExternalID :: "string option"
  p_CustomData :: json_map
  p_PlanID :: "int option"
  p_PromoCodeID :: "int option"
  p_CreatedAt :: time

record Plan =
  pn_ID :: int
  pn_Months :: int
  pn_BasePrice :: int
  pn_GlobalDiscountPercent :: int
  pn_EngineIDs :: "string list"
  pn_IsActive :: bool
  pn_CreatedAt :: time
  pn_UpdatedAt :: time

record PromoCode =
  pc_ID :: int
  pc_Code :: string
  pc_DiscountPercent :: int
  pc_MaxUses :: int
  pc_UsesCount :: int
  pc_TargetPlatform :: string
  pc_ExpiresAt :: "time option"
  pc_IsActive :: bool
  pc_CreatedAt :: time
  pc_UpdatedAt :: time

record ReferralReward =
  rw_ID :: int
  rw_ReferrerID :: string
  rw_ReferredID :: string
  rw_PaymentID :: int
  rw_Amount :: int
  rw_CreatedAt :: time

record SubscriptionNotification =
  nt_SubscriptionID :: string
  nt_WarningLevel :: string
  nt_SentAt :: time

record AntifraudBan =
  bn_ID :: int
  bn_Email :: string
  bn_BannedAt :: time
  bn_ExpiresAt :: time
  bn_Reason :: string

text \<open>\<open>ExtractTelegramID\<close>: a number, a text that is a number, or 0.\<close>

definition ExtractTelegramID :: "json_map \<Rightarrow> int" where
  "ExtractTelegramID metadata = (case map_of metadata ''telegram_id'' of
     Some (JNum n) \<Rightarrow> n
   | Some (JStr s) \<Rightarrow> fst (parse_int s)
   | _ \<Rightarrow> 0)"

section \<open>Tables\<close>

text \<open>
  The tables in the order of their row ids, and the last value handed out for each numeric key. The
  dialect is that of the connection.
\<close>

datatype dialect = Sqlite | Postgres

record tables =
  t_dialect :: dialect
  t_users :: "User list"
  t_subs :: "Subscription list"
  t_devices :: "Device list"
  t_payments :: "Payment list"
  t_plans :: "Plan list"
  t_promos :: "PromoCode list"
  t_rewards :: "ReferralReward list"
  t_notifs :: "SubscriptionNotification list"
  t_bans :: "AntifraudBan list"
  t_seq_devices :: int
  t_seq_payments :: int
  t_seq_plans :: int
  t_seq_promos :: int
  t_seq_rewards :: int
  t_seq_bans :: int

text \<open>The first row in the order of a key, as \<open>ORDER BY ... LIMIT 1\<close> gives it.\<close>

definition first_by :: "('a \<Rightarrow> 'k :: linorder) \<Rightarrow> ('a \<Rightarrow> bool) \<Rightarrow> 'a list \<Rightarrow> 'a option" where
  "first_by key p rows = (case sort_key key (filter p rows) of [] \<Rightarrow> None | x # _ \<Rightarrow> Some x)"

lemma first_by_Some: "first_by key p rows = Some x \<Longrightarrow> x \<in> set rows \<and> p x \<and> (\<forall>y \<in> set rows. p y \<longrightarrow> key x \<le> key y)"
proof -
  assume "first_by key p rows = Some x"
  then obtain xs where s: "sort_key key (filter p rows) = x # xs"
    by (auto simp: first_by_def split: list.splits)
  then have set: "set (x # xs) = set (filter p rows)" by (metis set_sort)
  have "sorted (map key (x # xs))" using sorted_sort_key [of key "filter p rows"] s by simp
  then have "\<forall>y \<in> set (x # xs). key x \<le> key y" by auto
  then show ?thesis using set by auto
qed

lemma first_by_None: "first_by key p rows = None \<longleftrightarrow> (\<forall>x \<in> set rows. \<not> p x)"
proof -
  have "first_by key p rows = None \<longleftrightarrow> sort_key key (filter p rows) = []"
    by (auto simp: first_by_def split: list.splits)
  also have "\<dots> \<longleftrightarrow> filter p rows = []" by (metis length_0_conv length_sort)
  finally show ?thesis by (auto simp: filter_empty_conv)
qed

text \<open>An update touches the rows that satisfy the condition and reports their number.\<close>

definition count_rows :: "('a \<Rightarrow> bool) \<Rightarrow> 'a list \<Rightarrow> int" where
  "count_rows p rows = int (length (filter p rows))"

lemma count_rows_pos: "0 < count_rows p rows \<longleftrightarrow> (\<exists>x \<in> set rows. p x)"
  unfolding count_rows_def by (induction rows) auto

text \<open>A new numeric key: the given one, or the next of the sequence when it is 0.\<close>

definition next_id :: "int \<Rightarrow> int \<Rightarrow> int" where
  "next_id seq given = (if given = 0 then seq + 1 else given)"

text \<open>What gorm stores in a creation time that is zero.\<close>

definition default_time :: "time \<Rightarrow> time \<Rightarrow> time" where
  "default_time given t = (if given = zero_time then t else given)"

end
