(* ===== verification/Database.thy ===== *)
theory Database
  imports Domain_Model
begin

text \<open>
  The repositories of \<^verbatim>\<open>internal/database/repo_gorm.go\<close> over the tables. Every call that reaches the
  database is one statement; what gorm adds to a statement is written out: the primary key as the last
  sort key of \<open>First\<close>, the default of a column for a zero field on \<open>Create\<close>, the time stamps. SQL is
  read with its standard meaning.
\<close>

section \<open>Errors and generic statements\<close>

definition wrapError :: "error \<Rightarrow> error" where
  "wrapError e = (if e = gorm_not_found then ErrNotFound else if e = unique_violation then ErrDuplicate else e)"

abbreviation wrapped :: "('d, 'a) prog \<Rightarrow> ('d, 'a) prog" where
  "wrapped \<equiv> map_error wrapError"

text \<open>\<open>INSERT\<close> under unique indices: \<open>clash\<close> tells two rows that may not stand together.\<close>

definition insert_row ::
  "('t \<Rightarrow> 'a list) \<Rightarrow> (('a list \<Rightarrow> 'a list) \<Rightarrow> 't \<Rightarrow> 't) \<Rightarrow> ('a \<Rightarrow> 'a \<Rightarrow> bool) \<Rightarrow> 'a \<Rightarrow> 't \<Rightarrow> unit result \<times> 't"
where
  "insert_row get upd clash x t =
     (if list_ex (clash x) (get t) then (Inl unique_violation, t)
      else (Inr (), upd (\<lambda>rows. rows @ [x]) t))"

text \<open>\<open>Save\<close>: the row with the same key is replaced, or the row is inserted when there is none.\<close>

definition save_row ::
  "('t \<Rightarrow> 'a list) \<Rightarrow> (('a list \<Rightarrow> 'a list) \<Rightarrow> 't \<Rightarrow> 't) \<Rightarrow> ('a \<Rightarrow> 'a \<Rightarrow> bool) \<Rightarrow> ('a \<Rightarrow> 'a \<Rightarrow> bool) \<Rightarrow> 'a \<Rightarrow> 't
    \<Rightarrow> unit result \<times> 't"
where
  "save_row get upd same clash x t =
     (if list_ex (\<lambda>y. \<not> same x y \<and> clash x y) (get t) then (Inl unique_violation, t)
      else if list_ex (same x) (get t) then (Inr (), upd (update_where (same x) (\<lambda>_. x)) t)
      else (Inr (), upd (\<lambda>rows. rows @ [x]) t))"

text \<open>\<open>WHERE id = ?\<close> with a text for a numeric column.\<close>

definition id_matches :: "string \<Rightarrow> int \<Rightarrow> bool" where
  "id_matches s n \<longleftrightarrow> parse_int s = (n, True)"

lemma id_matches_fmt [simp]: "in_int64 n \<Longrightarrow> id_matches (fmt_int n) m \<longleftrightarrow> m = n"
  by (auto simp: id_matches_def parse_fmt_int)

definition WithTx :: "('d, 'a) prog \<Rightarrow> ('d, 'a) prog" where
  "WithTx fn = transaction fn"

section \<open>Users\<close>

definition user_clash :: "User \<Rightarrow> User \<Rightarrow> bool" where
  "user_clash x y \<longleftrightarrow> u_ID x = u_ID y \<or> u_RefCode x = u_RefCode y"

definition Users_FindByID :: "string \<Rightarrow> ('m tables_scheme, User) prog" where
  "Users_FindByID ident = wrapped (query_first (\<lambda>t. first_by u_ID (\<lambda>u. u_ID u = ident) (t_users t)))"

definition Users_FindByEmailOrUsername :: "string \<Rightarrow> ('m tables_scheme, User) prog" where
  "Users_FindByEmailOrUsername email =
     wrapped (query_first (\<lambda>t. first_by u_ID (\<lambda>u. u_Username u = email) (t_users t)))"

definition Users_FindByRefCode :: "string \<Rightarrow> ('m tables_scheme, User) prog" where
  "Users_FindByRefCode code =
     wrapped (query_first (\<lambda>t. first_by u_ID (\<lambda>u. u_RefCode u = code) (t_users t)))"

text \<open>
  \<open>FindUserByPlatformID\<close>. \<open>json_extract\<close> gives the value at a path, which equals a number or a text;
  \<open>->>\<close> gives it as text.
\<close>

fun json_text :: "json \<Rightarrow> string option" where
  "json_text (JStr s) = Some s"
| "json_text (JNum n) = Some (fmt_int n)"
| "json_text (JBool b) = Some (if b then ''true'' else ''false'')"
| "json_text _ = None"

definition platform_matches :: "dialect \<Rightarrow> string \<Rightarrow> string \<Rightarrow> User \<Rightarrow> bool" where
  "platform_matches dl platform ident u =
     (if platform = ''telegram'' then
        (case dl of
           Sqlite \<Rightarrow> map_of (u_Metadata u) ''telegram_id'' = Some (JNum (fst (parse_int ident))) \<or>
             map_of (u_Metadata u) ''telegram_id'' = Some (JStr ident)
         | Postgres \<Rightarrow> Option.bind (map_of (u_Metadata u) ''telegram_id'') json_text = Some ident)
      else
        (case dl of
           Sqlite \<Rightarrow> map_of (u_Metadata u) ''email'' = Some (JStr ident) \<or> u_Username u = ident
         | Postgres \<Rightarrow> Option.bind (map_of (u_Metadata u) ''email'') json_text = Some ident \<or> u_Username u = ident))"

definition FindUserByPlatformID :: "string \<Rightarrow> string \<Rightarrow> ('m tables_scheme, User) prog" where
  "FindUserByPlatformID platform ident =
     (if platform = ''uuid'' then Users_FindByID ident
      else if platform \<noteq> ''telegram'' \<and> platform \<noteq> ''web'' then
        fail (Err (''unsupported platform: '' @ platform))
      else bind (wrapped (query (\<lambda>t. find_first (platform_matches (t_dialect t) platform ident) (t_users t))))
        (\<lambda>found. case found of None \<Rightarrow> fail ErrNotFound | Some u \<Rightarrow> ret u))"

definition Users_FindByPlatformID :: "string \<Rightarrow> string \<Rightarrow> ('m tables_scheme, User) prog" where
  "Users_FindByPlatformID platform ident = FindUserByPlatformID platform ident"

definition Users_FindByTelegramID :: "int \<Rightarrow> ('m tables_scheme, User) prog" where
  "Users_FindByTelegramID tgID = FindUserByPlatformID ''telegram'' (fmt_int tgID)"

definition Users_Create :: "User \<Rightarrow> ('m tables_scheme, User) prog" where
  "Users_Create user = wrapped (bind now (\<lambda>t.
     let u = user\<lparr>u_CreatedAt := default_time (u_CreatedAt user) t\<rparr>
     in bind (stmt (insert_row t_users t_users_update user_clash u)) (\<lambda>_. ret u)))"

definition Users_Update :: "User \<Rightarrow> ('m tables_scheme, User) prog" where
  "Users_Update user = wrapped (bind
     (stmt (save_row t_users t_users_update (\<lambda>x y. u_ID x = u_ID y) user_clash user)) (\<lambda>_. ret user))"

definition Users_Delete :: "string \<Rightarrow> ('m tables_scheme, unit) prog" where
  "Users_Delete ident = exec (\<lambda>t. ((), t_users_update (filter (\<lambda>u. u_ID u \<noteq> ident)) t))"

definition Users_FindAll :: "('m tables_scheme, User list) prog" where
  "Users_FindAll = wrapped (query t_users)"

definition Users_FindAdmins :: "('m tables_scheme, User list) prog" where
  "Users_FindAdmins = wrapped (query (\<lambda>t. filter u_IsAdmin (t_users t)))"

text \<open>\<open>AddReferralReward\<close>: at most one reward per payment, the balance and the record together.\<close>

definition AddReferralReward :: "string \<Rightarrow> string \<Rightarrow> int \<Rightarrow> int \<Rightarrow> ('m tables_scheme, unit) prog" where
  "AddReferralReward referrerID referredID paymentID reward = transaction (
     bind (wrapped (query (\<lambda>t. count_rows (\<lambda>r. rw_PaymentID r = paymentID) (t_rewards t)))) (\<lambda>count.
     if count > 0 then ret ()
     else bind (exec (\<lambda>t. ((), t_users_update
            (update_where (\<lambda>u. u_ID u = referrerID) (\<lambda>u. u\<lparr>u_Balance := u_Balance u + reward\<rparr>)) t))) (\<lambda>_.
          bind now (\<lambda>ts.
          stmt (\<lambda>t. let ident = t_seq_rewards t + 1
            in insert_row t_rewards t_rewards_update (\<lambda>x y. rw_ID x = rw_ID y \<or> rw_PaymentID x = rw_PaymentID y)
                 \<lparr>rw_ID = ident, rw_ReferrerID = referrerID, rw_ReferredID = referredID,
                  rw_PaymentID = paymentID, rw_Amount = reward, rw_CreatedAt = ts\<rparr>
                 (t_seq_rewards_update (\<lambda>_. ident) t))))))"

definition CountReferrals :: "string \<Rightarrow> ('m tables_scheme, int) prog" where
  "CountReferrals referrerID =
     wrapped (query (\<lambda>t. count_rows (\<lambda>u. u_ReferredBy u = Some referrerID) (t_users t)))"

definition CountReferralRewards :: "string \<Rightarrow> ('m tables_scheme, int) prog" where
  "CountReferralRewards referrerID =
     wrapped (query (\<lambda>t. count_rows (\<lambda>r. rw_ReferrerID r = referrerID) (t_rewards t)))"

definition SumReferralRewards :: "string \<Rightarrow> ('m tables_scheme, int) prog" where
  "SumReferralRewards referrerID =
     query (\<lambda>t. sum_list (map rw_Amount (filter (\<lambda>r. rw_ReferrerID r = referrerID) (t_rewards t))))"

definition CountByRefCode :: "string \<Rightarrow> ('m tables_scheme, int) prog" where
  "CountByRefCode code = wrapped (query (\<lambda>t. count_rows (\<lambda>u. u_RefCode u = code) (t_users t)))"

text \<open>
  \<open>GetReferralStats\<close>: the rows of the two grouped queries, then one entry per referrer that has users or
  rewards. The result comes out of a Go map; here in the order of first appearance.
\<close>

definition group_by :: "('a \<Rightarrow> string) \<Rightarrow> ('a list \<Rightarrow> int) \<Rightarrow> 'a list \<Rightarrow> (string \<times> int) list" where
  "group_by key agg rows = map (\<lambda>k. (k, agg (filter (\<lambda>r. key r = k) rows))) (remdups (map key rows))"

definition GetReferralStats :: "string list \<Rightarrow> ('m tables_scheme, (string \<times> int \<times> int) list) prog" where
  "GetReferralStats referrerIDs =
     (if referrerIDs = [] then ret []
      else bind (wrapped (query (\<lambda>t. group_by (\<lambda>u. the (u_ReferredBy u)) (\<lambda>rows. int (length rows))
             (filter (\<lambda>u. \<exists>r \<in> set referrerIDs. u_ReferredBy u = Some r) (t_users t))))) (\<lambda>uCounts.
           bind (wrapped (query (\<lambda>t. group_by rw_ReferrerID (\<lambda>rows. sum_list (map rw_Amount rows))
             (filter (\<lambda>r. rw_ReferrerID r \<in> set referrerIDs) (t_rewards t))))) (\<lambda>rSums.
           ret (map (\<lambda>(k, c). (k, c, case map_of rSums k of Some s \<Rightarrow> s | None \<Rightarrow> 0)) uCounts
             @ map (\<lambda>(k, s). (k, 0, s)) (filter (\<lambda>(k, s). map_of uCounts k = None) rSums)))))"

definition AdjustBalance :: "string \<Rightarrow> int \<Rightarrow> ('m tables_scheme, unit) prog" where
  "AdjustBalance userID amount = wrapped (exec (\<lambda>t. ((), t_users_update
     (update_where (\<lambda>u. u_ID u = userID)
        (\<lambda>u. u\<lparr>u_Balance := (if u_Balance u + amount < 0 then 0 else u_Balance u + amount)\<rparr>)) t)))"

definition UpdateIsBlocked :: "string \<Rightarrow> bool \<Rightarrow> ('m tables_scheme, unit) prog" where
  "UpdateIsBlocked userID isBlocked = wrapped (exec (\<lambda>t. ((), t_users_update
     (update_where (\<lambda>u. u_ID u = userID) (\<lambda>u. u\<lparr>u_IsBlocked := isBlocked\<rparr>)) t)))"

definition DeleteUserAndData :: "string \<Rightarrow> ('m tables_scheme, unit) prog" where
  "DeleteUserAndData userID = transaction (
     bind (wrapped (query (\<lambda>t. map s_ID (filter (\<lambda>s. s_UserID s = userID) (t_subs t))))) (\<lambda>subIDs.
     bind (if subIDs = [] then ret ()
           else bind (wrapped (exec (\<lambda>t. ((), t_devices_update
                  (filter (\<lambda>d. d_SubscriptionID d \<notin> set subIDs)) t)))) (\<lambda>_.
                wrapped (exec (\<lambda>t. ((), t_notifs_update
                  (filter (\<lambda>n. nt_SubscriptionID n \<notin> set subIDs)) t))))) (\<lambda>_.
     bind (wrapped (exec (\<lambda>t. ((), t_subs_update (filter (\<lambda>s. s_UserID s \<noteq> userID)) t)))) (\<lambda>_.
     bind (wrapped (exec (\<lambda>t. ((), t_payments_update (filter (\<lambda>p. p_UserID p \<noteq> userID)) t)))) (\<lambda>_.
     bind (wrapped (exec (\<lambda>t. ((), t_rewards_update
       (filter (\<lambda>r. \<not> (rw_ReferrerID r = userID \<or> rw_ReferredID r = userID))) t)))) (\<lambda>_.
     wrapped (exec (\<lambda>t. ((), t_users_update (filter (\<lambda>u. u_ID u \<noteq> userID)) t)))))))))"

section \<open>Notifications\<close>

definition notif_clash :: "SubscriptionNotification \<Rightarrow> SubscriptionNotification \<Rightarrow> bool" where
  "notif_clash x y \<longleftrightarrow> nt_SubscriptionID x = nt_SubscriptionID y \<and> nt_WarningLevel x = nt_WarningLevel y"

text \<open>\<open>INSERT ... ON CONFLICT DO NOTHING\<close> reports whether a row was added.\<close>

definition insert_notif :: "SubscriptionNotification \<Rightarrow> ('m tables_scheme, bool) prog" where
  "insert_notif n = exec (\<lambda>t.
     if list_ex (notif_clash n) (t_notifs t) then (False, t)
     else (True, t_notifs_update (\<lambda>rows. rows @ [n]) t))"

definition Notifications_CreateIfNotExists :: "SubscriptionNotification \<Rightarrow> ('m tables_scheme, bool) prog" where
  "Notifications_CreateIfNotExists notif = wrapped (bind now (\<lambda>ts.
     insert_notif (notif\<lparr>nt_SentAt := default_time (nt_SentAt notif) ts\<rparr>)))"

definition Notifications_DeleteBySubscriptionID :: "string \<Rightarrow> ('m tables_scheme, unit) prog" where
  "Notifications_DeleteBySubscriptionID subID =
     exec (\<lambda>t. ((), t_notifs_update (filter (\<lambda>n. nt_SubscriptionID n \<noteq> subID)) t))"

definition default_warning_levels :: "string list" where
  "default_warning_levels = [''72h'', ''24h'', ''3h'', ''1h'']"

text \<open>
  The thresholds in the future, whose record is cleared, and those in the past, which are marked; a
  level that is no duration is left alone.
\<close>

definition levels_to_delete :: "duration \<Rightarrow> string list \<Rightarrow> string list" where
  "levels_to_delete timeLeft levels =
     filter (\<lambda>l. case ParseDuration l of Some d \<Rightarrow> timeLeft > d | None \<Rightarrow> False) levels"

definition levels_to_mark :: "duration \<Rightarrow> string list \<Rightarrow> string list" where
  "levels_to_mark timeLeft levels =
     filter (\<lambda>l. case ParseDuration l of Some d \<Rightarrow> \<not> timeLeft > d | None \<Rightarrow> False) levels"

definition resetNotificationsForEndsAtTx ::
  "string \<Rightarrow> time option \<Rightarrow> string list \<Rightarrow> ('m tables_scheme, unit) prog"
where
  "resetNotificationsForEndsAtTx subID endsAt warningLevels =
     (case endsAt of
        None \<Rightarrow> Notifications_DeleteBySubscriptionID subID
      | Some ends \<Rightarrow>
          (let levels = (if warningLevels = [] then default_warning_levels else warningLevels)
           in bind now (\<lambda>ts.
              let timeLeft = time_sub ends ts
              in if timeLeft \<le> 0 then ret ()
                 else bind (if levels_to_delete timeLeft levels = [] then ret ()
                        else exec (\<lambda>t. ((), t_notifs_update (filter (\<lambda>n. \<not> (nt_SubscriptionID n = subID \<and>
                          nt_WarningLevel n \<in> set (levels_to_delete timeLeft levels)))) t))) (\<lambda>_.
                      for_each (\<lambda>lvl. bind (insert_notif \<lparr>nt_SubscriptionID = subID, nt_WarningLevel = lvl,
                          nt_SentAt = ts\<rparr>) (\<lambda>_. ret ())) (levels_to_mark timeLeft levels)))))"

definition Notifications_ResetForEndsAt ::
  "string \<Rightarrow> time option \<Rightarrow> string list \<Rightarrow> ('m tables_scheme, unit) prog"
where
  "Notifications_ResetForEndsAt subID endsAt warningLevels =
     transaction (resetNotificationsForEndsAtTx subID endsAt warningLevels)"

section \<open>Subscriptions\<close>

definition sub_clash :: "Subscription \<Rightarrow> Subscription \<Rightarrow> bool" where
  "sub_clash x y \<longleftrightarrow> s_ID x = s_ID y \<or> s_Email x = s_Email y \<or> s_UUID x = s_UUID y"

text \<open>The order of \<open>Order("created_at desc").First\<close>.\<close>

definition newest_first :: "Subscription \<Rightarrow> int \<times> string" where
  "newest_first s = (- s_CreatedAt s, s_ID s)"

definition Subs_FindByID :: "string \<Rightarrow> ('m tables_scheme, Subscription) prog" where
  "Subs_FindByID ident = wrapped (query_first (\<lambda>t. first_by s_ID (\<lambda>s. s_ID s = ident) (t_subs t)))"

definition Subs_FindByEmail :: "string \<Rightarrow> ('m tables_scheme, Subscription) prog" where
  "Subs_FindByEmail email =
     wrapped (query_first (\<lambda>t. first_by newest_first (\<lambda>s. s_Email s = email) (t_subs t)))"

definition Subs_FindByUserID :: "string \<Rightarrow> ('m tables_scheme, Subscription list) prog" where
  "Subs_FindByUserID userID = wrapped (query (\<lambda>t. filter (\<lambda>s. s_UserID s = userID) (t_subs t)))"

text \<open>A zero \<open>Status\<close> and a zero \<open>MaxDevices\<close> take the defaults of their columns on \<open>Create\<close>.\<close>

definition Subs_Create :: "Subscription \<Rightarrow> ('m tables_scheme, Subscription) prog" where
  "Subs_Create sub = wrapped (bind now (\<lambda>ts.
     let s = sub\<lparr>s_Status := (if s_Status sub = '''' then ''inactive'' else s_Status sub),
                 s_MaxDevices := (if s_MaxDevices sub = 0 then 3 else s_MaxDevices sub),
                 s_CreatedAt := default_time (s_CreatedAt sub) ts,
                 s_UpdatedAt := default_time (s_UpdatedAt sub) ts\<rparr>
     in bind (stmt (insert_row t_subs t_subs_update sub_clash s)) (\<lambda>_. ret s)))"

definition Subs_Update :: "Subscription \<Rightarrow> ('m tables_scheme, Subscription) prog" where
  "Subs_Update sub = wrapped (bind now (\<lambda>ts.
     let s = sub\<lparr>s_UpdatedAt := ts\<rparr>
     in bind (stmt (save_row t_subs t_subs_update (\<lambda>x y. s_ID x = s_ID y) sub_clash s)) (\<lambda>_. ret s)))"

definition Subs_Delete :: "string \<Rightarrow> ('m tables_scheme, unit) prog" where
  "Subs_Delete ident = exec (\<lambda>t. ((), t_subs_update (filter (\<lambda>s. s_ID s \<noteq> ident)) t))"

definition Subs_FindAll :: "('m tables_scheme, Subscription list) prog" where
  "Subs_FindAll = wrapped (query t_subs)"

definition Subs_FindByStatus :: "string \<Rightarrow> ('m tables_scheme, Subscription list) prog" where
  "Subs_FindByStatus status = wrapped (query (\<lambda>t. filter (\<lambda>s. s_Status s = status) (t_subs t)))"

definition Subs_GetMasterSnapshot :: "('m tables_scheme, Subscription list) prog" where
  "Subs_GetMasterSnapshot = wrapped (query (\<lambda>t. filter (\<lambda>s. s_Status s = ''active'') (t_subs t)))"

definition client_matches :: "dialect \<Rightarrow> string \<Rightarrow> Subscription \<Rightarrow> bool" where
  "client_matches dl clientId s \<longleftrightarrow> s_ID s = clientId \<or> s_UUID s = clientId \<or>
     (let subfile = (case dl of
        Sqlite \<Rightarrow> (case map_of (s_Metadata s) ''subfile'' of Some (JStr f) \<Rightarrow> Some f | _ \<Rightarrow> None)
      | Postgres \<Rightarrow> Option.bind (map_of (s_Metadata s) ''subfile'') json_text)
      in subfile = Some clientId \<or> subfile = Some (clientId @ ''.txt''))"

definition Subs_FindByClientIdentifier :: "string \<Rightarrow> ('m tables_scheme, Subscription option) prog" where
  "Subs_FindByClientIdentifier clientId =
     wrapped (query (\<lambda>t. find_first (client_matches (t_dialect t) clientId) (t_subs t)))"

definition Subs_FindLatestByEmail :: "string \<Rightarrow> ('m tables_scheme, Subscription) prog" where
  "Subs_FindLatestByEmail email =
     wrapped (query_first (\<lambda>t. first_by newest_first (\<lambda>s. s_Email s = email) (t_subs t)))"

definition Subs_UpdateStatusIfActive :: "string \<Rightarrow> string \<Rightarrow> ('m tables_scheme, bool) prog" where
  "Subs_UpdateStatusIfActive ident newStatus = wrapped (bind now (\<lambda>ts. exec (\<lambda>t.
     let hit = (\<lambda>s. s_ID s = ident \<and> s_Status s = ''active'')
     in (count_rows hit (t_subs t) > 0,
         t_subs_update (update_where hit (\<lambda>s. s\<lparr>s_Status := newStatus, s_UpdatedAt := ts\<rparr>)) t))))"

definition Subs_FindLatestByUserID :: "string \<Rightarrow> ('m tables_scheme, Subscription) prog" where
  "Subs_FindLatestByUserID userID =
     wrapped (query_first (\<lambda>t. first_by newest_first (\<lambda>s. s_UserID s = userID) (t_subs t)))"

text \<open>
  \<open>FindLatestByUserIDs\<close>: the newest row of each user by a window function, the later id first among
  rows of the same moment, and the result in the same order.
\<close>

definition newer :: "Subscription \<Rightarrow> Subscription \<Rightarrow> bool" where
  "newer x y \<longleftrightarrow> (s_CreatedAt y, s_ID y) < (s_CreatedAt x, s_ID x)"

definition Subs_FindLatestByUserIDs :: "string list \<Rightarrow> ('m tables_scheme, Subscription list) prog" where
  "Subs_FindLatestByUserIDs userIDs =
     (if userIDs = [] then ret []
      else wrapped (query (\<lambda>t.
        let subs = filter (\<lambda>s. s_UserID s \<in> set userIDs) (t_subs t);
            latest = filter (\<lambda>s. \<not> list_ex (\<lambda>y. s_UserID y = s_UserID s \<and> newer y s) subs) subs
        in rev (sort_key (\<lambda>s. (s_CreatedAt s, s_ID s)) latest))))"

definition Subs_UpdateMaxDevicesByUserID :: "string \<Rightarrow> int \<Rightarrow> ('m tables_scheme, unit) prog" where
  "Subs_UpdateMaxDevicesByUserID userID maxDevices = bind now (\<lambda>ts. exec (\<lambda>t. ((), t_subs_update
     (update_where (\<lambda>s. s_UserID s = userID) (\<lambda>s. s\<lparr>s_MaxDevices := maxDevices, s_UpdatedAt := ts\<rparr>)) t)))"

definition Subs_UpdateAutoRenewByUserID :: "string \<Rightarrow> bool \<Rightarrow> ('m tables_scheme, unit) prog" where
  "Subs_UpdateAutoRenewByUserID userID autoRenew = bind now (\<lambda>ts. exec (\<lambda>t. ((), t_subs_update
     (update_where (\<lambda>s. s_UserID s = userID) (\<lambda>s. s\<lparr>s_AutoRenew := autoRenew, s_UpdatedAt := ts\<rparr>)) t)))"

text \<open>The metadata a renewal stores: the engines of the plan, or none.\<close>

definition plan_metadata :: "Plan \<Rightarrow> json_map \<Rightarrow> json_map" where
  "plan_metadata plan metadata =
     (if pn_EngineIDs plan = [] then AList.delete ''plan_engine_ids'' metadata
      else AList.update ''plan_engine_ids'' (JArr (map JStr (pn_EngineIDs plan))) metadata)"

definition renewal_end :: "time \<Rightarrow> Subscription \<Rightarrow> Plan \<Rightarrow> time" where
  "renewal_end ts sub plan =
     add_months (case s_EndsAt sub of Some e \<Rightarrow> if e > ts then e else ts | None \<Rightarrow> ts) (pn_Months plan)"

definition charge_balance :: "string \<Rightarrow> int \<Rightarrow> ('m tables_scheme, unit) prog" where
  "charge_balance userID price =
     bind (exec (\<lambda>t.
       let hit = (\<lambda>u. u_ID u = userID \<and> u_Balance u \<ge> price)
       in (count_rows hit (t_users t),
           t_users_update (update_where hit (\<lambda>u. u\<lparr>u_Balance := u_Balance u - price\<rparr>)) t))) (\<lambda>affected.
     if affected = 0 then fail (Err ''insufficient balance'') else ret ())"

definition AutoRenewSubscription ::
  "string \<Rightarrow> int option \<Rightarrow> int \<Rightarrow> time option \<Rightarrow> int \<Rightarrow> ('m tables_scheme, unit) prog"
where
  "AutoRenewSubscription userID planID planTotalPrice newEndsAtPtr maxDevices = transaction (
     bind (map_error (ErrWrap ''subscription not found: '')
       (query_first (\<lambda>t. first_by newest_first (\<lambda>s. s_UserID s = userID) (t_subs t)))) (\<lambda>sub.
     bind (case planID of
         Some pid \<Rightarrow>
           bind (map_error (ErrWrap ''plan not found: '')
             (query_first (\<lambda>t. first_by pn_ID (\<lambda>p. pn_ID p = pid) (t_plans t)))) (\<lambda>plan.
           bind now (\<lambda>ts. ret (renewal_end ts sub plan, plan_metadata plan (s_Metadata sub))))
       | None \<Rightarrow>
           (case newEndsAtPtr of
              None \<Rightarrow> fail (Err ''newEndsAt is required if planID is nil'')
            | Some e \<Rightarrow> ret (e, s_Metadata sub))) (\<lambda>(newEndsAt, metadata).
     bind (if planTotalPrice > 0 then charge_balance userID planTotalPrice else ret ()) (\<lambda>_.
     bind now (\<lambda>ts.
     bind (exec (\<lambda>t. ((), t_subs_update (update_where (\<lambda>s. s_ID s = s_ID sub)
       (\<lambda>s. s\<lparr>s_Status := ''active'', s_EndsAt := Some newEndsAt, s_MaxDevices := maxDevices,
          s_UpdatedAt := ts\<rparr>)) t))) (\<lambda>_.
     bind (resetNotificationsForEndsAtTx (s_ID sub) (Some newEndsAt) []) (\<lambda>_.
     if planID = None then ret ()
     else bind now (\<lambda>ts'. exec (\<lambda>t. ((), t_subs_update (update_where (\<lambda>s. s_ID s = s_ID sub)
       (\<lambda>s. s\<lparr>s_Metadata := metadata, s_UpdatedAt := ts'\<rparr>)) t))))))))))"

definition Subs_GetAllEmailsAndMaxDevices :: "('m tables_scheme, (string \<times> int) list) prog" where
  "Subs_GetAllEmailsAndMaxDevices = query (\<lambda>t. map (\<lambda>s. (s_Email s, s_MaxDevices s)) (t_subs t))"

section \<open>Payments\<close>

definition payment_clash :: "Payment \<Rightarrow> Payment \<Rightarrow> bool" where
  "payment_clash x y \<longleftrightarrow> p_ID x = p_ID y \<or> (p_ExternalID x \<noteq> None \<and> p_ExternalID x = p_ExternalID y)"

definition Payments_FindByID :: "string \<Rightarrow> ('m tables_scheme, Payment) prog" where
  "Payments_FindByID ident =
     wrapped (query_first (\<lambda>t. first_by p_ID (\<lambda>p. id_matches ident (p_ID p)) (t_payments t)))"

definition Payments_FindByUserID :: "string \<Rightarrow> ('m tables_scheme, Payment list) prog" where
  "Payments_FindByUserID userID = wrapped (query (\<lambda>t. filter (\<lambda>p. p_UserID p = userID) (t_payments t)))"

definition Payments_Create :: "Payment \<Rightarrow> ('m tables_scheme, Payment) prog" where
  "Payments_Create payment = wrapped (bind now (\<lambda>ts. stmt (\<lambda>t.
     let p = payment\<lparr>p_ID := next_id (t_seq_payments t) (p_ID payment),
                     p_CreatedAt := default_time (p_CreatedAt payment) ts\<rparr>
     in case insert_row t_payments t_payments_update payment_clash p
               (t_seq_payments_update (\<lambda>n. max n (p_ID p)) t) of
          (Inl e, _) \<Rightarrow> (Inl e, t)
        | (Inr _, t') \<Rightarrow> (Inr p, t'))))"

definition Payments_Update :: "Payment \<Rightarrow> ('m tables_scheme, Payment) prog" where
  "Payments_Update p = wrapped (bind
     (stmt (save_row t_payments t_payments_update (\<lambda>x y. p_ID x = p_ID y) payment_clash p)) (\<lambda>_. ret p))"

definition Payments_FindAll :: "('m tables_scheme, Payment list) prog" where
  "Payments_FindAll = wrapped (query t_payments)"

definition Payments_FindPendingByProvider :: "string \<Rightarrow> ('m tables_scheme, Payment list) prog" where
  "Payments_FindPendingByProvider provider =
     wrapped (query (\<lambda>t. filter (\<lambda>p. p_Status p = ''pending'' \<and> p_Method p = provider) (t_payments t)))"

definition FindPaymentsByFilters ::
  "string \<Rightarrow> string \<Rightarrow> string \<Rightarrow> string \<Rightarrow> ('m tables_scheme, Payment list) prog"
where
  "FindPaymentsByFilters status mthd paymentType telegramIDStr =
     (let run = (\<lambda>user. wrapped (query (\<lambda>t. rev (sort_key p_ID (filter (\<lambda>p.
            (status = '''' \<or> p_Status p = status) \<and> (mthd = '''' \<or> p_Method p = mthd) \<and>
            (paymentType = '''' \<or> p_PaymentType p = paymentType) \<and>
            (case user of None \<Rightarrow> True | Some u \<Rightarrow> p_UserID p = u_ID u)) (t_payments t))))))
      in if telegramIDStr = '''' then run None
         else bind (attempt (FindUserByPlatformID ''telegram'' telegramIDStr)) (\<lambda>found.
           case found of Inl _ \<Rightarrow> ret [] | Inr u \<Rightarrow> run (Some u)))"

definition Payments_UpdateStatus :: "int \<Rightarrow> string \<Rightarrow> string list \<Rightarrow> ('m tables_scheme, bool) prog" where
  "Payments_UpdateStatus paymentID newStatus expectedStatuses = wrapped (exec (\<lambda>t.
     let hit = (\<lambda>p. p_ID p = paymentID \<and>
           (if expectedStatuses \<noteq> [] then p_Status p \<in> set expectedStatuses
            else if newStatus = ''completed'' then p_Status p \<noteq> ''completed'' else True))
     in (count_rows hit (t_payments t) > 0,
         t_payments_update (update_where hit (\<lambda>p. p\<lparr>p_Status := newStatus\<rparr>)) t)))"

definition Payments_UpdateStatusIfNotCompleted :: "int \<Rightarrow> string \<Rightarrow> ('m tables_scheme, bool) prog" where
  "Payments_UpdateStatusIfNotCompleted paymentID newStatus = wrapped (exec (\<lambda>t.
     let hit = (\<lambda>p. p_ID p = paymentID \<and> p_Status p \<noteq> ''completed'')
     in (count_rows hit (t_payments t) > 0,
         t_payments_update (update_where hit (\<lambda>p. p\<lparr>p_Status := newStatus\<rparr>)) t)))"

definition Payments_FindByExternalID :: "string \<Rightarrow> ('m tables_scheme, Payment) prog" where
  "Payments_FindByExternalID extID =
     wrapped (query_first (\<lambda>t. first_by p_ID (\<lambda>p. p_ExternalID p = Some extID) (t_payments t)))"

definition CountByPromoAndUser :: "int \<Rightarrow> string \<Rightarrow> string \<Rightarrow> ('m tables_scheme, int) prog" where
  "CountByPromoAndUser promoID userID status = wrapped (query (\<lambda>t. count_rows
     (\<lambda>p. p_UserID p = userID \<and> p_PromoCodeID p = Some promoID \<and> p_Status p = status) (t_payments t)))"

definition CountByUserAndPromo :: "string \<Rightarrow> int \<Rightarrow> ('m tables_scheme, int) prog" where
  "CountByUserAndPromo userID promoID = wrapped (query (\<lambda>t. count_rows
     (\<lambda>p. p_UserID p = userID \<and> p_PromoCodeID p = Some promoID \<and>
        p_Status p \<in> {''completed'', ''pending_card''}) (t_payments t)))"

definition ScrubOldExternalIDs :: "time \<Rightarrow> ('m tables_scheme, int) prog" where
  "ScrubOldExternalIDs cutoff = wrapped (exec (\<lambda>t.
     let hit = (\<lambda>p. p_Status p \<in> {''completed'', ''failed'', ''canceled''} \<and> p_CreatedAt p < cutoff \<and>
           p_ExternalID p \<noteq> None)
     in (count_rows hit (t_payments t),
         t_payments_update (update_where hit (\<lambda>p. p\<lparr>p_ExternalID := None\<rparr>)) t)))"

section \<open>Plans\<close>

definition plan_clash :: "Plan \<Rightarrow> Plan \<Rightarrow> bool" where
  "plan_clash x y \<longleftrightarrow> pn_ID x = pn_ID y \<or> pn_Months x = pn_Months y"

definition Plans_FindByID :: "string \<Rightarrow> ('m tables_scheme, Plan) prog" where
  "Plans_FindByID ident =
     wrapped (query_first (\<lambda>t. first_by pn_ID (\<lambda>p. id_matches ident (pn_ID p)) (t_plans t)))"

definition Plans_FindAll :: "('m tables_scheme, Plan list) prog" where
  "Plans_FindAll = wrapped (query (\<lambda>t. sort_key pn_BasePrice (t_plans t)))"

definition Plans_FindActive :: "('m tables_scheme, Plan list) prog" where
  "Plans_FindActive = wrapped (query (\<lambda>t. sort_key pn_Months (filter pn_IsActive (t_plans t))))"

text \<open>\<open>IsActive\<close> has the column default true, which gorm takes for a false field on \<open>Create\<close>.\<close>

definition Plans_Create :: "Plan \<Rightarrow> ('m tables_scheme, Plan) prog" where
  "Plans_Create plan = wrapped (bind now (\<lambda>ts. stmt (\<lambda>t.
     let p = plan\<lparr>pn_ID := next_id (t_seq_plans t) (pn_ID plan), pn_IsActive := True,
                  pn_CreatedAt := default_time (pn_CreatedAt plan) ts,
                  pn_UpdatedAt := default_time (pn_UpdatedAt plan) ts\<rparr>
     in case insert_row t_plans t_plans_update plan_clash p
               (t_seq_plans_update (\<lambda>n. max n (pn_ID p)) t) of
          (Inl e, _) \<Rightarrow> (Inl e, t)
        | (Inr _, t') \<Rightarrow> (Inr p, t'))))"

definition Plans_Update :: "Plan \<Rightarrow> ('m tables_scheme, Plan) prog" where
  "Plans_Update plan = wrapped (bind now (\<lambda>ts.
     let p = plan\<lparr>pn_UpdatedAt := ts\<rparr>
     in bind (stmt (save_row t_plans t_plans_update (\<lambda>x y. pn_ID x = pn_ID y) plan_clash p)) (\<lambda>_. ret p)))"

definition Plans_Delete :: "string \<Rightarrow> ('m tables_scheme, unit) prog" where
  "Plans_Delete ident = exec (\<lambda>t. ((), t_plans_update (filter (\<lambda>p. \<not> id_matches ident (pn_ID p))) t))"

section \<open>Promo codes\<close>

definition promo_clash :: "PromoCode \<Rightarrow> PromoCode \<Rightarrow> bool" where
  "promo_clash x y \<longleftrightarrow> pc_ID x = pc_ID y \<or> pc_Code x = pc_Code y"

definition Promos_FindByCode :: "string \<Rightarrow> ('m tables_scheme, PromoCode) prog" where
  "Promos_FindByCode code =
     wrapped (query_first (\<lambda>t. first_by pc_ID (\<lambda>p. pc_Code p = code) (t_promos t)))"

definition Promos_Create :: "PromoCode \<Rightarrow> ('m tables_scheme, PromoCode) prog" where
  "Promos_Create promo = wrapped (bind now (\<lambda>ts. stmt (\<lambda>t.
     let p = promo\<lparr>pc_ID := next_id (t_seq_promos t) (pc_ID promo), pc_IsActive := True,
                   pc_TargetPlatform := (if pc_TargetPlatform promo = '''' then ''all'' else pc_TargetPlatform promo),
                   pc_CreatedAt := default_time (pc_CreatedAt promo) ts,
                   pc_UpdatedAt := default_time (pc_UpdatedAt promo) ts\<rparr>
     in case insert_row t_promos t_promos_update promo_clash p
               (t_seq_promos_update (\<lambda>n. max n (pc_ID p)) t) of
          (Inl e, _) \<Rightarrow> (Inl e, t)
        | (Inr _, t') \<Rightarrow> (Inr p, t'))))"

definition Promos_Update :: "PromoCode \<Rightarrow> ('m tables_scheme, PromoCode) prog" where
  "Promos_Update promo = wrapped (bind now (\<lambda>ts.
     let p = promo\<lparr>pc_UpdatedAt := ts\<rparr>
     in bind (stmt (save_row t_promos t_promos_update (\<lambda>x y. pc_ID x = pc_ID y) promo_clash p)) (\<lambda>_. ret p)))"

definition Promos_FindAll :: "('m tables_scheme, PromoCode list) prog" where
  "Promos_FindAll = wrapped (query (\<lambda>t. sort_key (\<lambda>p. - pc_CreatedAt p) (t_promos t)))"

definition Promos_Delete :: "int \<Rightarrow> ('m tables_scheme, int) prog" where
  "Promos_Delete ident = wrapped (exec (\<lambda>t. (count_rows (\<lambda>p. pc_ID p = ident) (t_promos t),
     t_promos_update (filter (\<lambda>p. pc_ID p \<noteq> ident)) t)))"

definition Promos_FindByID :: "int \<Rightarrow> ('m tables_scheme, PromoCode) prog" where
  "Promos_FindByID ident =
     wrapped (query_first (\<lambda>t. first_by pc_ID (\<lambda>p. pc_ID p = ident) (t_promos t)))"

definition IncrementUses :: "int \<Rightarrow> int \<Rightarrow> ('m tables_scheme, bool) prog" where
  "IncrementUses ident maxUses =
     bind (wrapped (exec (\<lambda>t.
       let hit = (\<lambda>p. pc_ID p = ident \<and> (maxUses > 0 \<longrightarrow> pc_UsesCount p < maxUses))
       in (count_rows hit (t_promos t),
           t_promos_update (update_where hit (\<lambda>p. p\<lparr>pc_UsesCount := pc_UsesCount p + 1\<rparr>)) t)))) (\<lambda>affected.
     ret (\<not> (maxUses > 0 \<and> affected = 0)))"

section \<open>Antifraud bans\<close>

definition Bans_FindByEmail :: "string \<Rightarrow> ('m tables_scheme, AntifraudBan) prog" where
  "Bans_FindByEmail email = wrapped (query_first (\<lambda>t. first_by bn_ID (\<lambda>b. bn_Email b = email) (t_bans t)))"

definition Bans_Create :: "AntifraudBan \<Rightarrow> ('m tables_scheme, AntifraudBan) prog" where
  "Bans_Create ban = wrapped (stmt (\<lambda>t.
     let b = ban\<lparr>bn_ID := next_id (t_seq_bans t) (bn_ID ban)\<rparr>
     in case insert_row t_bans t_bans_update (\<lambda>x y. bn_ID x = bn_ID y \<or> bn_Email x = bn_Email y) b
               (t_seq_bans_update (\<lambda>n. max n (bn_ID b)) t) of
          (Inl e, _) \<Rightarrow> (Inl e, t)
        | (Inr _, t') \<Rightarrow> (Inr b, t')))"

definition Bans_DeleteByEmail :: "string \<Rightarrow> ('m tables_scheme, unit) prog" where
  "Bans_DeleteByEmail email = exec (\<lambda>t. ((), t_bans_update (filter (\<lambda>b. bn_Email b \<noteq> email)) t))"

definition Bans_FindAll :: "('m tables_scheme, AntifraudBan list) prog" where
  "Bans_FindAll = wrapped (query t_bans)"

definition Bans_FindActive :: "('m tables_scheme, AntifraudBan list) prog" where
  "Bans_FindActive = bind now (\<lambda>ts. wrapped (query (\<lambda>t. filter (\<lambda>b. bn_ExpiresAt b > ts) (t_bans t))))"

definition Bans_FindExpired :: "('m tables_scheme, AntifraudBan list) prog" where
  "Bans_FindExpired = bind now (\<lambda>ts. wrapped (query (\<lambda>t. filter (\<lambda>b. bn_ExpiresAt b \<le> ts) (t_bans t))))"

text \<open>\<open>Upsert\<close>: insert, or on a conflict of the email overwrite the three columns; then read the row back.\<close>

definition Bans_Upsert :: "AntifraudBan \<Rightarrow> ('m tables_scheme, AntifraudBan) prog" where
  "Bans_Upsert ban =
     bind (wrapped (exec (\<lambda>t.
       if list_ex (\<lambda>b. bn_Email b = bn_Email ban) (t_bans t) then
         ((), t_bans_update (update_where (\<lambda>b. bn_Email b = bn_Email ban)
            (\<lambda>b. b\<lparr>bn_BannedAt := bn_BannedAt ban, bn_ExpiresAt := bn_ExpiresAt ban, bn_Reason := bn_Reason ban\<rparr>)) t)
       else (let b = ban\<lparr>bn_ID := next_id (t_seq_bans t) (bn_ID ban)\<rparr>
             in ((), t_bans_update (\<lambda>rows. rows @ [b]) (t_seq_bans_update (\<lambda>n. max n (bn_ID b)) t)))))) (\<lambda>_.
     wrapped (query_first (\<lambda>t. first_by bn_ID (\<lambda>b. bn_Email b = bn_Email ban) (t_bans t))))"

section \<open>Devices\<close>

text \<open>
  \<open>TrackDevice\<close>: a known device is refreshed, a new one is added while the subscription has fewer than
  the limit. The locking statement and the count have their errors dropped: a count that fails leaves 0.
\<close>

definition TrackDevice ::
  "string \<Rightarrow> string \<Rightarrow> string \<Rightarrow> string \<Rightarrow> string \<Rightarrow> int \<Rightarrow> ('m tables_scheme, bool) prog"
where
  "TrackDevice subID hwid deviceModel deviceOs userAgent deviceLimit = wrapped (transaction (
     bind (query (\<lambda>t. (t_dialect t, find_first (\<lambda>d. d_SubscriptionID d = subID \<and> d_HWID d = hwid) (t_devices t)))) (\<lambda>(dl, found).
     case found of
       None \<Rightarrow>
         bind (attempt (case dl of
             Postgres \<Rightarrow> query (\<lambda>t. ())
           | Sqlite \<Rightarrow> bind now (\<lambda>ts. exec (\<lambda>t. ((), t_subs_update
               (update_where (\<lambda>s. s_ID s = subID) (\<lambda>s. s\<lparr>s_UpdatedAt := ts\<rparr>)) t))))) (\<lambda>_.
         bind (attempt (query (\<lambda>t. count_rows (\<lambda>d. d_SubscriptionID d = subID) (t_devices t)))) (\<lambda>counted.
         let currentCount = (case counted of Inr n \<Rightarrow> n | Inl _ \<Rightarrow> 0)
         in if currentCount \<ge> deviceLimit then ret True
            else bind (exec (\<lambda>t. let ident = t_seq_devices t + 1
              in ((), t_devices_update (\<lambda>rows. rows @ [\<lparr>d_ID = ident, d_SubscriptionID = subID, d_HWID = hwid,
                   d_DeviceModel = deviceModel, d_DeviceOS = deviceOs, d_UserAgent = userAgent\<rparr>])
                   (t_seq_devices_update (\<lambda>_. ident) t)))) (\<lambda>_. ret False)))
     | Some device \<Rightarrow>
         bind (exec (\<lambda>t. ((), t_devices_update (update_where (\<lambda>d. d_ID d = d_ID device)
           (\<lambda>d. d\<lparr>d_DeviceModel := deviceModel, d_DeviceOS := deviceOs, d_UserAgent := userAgent\<rparr>)) t))) (\<lambda>_.
         ret False))))"

definition Devices_CountBySubscriptions :: "string list \<Rightarrow> ('m tables_scheme, (string \<times> int) list) prog" where
  "Devices_CountBySubscriptions subIDs = wrapped (query (\<lambda>t.
     group_by d_SubscriptionID (\<lambda>rows. int (length rows))
       (filter (\<lambda>d. d_SubscriptionID d \<in> set subIDs) (t_devices t))))"

definition Devices_FindOldestBySubscription :: "string \<Rightarrow> nat \<Rightarrow> ('m tables_scheme, Device list) prog" where
  "Devices_FindOldestBySubscription subID limit = wrapped (query (\<lambda>t.
     take limit (sort_key d_ID (filter (\<lambda>d. d_SubscriptionID d = subID) (t_devices t)))))"

definition Devices_DeleteByIDs :: "int list \<Rightarrow> ('m tables_scheme, unit) prog" where
  "Devices_DeleteByIDs ids =
     (if ids = [] then ret ()
      else exec (\<lambda>t. ((), t_devices_update (filter (\<lambda>d. d_ID d \<notin> set ids)) t)))"

definition Devices_CountBySubscription :: "string \<Rightarrow> ('m tables_scheme, int) prog" where
  "Devices_CountBySubscription subID =
     wrapped (query (\<lambda>t. count_rows (\<lambda>d. d_SubscriptionID d = subID) (t_devices t)))"

definition Devices_FindBySubscriptionID :: "string \<Rightarrow> ('m tables_scheme, Device list) prog" where
  "Devices_FindBySubscriptionID subID =
     wrapped (query (\<lambda>t. filter (\<lambda>d. d_SubscriptionID d = subID) (t_devices t)))"

definition Devices_FindByIDAndSubscription :: "int \<Rightarrow> string \<Rightarrow> ('m tables_scheme, Device) prog" where
  "Devices_FindByIDAndSubscription deviceID subID = wrapped (query_first (\<lambda>t.
     first_by d_ID (\<lambda>d. d_ID d = deviceID \<and> d_SubscriptionID d = subID) (t_devices t)))"

definition Devices_Delete :: "int \<Rightarrow> ('m tables_scheme, unit) prog" where
  "Devices_Delete ident = exec (\<lambda>t. ((), t_devices_update (filter (\<lambda>d. d_ID d \<noteq> ident)) t))"

end
