(* ===== verification/Pricing.thy ===== *)
theory Pricing
  imports Domain_Model
begin

text \<open>
  The default pricing engine (\<^verbatim>\<open>internal/plugins/pricing_default/plugin.go\<close>). The snapshots of a
  request are the domain records. Prices are Go \<open>int\<close>s: every operation wraps at 64 bits.
\<close>

section \<open>The engine\<close>

record PricingRequest =
  pr_UserID :: string
  pr_PlanID :: int
  pr_PromoCode :: string
  pr_ExtraDevices :: int
  pr_IsUpgrade :: bool
  pr_Amount :: int
  pr_Plan :: "Plan option"
  pr_CurrentSubscription :: "Subscription option"
  pr_MaxDevices :: int
  pr_Platform :: string
  pr_Promo :: "PromoCode option"
  pr_Now :: time

record PricingResult =
  FinalPrice :: int
  DiscountPercent :: int
  AppliedPromo :: string
  AppliedPromoID :: "int option"

definition ErrPlanSnapshotRequired :: error where
  "ErrPlanSnapshotRequired = Err ''pricing_default: plan snapshot is required for a plan payment''"

definition eligiblePromo :: "PricingRequest \<Rightarrow> time \<Rightarrow> PromoCode option" where
  "eligiblePromo req t =
     (if pr_PromoCode req = '''' then None
      else (case pr_Promo req of
        None \<Rightarrow> None
      | Some promo \<Rightarrow>
          (if \<not> pc_IsActive promo \<or> (case pc_ExpiresAt promo of Some e \<Rightarrow> \<not> t < e | None \<Rightarrow> False) then None
           else (let platform = to_lower (trim_space (pr_Platform req))
                 in if pc_TargetPlatform promo \<noteq> ''all'' \<and> pc_TargetPlatform promo \<noteq> platform then None
                    else Some promo))))"

text \<open>The remaining days of a subscription and the months they are charged as, in \<open>float64\<close>.\<close>

definition remaining_days :: "duration \<Rightarrow> rat" where
  "remaining_days d = f64_div (Hours d) 24"

definition upgrade_months :: "rat \<Rightarrow> int" where
  "upgrade_months days = f64_to_int (of_int \<lceil>f64_div days 30\<rceil>)"

definition discounted :: "int \<Rightarrow> int \<Rightarrow> int" where
  "discounted amount percent = wrap64 (amount - go_div (wrap64 (amount * percent)) 100)"

text \<open>What raising the device limit of a running subscription costs.\<close>

definition upgrade_cost :: "int \<Rightarrow> Subscription option \<Rightarrow> time \<Rightarrow> int" where
  "upgrade_cost requested current t =
     (case current of
        None \<Rightarrow> 0
      | Some sub \<Rightarrow>
          (case s_EndsAt sub of
             None \<Rightarrow> 0
           | Some ends \<Rightarrow>
               (if ends > t \<and> requested > s_MaxDevices sub then
                  (let days = remaining_days (time_sub ends t)
                   in if days > 7 then
                        (let currentDevices = (if s_MaxDevices sub < 3 then 3 else s_MaxDevices sub);
                             newExtra = wrap64 (requested - currentDevices)
                         in if newExtra > 0 then wrap64 (wrap64 (newExtra * 40) * upgrade_months days) else 0)
                      else 0)
                else 0)))"

definition extra_devices_cost :: "int \<Rightarrow> int \<Rightarrow> int" where
  "extra_devices_cost requested months =
     (if requested > 3 then wrap64 (wrap64 (wrap64 (requested - 3) * 40) * months) else 0)"

definition CalculatePrice :: "PricingRequest \<Rightarrow> time \<Rightarrow> PricingResult result" where
  "CalculatePrice req wall =
     (let t = (if pr_Now req = zero_time then wall else pr_Now req)
      in case pr_Plan req of
        None \<Rightarrow>
          (if pr_PlanID req \<noteq> 0 then Inl ErrPlanSnapshotRequired
           else Inr (case eligiblePromo req t of
             None \<Rightarrow> \<lparr>FinalPrice = pr_Amount req, DiscountPercent = 0, AppliedPromo = '''', AppliedPromoID = None\<rparr>
           | Some promo \<Rightarrow> \<lparr>FinalPrice = pr_Amount req, DiscountPercent = 0,
               AppliedPromo = pc_Code promo, AppliedPromoID = Some (pc_ID promo)\<rparr>))
      | Some plan \<Rightarrow>
          (let requested = (if pr_MaxDevices req = 0 \<and> pr_ExtraDevices req > 0
                 then wrap64 (3 + pr_ExtraDevices req) else pr_MaxDevices req);
               extra = wrap64 (extra_devices_cost requested (pn_Months plan)
                 + upgrade_cost requested (pr_CurrentSubscription req) t);
               baseAmount = wrap64 (pn_BasePrice plan + extra);
               globalPrice = (if pn_GlobalDiscountPercent plan > 0
                 then discounted baseAmount (pn_GlobalDiscountPercent plan) else baseAmount);
               promo = eligiblePromo req t;
               promoPrice = (case promo of Some p \<Rightarrow> discounted baseAmount (pc_DiscountPercent p) | None \<Rightarrow> baseAmount)
           in Inr (if globalPrice < promoPrice
              then \<lparr>FinalPrice = globalPrice, DiscountPercent = pn_GlobalDiscountPercent plan,
                AppliedPromo = '''', AppliedPromoID = None\<rparr>
              else (case promo of
                None \<Rightarrow> \<lparr>FinalPrice = promoPrice, DiscountPercent = 0, AppliedPromo = '''', AppliedPromoID = None\<rparr>
              | Some p \<Rightarrow> \<lparr>FinalPrice = promoPrice, DiscountPercent = pc_DiscountPercent p,
                  AppliedPromo = pc_Code p, AppliedPromoID = Some (pc_ID p)\<rparr>))))"

section \<open>Ranges\<close>

text \<open>
  The sizes in which no intermediate result leaves 64 bits: a price below \<open>10 ^ 12\<close>, at most
  \<open>10 ^ 4\<close> devices, at most \<open>1200\<close> months, percentages from 0 to 100.
\<close>

definition sane_plan :: "Plan \<Rightarrow> bool" where
  "sane_plan plan \<longleftrightarrow> 0 \<le> pn_BasePrice plan \<and> pn_BasePrice plan \<le> 10 ^ 12 \<and>
     0 \<le> pn_Months plan \<and> pn_Months plan \<le> 1200 \<and>
     0 \<le> pn_GlobalDiscountPercent plan \<and> pn_GlobalDiscountPercent plan \<le> 100"

definition sane_promo :: "PromoCode \<Rightarrow> bool" where
  "sane_promo promo \<longleftrightarrow> 0 \<le> pc_DiscountPercent promo \<and> pc_DiscountPercent promo \<le> 100"

definition sane_request :: "PricingRequest \<Rightarrow> bool" where
  "sane_request req \<longleftrightarrow> 0 \<le> pr_MaxDevices req \<and> pr_MaxDevices req \<le> 10 ^ 4 \<and>
     0 \<le> pr_ExtraDevices req \<and> pr_ExtraDevices req \<le> 10 ^ 4 \<and>
     (case pr_Plan req of Some plan \<Rightarrow> sane_plan plan | None \<Rightarrow> True) \<and>
     (case pr_Promo req of Some promo \<Rightarrow> sane_promo promo | None \<Rightarrow> True) \<and>
     (case pr_CurrentSubscription req of Some sub \<Rightarrow> 0 \<le> s_MaxDevices sub | None \<Rightarrow> True)"

lemma upgrade_months_mono: "x \<le> y \<Longrightarrow> upgrade_months x \<le> upgrade_months y"
proof -
  assume "x \<le> y"
  then have "f64_div x 30 \<le> f64_div y 30" unfolding f64_div_def by (intro f64_round_mono) simp
  then have "\<lceil>f64_div x 30\<rceil> \<le> \<lceil>f64_div y 30\<rceil>" by (rule ceiling_mono)
  then show ?thesis by (simp add: upgrade_months_def f64_to_int_def)
qed

lemma remaining_days_mono:
  assumes "0 \<le> d" and "d \<le> d'" and "d' < 2 ^ 63"
  shows "remaining_days d \<le> remaining_days d'"
  unfolding remaining_days_def f64_div_def using Hours_mono [OF assms] by (intro f64_round_mono) simp

text \<open>The longest duration, some 292 years, is charged as 3559 months.\<close>

lemma upgrade_months_bounds:
  assumes "0 \<le> d" and "d < 2 ^ 63"
  shows "0 \<le> upgrade_months (remaining_days d) \<and> upgrade_months (remaining_days d) \<le> 4000"
proof -
  have "upgrade_months (remaining_days 0) \<le> upgrade_months (remaining_days d)"
    using assms by (intro upgrade_months_mono remaining_days_mono) auto
  moreover have "upgrade_months (remaining_days 0) = 0" by code_simp
  moreover have "upgrade_months (remaining_days d) \<le> upgrade_months (remaining_days (2 ^ 63 - 1))"
    using assms by (intro upgrade_months_mono remaining_days_mono) auto
  moreover have "upgrade_months (remaining_days (2 ^ 63 - 1)) \<le> 4000" by code_simp
  ultimately show ?thesis by linarith
qed

section \<open>The price in unbounded arithmetic\<close>

definition reduced :: "int \<Rightarrow> int \<Rightarrow> int" where
  "reduced amount percent = amount - (amount * percent) div 100"

definition requested_devices :: "PricingRequest \<Rightarrow> int" where
  "requested_devices req = (if pr_MaxDevices req = 0 \<and> pr_ExtraDevices req > 0
     then 3 + pr_ExtraDevices req else pr_MaxDevices req)"

definition upgrade_price :: "int \<Rightarrow> Subscription option \<Rightarrow> time \<Rightarrow> int" where
  "upgrade_price requested current t = (case current of
     Some sub \<Rightarrow>
       (case s_EndsAt sub of
          Some ends \<Rightarrow>
            (if ends > t \<and> requested > s_MaxDevices sub \<and> remaining_days (time_sub ends t) > 7
             then max 0 (requested - max 3 (s_MaxDevices sub)) * 40 * upgrade_months (remaining_days (time_sub ends t))
             else 0)
        | None \<Rightarrow> 0)
   | None \<Rightarrow> 0)"

definition base_price :: "PricingRequest \<Rightarrow> Plan \<Rightarrow> time \<Rightarrow> int" where
  "base_price req plan t = pn_BasePrice plan
     + max 0 (requested_devices req - 3) * 40 * pn_Months plan
     + upgrade_price (requested_devices req) (pr_CurrentSubscription req) t"

definition price_at :: "PricingRequest \<Rightarrow> Plan \<Rightarrow> time \<Rightarrow> int" where
  "price_at req plan t = min (reduced (base_price req plan t) (pn_GlobalDiscountPercent plan))
     (case eligiblePromo req t of Some p \<Rightarrow> reduced (base_price req plan t) (pc_DiscountPercent p)
      | None \<Rightarrow> base_price req plan t)"

lemma reduced_bounds:
  assumes "0 \<le> amount" and "0 \<le> percent" and "percent \<le> 100"
  shows "0 \<le> reduced amount percent \<and> reduced amount percent \<le> amount"
proof -
  have le: "amount * percent \<le> amount * 100" "0 \<le> amount * percent"
    using assms by (simp_all add: mult_left_mono)
  then have "(amount * percent) div 100 \<le> (amount * 100) div 100" by (intro zdiv_mono1) auto
  then show ?thesis using le by (simp add: reduced_def pos_imp_zdiv_nonneg_iff)
qed

lemma reduced_mono:
  assumes "a \<le> b" and "0 \<le> percent" and "percent \<le> 100"
  shows "reduced a percent \<le> reduced b percent"
proof -
  have "b * percent \<le> a * percent + (b - a) * 100"
    using assms mult_left_mono [of percent 100 "b - a"] by (simp add: algebra_simps)
  then have "(b * percent) div 100 \<le> (a * percent + (b - a) * 100) div 100" by (intro zdiv_mono1) auto
  then show ?thesis by (simp add: reduced_def)
qed

lemma discounted_eq:
  assumes "0 \<le> amount" and "amount \<le> 10 ^ 15" and "0 \<le> percent" and "percent \<le> 100"
  shows "discounted amount percent = reduced amount percent"
proof -
  have le: "amount * percent \<le> amount * 100" "0 \<le> amount * percent"
    using assms by (simp_all add: mult_left_mono)
  have "amount * percent < 2 ^ 63" using le(1) assms(2) by simp
  then have "wrap64 (amount * percent) = amount * percent" using le(2) by (intro wrap64_id) (simp add: in_int64_def)
  then show ?thesis
    using assms le reduced_bounds [OF assms(1,3,4)]
    unfolding discounted_def by (simp add: go_div_nonneg reduced_def wrap64_id in_int64_def)
qed

lemma time_sub_range: "t < ends \<Longrightarrow> 0 \<le> time_sub ends t \<and> time_sub ends t < 2 ^ 63"
  by (auto simp: time_sub_def)

lemma upgrade_cost_eq:
  assumes "0 \<le> requested" and "requested \<le> 20000"
    and "case current of Some sub \<Rightarrow> 0 \<le> s_MaxDevices sub | None \<Rightarrow> True"
  shows "upgrade_cost requested current t = upgrade_price requested current t \<and>
    0 \<le> upgrade_price requested current t \<and> upgrade_price requested current t \<le> 20000 * 40 * 4000"
proof -
  have range: "0 \<le> max 0 n * 40 * m \<and> max 0 n * 40 * m \<le> 20000 * 40 * 4000"
    if "n \<le> 20000" "0 \<le> m" "m \<le> 4000" for n m :: int
    using that mult_mono [of "max 0 n * 40" "20000 * 40" m 4000] by auto
  show ?thesis
  proof (cases current)
    case (Some sub)
    show ?thesis
    proof (cases "s_EndsAt sub")
      case (Some ends)
      let ?m = "upgrade_months (remaining_days (time_sub ends t))"
      let ?n = "requested - max 3 (s_MaxDevices sub)"
      show ?thesis
      proof (cases "ends > t \<and> requested > s_MaxDevices sub \<and> remaining_days (time_sub ends t) > 7")
        case True
        have m: "0 \<le> ?m \<and> ?m \<le> 4000"
          using True time_sub_range [of t ends] by (intro upgrade_months_bounds) auto
        have n: "?n \<le> 20000" "- 20000 \<le> ?n"
          using assms \<open>current = Some sub\<close> True by auto
        have r: "0 \<le> max 0 ?n * 40 * ?m \<and> max 0 ?n * 40 * ?m \<le> 20000 * 40 * 4000"
          using range [OF n(1)] m by blast
        have mx: "max 3 (s_MaxDevices sub) = (if s_MaxDevices sub < 3 then 3 else s_MaxDevices sub)"
          by (auto simp: max_def)
        have w1: "wrap64 ?n = ?n" using n by (intro wrap64_id) (simp add: in_int64_def)
        have w2: "wrap64 (?n * 40) = ?n * 40" if "0 < ?n"
        proof -
          have "0 \<le> k * 40 \<and> k * 40 \<le> 800000" if "0 < k" "k \<le> 20000" for k :: int using that by auto
          then show ?thesis using n(1) that by (intro wrap64_id in_int64_small) force
        qed
        have w3: "wrap64 (?n * 40 * ?m) = ?n * 40 * ?m" if "0 < ?n"
        proof -
          have "max 0 ?n = ?n" using that by simp
          then have "0 \<le> ?n * 40 * ?m \<and> ?n * 40 * ?m \<le> 20000 * 40 * 4000" using r by (simp only:)
          then show ?thesis by (intro wrap64_id in_int64_small) linarith
        qed
        have "upgrade_cost requested current t
            = (if wrap64 ?n > 0 then wrap64 (wrap64 (wrap64 ?n * 40) * ?m) else 0)"
          using True \<open>current = Some sub\<close> Some unfolding upgrade_cost_def Let_def mx by simp
        also have "\<dots> = max 0 ?n * 40 * ?m"
        proof (cases "0 < ?n")
          case True
          then have "max 0 ?n = ?n" by simp
          then show ?thesis using True by (simp only: w1 w2 w3 if_True)
        next
          case False
          then have "max 0 ?n = 0" by linarith
          then show ?thesis using False by (simp only: w1 if_False)
        qed
        finally have "upgrade_cost requested current t = max 0 ?n * 40 * ?m" .
        then show ?thesis using r True \<open>current = Some sub\<close> Some by (simp add: upgrade_price_def)
      next
        case False
        then show ?thesis using \<open>current = Some sub\<close> Some by (auto simp: upgrade_cost_def upgrade_price_def Let_def)
      qed
    qed (simp add: \<open>current = Some sub\<close> upgrade_cost_def upgrade_price_def)
  qed (simp add: upgrade_cost_def upgrade_price_def)
qed

lemma extra_devices_cost_eq:
  assumes "0 \<le> requested" and "requested \<le> 20000" and "0 \<le> months" and "months \<le> 1200"
  shows "extra_devices_cost requested months = max 0 (requested - 3) * 40 * months \<and>
    0 \<le> max 0 (requested - 3) * 40 * months \<and> max 0 (requested - 3) * 40 * months \<le> 20000 * 40 * 1200"
proof -
  have r: "0 \<le> max 0 (requested - 3) * 40 * months \<and> max 0 (requested - 3) * 40 * months \<le> 20000 * 40 * 1200"
    using assms mult_mono [of "max 0 (requested - 3) * 40" "20000 * 40" months 1200] by auto
  show ?thesis
  proof (cases "requested > 3")
    case True
    have "wrap64 (requested - 3) = requested - 3" "wrap64 ((requested - 3) * 40) = (requested - 3) * 40"
      using assms True by (auto intro!: wrap64_id simp: in_int64_def)
    moreover have "wrap64 ((requested - 3) * 40 * months) = (requested - 3) * 40 * months"
      using r True by (intro wrap64_id) (simp add: in_int64_def)
    ultimately show ?thesis using r True by (simp add: extra_devices_cost_def)
  qed (use r in \<open>simp add: extra_devices_cost_def\<close>)
qed

lemma requested_devices_range:
  "sane_request req \<Longrightarrow> 0 \<le> requested_devices req \<and> requested_devices req \<le> 20000"
  by (auto simp: sane_request_def requested_devices_def)

lemma base_price_range:
  assumes "sane_request req" and "pr_Plan req = Some plan"
  shows "0 \<le> base_price req plan t \<and> base_price req plan t \<le> 10 ^ 13" (is "?range")
    and "wrap64 (pn_BasePrice plan + wrap64 (extra_devices_cost (requested_devices req) (pn_Months plan)
      + upgrade_cost (requested_devices req) (pr_CurrentSubscription req) t)) = base_price req plan t" (is "?eq")
proof -
  have plan: "sane_plan plan" using assms by (simp add: sane_request_def)
  have cur: "case pr_CurrentSubscription req of Some sub \<Rightarrow> 0 \<le> s_MaxDevices sub | None \<Rightarrow> True"
    using assms(1) by (simp add: sane_request_def)
  note rd = requested_devices_range [OF assms(1)]
  let ?u = "upgrade_price (requested_devices req) (pr_CurrentSubscription req) t"
  let ?x = "max 0 (requested_devices req - 3) * 40 * pn_Months plan"
  have u: "upgrade_cost (requested_devices req) (pr_CurrentSubscription req) t = ?u" "0 \<le> ?u" "?u \<le> 3200000000"
    using upgrade_cost_eq [of "requested_devices req" "pr_CurrentSubscription req" t] rd cur by auto
  have x: "extra_devices_cost (requested_devices req) (pn_Months plan) = ?x" "0 \<le> ?x" "?x \<le> 960000000"
    using extra_devices_cost_eq [of "requested_devices req" "pn_Months plan"] rd plan
    by (auto simp: sane_plan_def)
  have b: "0 \<le> pn_BasePrice plan" "pn_BasePrice plan \<le> 1000000000000" using plan by (auto simp: sane_plan_def)
  have "0 \<le> pn_BasePrice plan + ?x + ?u" "pn_BasePrice plan + ?x + ?u \<le> 10000000000000"
    using u(2,3) x(2,3) b by linarith+
  then show ?range unfolding base_price_def by simp
  have "wrap64 (?x + ?u) = ?x + ?u" using u x by (intro wrap64_id in_int64_small) linarith
  moreover have "wrap64 (pn_BasePrice plan + (?x + ?u)) = pn_BasePrice plan + (?x + ?u)"
    using u x b by (intro wrap64_id in_int64_small) linarith
  ultimately show ?eq unfolding u(1) x(1) base_price_def by simp
qed

lemma eligiblePromo_sane: "sane_request req \<Longrightarrow> eligiblePromo req t = Some p \<Longrightarrow> sane_promo p"
  by (auto simp: eligiblePromo_def sane_request_def Let_def split: if_splits option.splits)

lemma CalculatePrice_plan:
  assumes "sane_request req" and "pr_Plan req = Some plan" and "pr_Now req \<noteq> zero_time"
  shows "\<exists>r. CalculatePrice req wall = Inr r \<and> FinalPrice r = price_at req plan (pr_Now req) \<and>
    AppliedPromoID r = (case eligiblePromo req (pr_Now req) of
      Some p \<Rightarrow> if reduced (base_price req plan (pr_Now req)) (pn_GlobalDiscountPercent plan)
          < reduced (base_price req plan (pr_Now req)) (pc_DiscountPercent p) then None else Some (pc_ID p)
    | None \<Rightarrow> None)"
proof -
  let ?t = "pr_Now req"
  let ?b = "base_price req plan ?t"
  have plan: "0 \<le> pn_GlobalDiscountPercent plan" "pn_GlobalDiscountPercent plan \<le> 100"
    using assms by (auto simp: sane_request_def sane_plan_def)
  note b = base_price_range [OF assms(1,2), of ?t]
  have b': "0 \<le> ?b" "?b \<le> 10 ^ 15" using b(1) by auto
  have glob: "discounted ?b (pn_GlobalDiscountPercent plan) = reduced ?b (pn_GlobalDiscountPercent plan)"
    "\<not> pn_GlobalDiscountPercent plan > 0 \<Longrightarrow> reduced ?b (pn_GlobalDiscountPercent plan) = ?b"
    using discounted_eq [OF b' plan] plan by (auto simp: reduced_def)
  have prom: "discounted ?b (pc_DiscountPercent p) = reduced ?b (pc_DiscountPercent p)"
    if "eligiblePromo req ?t = Some p" for p
    using discounted_eq [OF b'] eligiblePromo_sane [OF assms(1) that] by (simp add: sane_promo_def)
  have req: "wrap64 (3 + pr_ExtraDevices req) = 3 + pr_ExtraDevices req"
    using assms(1) by (intro wrap64_id in_int64_small) (simp add: sane_request_def)
  have rq: "(if pr_MaxDevices req = 0 \<and> pr_ExtraDevices req > 0 then wrap64 (3 + pr_ExtraDevices req)
      else pr_MaxDevices req) = requested_devices req"
    by (simp add: requested_devices_def req)
  have le: "reduced ?b (pn_GlobalDiscountPercent plan) \<le> ?b" using reduced_bounds [OF b'(1) plan] by simp
  show ?thesis
  proof (cases "eligiblePromo req ?t")
    case None
    then show ?thesis
      using assms(2,3) le unfolding CalculatePrice_def Let_def price_at_def
      by (simp add: rq b(2) glob)
  next
    case (Some p)
    then show ?thesis
      using assms(2,3) unfolding CalculatePrice_def Let_def price_at_def
      by (simp add: rq b(2) glob prom [OF Some])
  qed
qed

section \<open>Properties\<close>

lemma upgrade_price_mono:
  assumes "n \<le> n'"
  shows "upgrade_price n current t \<le> upgrade_price n' current t"
proof (cases current)
  case (Some sub)
  show ?thesis
  proof (cases "s_EndsAt sub")
    case (Some ends)
    let ?m = "upgrade_months (remaining_days (time_sub ends t))"
    show ?thesis
    proof (cases "ends > t \<and> n' > s_MaxDevices sub \<and> remaining_days (time_sub ends t) > 7")
      case True
      then have m: "0 \<le> ?m" using upgrade_months_bounds time_sub_range by blast
      have "max 0 (n - max 3 (s_MaxDevices sub)) * 40 * ?m \<le> max 0 (n' - max 3 (s_MaxDevices sub)) * 40 * ?m"
        using m assms by (intro mult_right_mono) auto
      moreover have "0 \<le> max 0 (n' - max 3 (s_MaxDevices sub)) * 40 * ?m" using m by simp
      ultimately show ?thesis using True \<open>current = Some sub\<close> Some by (simp add: upgrade_price_def)
    next
      case False
      then show ?thesis using assms \<open>current = Some sub\<close> Some by (auto simp: upgrade_price_def)
    qed
  qed (simp add: \<open>current = Some sub\<close> upgrade_price_def)
qed (simp add: upgrade_price_def)

lemma price_at_mono:
  assumes "base_price req plan t \<le> base_price req' plan t" and "eligiblePromo req t = eligiblePromo req' t"
    and "sane_plan plan" and "\<And>p. eligiblePromo req' t = Some p \<Longrightarrow> sane_promo p"
  shows "price_at req plan t \<le> price_at req' plan t"
  unfolding price_at_def
proof (rule min.mono)
  show "reduced (base_price req plan t) (pn_GlobalDiscountPercent plan)
      \<le> reduced (base_price req' plan t) (pn_GlobalDiscountPercent plan)"
    using reduced_mono [OF assms(1)] assms(3) by (simp add: sane_plan_def)
  show "(case eligiblePromo req t of Some p \<Rightarrow> reduced (base_price req plan t) (pc_DiscountPercent p)
      | None \<Rightarrow> base_price req plan t)
    \<le> (case eligiblePromo req' t of Some p \<Rightarrow> reduced (base_price req' plan t) (pc_DiscountPercent p)
      | None \<Rightarrow> base_price req' plan t)"
    using reduced_mono [OF assms(1)] assms by (auto simp: sane_promo_def split: option.splits)
qed

lemma price_at_bounds:
  assumes "sane_request req" and "pr_Plan req = Some plan"
  shows "0 \<le> price_at req plan t \<and> price_at req plan t \<le> base_price req plan t"
proof -
  have b: "0 \<le> base_price req plan t" using base_price_range(1) [OF assms] by simp
  have "0 \<le> reduced (base_price req plan t) (pn_GlobalDiscountPercent plan)"
    "reduced (base_price req plan t) (pn_GlobalDiscountPercent plan) \<le> base_price req plan t"
    using reduced_bounds [OF b] assms by (auto simp: sane_request_def sane_plan_def)
  moreover have "0 \<le> reduced (base_price req plan t) (pc_DiscountPercent p)"
    if "eligiblePromo req t = Some p" for p
    using reduced_bounds [OF b] eligiblePromo_sane [OF assms(1) that] by (auto simp: sane_promo_def)
  ultimately show ?thesis using b by (auto simp: price_at_def split: option.splits)
qed

text \<open>
  C29: For a plan payment in the stated ranges the engine gives the price of the policy, computed without
  overflow: the plan's price, 40 units per extra device and month, and the upgrade of a running
  subscription, less the better of the global discount and the promo. The price is never negative and
  never above the undiscounted one, and the promo is recorded exactly when it is not the dearer one.
\<close>

theorem pricing_policy:
  assumes "sane_request req" and "pr_Plan req = Some plan" and "pr_Now req \<noteq> zero_time"
  shows "\<exists>r. CalculatePrice req wall = Inr r \<and> FinalPrice r = price_at req plan (pr_Now req) \<and>
    0 \<le> FinalPrice r \<and> FinalPrice r \<le> base_price req plan (pr_Now req) \<and>
    (\<forall>n. AppliedPromoID r = Some n \<longleftrightarrow> (\<exists>p. eligiblePromo req (pr_Now req) = Some p \<and> pc_ID p = n \<and>
       reduced (base_price req plan (pr_Now req)) (pc_DiscountPercent p)
         \<le> reduced (base_price req plan (pr_Now req)) (pn_GlobalDiscountPercent plan)))"
proof -
  obtain r where r: "CalculatePrice req wall = Inr r" "FinalPrice r = price_at req plan (pr_Now req)"
    "AppliedPromoID r = (case eligiblePromo req (pr_Now req) of
      Some p \<Rightarrow> if reduced (base_price req plan (pr_Now req)) (pn_GlobalDiscountPercent plan)
          < reduced (base_price req plan (pr_Now req)) (pc_DiscountPercent p) then None else Some (pc_ID p)
    | None \<Rightarrow> None)"
    using CalculatePrice_plan [OF assms] by blast
  then show ?thesis using price_at_bounds [OF assms(1,2), of "pr_Now req"]
    by (intro exI [of _ r]) (auto split: option.splits if_splits)
qed

text \<open>A plan of one month at 150 units, with five devices asked for and a promo of a tenth.\<close>

definition demo_plan :: Plan where
  "demo_plan = \<lparr>pn_ID = 1, pn_Months = 1, pn_BasePrice = 150, pn_GlobalDiscountPercent = 5,
     pn_EngineIDs = [], pn_IsActive = True, pn_CreatedAt = 0, pn_UpdatedAt = 0\<rparr>"

definition demo_promo :: PromoCode where
  "demo_promo = \<lparr>pc_ID = 7, pc_Code = ''TEN'', pc_DiscountPercent = 10, pc_MaxUses = 2, pc_UsesCount = 0,
     pc_TargetPlatform = ''all'', pc_ExpiresAt = None, pc_IsActive = True, pc_CreatedAt = 0, pc_UpdatedAt = 0\<rparr>"

definition demo_request :: PricingRequest where
  "demo_request = \<lparr>pr_UserID = ''u1'', pr_PlanID = 1, pr_PromoCode = ''ten'', pr_ExtraDevices = 2,
     pr_IsUpgrade = False, pr_Amount = 0, pr_Plan = Some demo_plan, pr_CurrentSubscription = None,
     pr_MaxDevices = 5, pr_Platform = ''bot'', pr_Promo = Some demo_promo, pr_Now = 1000\<rparr>"

theorem pricing_policy_witness:
  "\<exists>r. CalculatePrice demo_request 0 = Inr r \<and> FinalPrice r = 207 \<and> AppliedPromoID r = Some 7"
proof -
  have "sane_request demo_request" "pr_Plan demo_request = Some demo_plan" "pr_Now demo_request \<noteq> zero_time"
    by code_simp+
  from pricing_policy [OF this, of 0] obtain r where r: "CalculatePrice demo_request 0 = Inr r"
    "FinalPrice r = price_at demo_request demo_plan (pr_Now demo_request)"
    "AppliedPromoID r = Some 7 \<longleftrightarrow> (\<exists>p. eligiblePromo demo_request (pr_Now demo_request) = Some p \<and> pc_ID p = 7 \<and>
       reduced (base_price demo_request demo_plan (pr_Now demo_request)) (pc_DiscountPercent p)
         \<le> reduced (base_price demo_request demo_plan (pr_Now demo_request)) (pn_GlobalDiscountPercent demo_plan))"
    by blast
  have "price_at demo_request demo_plan (pr_Now demo_request) = 207" by code_simp
  moreover have "eligiblePromo demo_request (pr_Now demo_request) = Some demo_promo" by code_simp
  moreover have "reduced (base_price demo_request demo_plan (pr_Now demo_request)) (pc_DiscountPercent demo_promo)
      \<le> reduced (base_price demo_request demo_plan (pr_Now demo_request)) (pn_GlobalDiscountPercent demo_plan)"
    "pc_ID demo_promo = 7" by code_simp+
  ultimately show ?thesis using r by auto
qed

text \<open>
  C30: Asking for more devices never lowers the price, all else equal.
\<close>

theorem pricing_monotone_in_devices:
  assumes "sane_request req" and "pr_Plan req = Some plan" and "pr_Now req \<noteq> zero_time"
    and "0 < pr_MaxDevices req" and "pr_MaxDevices req \<le> n" and "n \<le> 10 ^ 4"
  shows "\<exists>r r'. CalculatePrice req wall = Inr r \<and> CalculatePrice (req\<lparr>pr_MaxDevices := n\<rparr>) wall = Inr r' \<and>
    FinalPrice r \<le> FinalPrice r'"
proof -
  let ?req' = "req\<lparr>pr_MaxDevices := n\<rparr>"
  let ?t = "pr_Now req"
  have sane': "sane_request ?req'" using assms by (simp add: sane_request_def)
  have elig: "eligiblePromo ?req' ?t = eligiblePromo req ?t" by (simp add: eligiblePromo_def Let_def split: option.splits)
  have plan: "sane_plan plan" using assms(1,2) by (simp add: sane_request_def)
  have "max 0 (requested_devices req - 3) * 40 * pn_Months plan
      \<le> max 0 (requested_devices ?req' - 3) * 40 * pn_Months plan"
    using assms plan by (intro mult_right_mono) (auto simp: requested_devices_def sane_plan_def)
  moreover have "upgrade_price (requested_devices req) (pr_CurrentSubscription req) ?t
      \<le> upgrade_price (requested_devices ?req') (pr_CurrentSubscription req) ?t"
    using assms by (intro upgrade_price_mono) (simp add: requested_devices_def)
  ultimately have "base_price req plan ?t \<le> base_price ?req' plan ?t" by (simp add: base_price_def)
  then have "price_at req plan ?t \<le> price_at ?req' plan ?t"
    using elig plan eligiblePromo_sane [OF assms(1)] by (intro price_at_mono) auto
  moreover obtain r where "CalculatePrice req wall = Inr r" "FinalPrice r = price_at req plan ?t"
    using CalculatePrice_plan [OF assms(1-3)] by blast
  moreover obtain r' where "CalculatePrice ?req' wall = Inr r'" "FinalPrice r' = price_at ?req' plan ?t"
    using CalculatePrice_plan [OF sane', of plan] assms by auto
  ultimately show ?thesis by auto
qed

theorem pricing_monotone_in_devices_witness:
  "\<exists>r r'. CalculatePrice demo_request 0 = Inr r \<and> CalculatePrice (demo_request\<lparr>pr_MaxDevices := 8\<rparr>) 0 = Inr r' \<and>
     FinalPrice r \<le> FinalPrice r'"
proof -
  have "sane_request demo_request" "pr_Plan demo_request = Some demo_plan" "pr_Now demo_request \<noteq> zero_time"
    "0 < pr_MaxDevices demo_request" "pr_MaxDevices demo_request \<le> 8" "(8 :: int) \<le> 10 ^ 4"
    by code_simp+
  then show ?thesis by (rule pricing_monotone_in_devices)
qed

end
