(* ===== verification/Program_Logic.thy ===== *)
theory Program_Logic
  imports Effects
begin

text \<open>
  A weakest-precondition calculus for the computations of \<^verbatim>\<open>Effects\<close>: \<open>wp m Q E d ev\<close> says that \<open>m\<close>,
  started with database \<open>d\<close> and dispatched events \<open>ev\<close>, ends in \<open>Q\<close> with a result or in \<open>E\<close> with an
  error, whatever the fault plan, the clock and the nesting of transactions. And the locale of the
  preorders on states, for relations that every statement of a computation keeps.
\<close>

section \<open>Weakest preconditions\<close>

definition wp ::
  "('d, 'a) prog \<Rightarrow> ('a \<Rightarrow> 'd \<Rightarrow> event list \<Rightarrow> bool) \<Rightarrow> (error \<Rightarrow> 'd \<Rightarrow> event list \<Rightarrow> bool)
    \<Rightarrow> 'd \<Rightarrow> event list \<Rightarrow> bool"
where
  "wp m Q E d ev \<longleftrightarrow> (\<forall>w. w_db w = d \<and> w_events w = ev \<longrightarrow>
     (case m w of (Inr x, w') \<Rightarrow> Q x (w_db w') (w_events w') | (Inl e, w') \<Rightarrow> E e (w_db w') (w_events w')))"

named_theorems wp_rules

lemma wpD:
  assumes "wp m Q E (w_db w) (w_events w)" and "m w = (r, w')"
  shows "case r of Inr x \<Rightarrow> Q x (w_db w') (w_events w') | Inl e \<Rightarrow> E e (w_db w') (w_events w')"
  using assms unfolding wp_def by (auto split: prod.splits)

lemma wp_mono:
  assumes "wp m Q E d ev" and "\<And>x d ev. Q x d ev \<Longrightarrow> Q' x d ev" and "\<And>e d ev. E e d ev \<Longrightarrow> E' e d ev"
  shows "wp m Q' E' d ev"
  using assms unfolding wp_def by (fastforce split: prod.splits sum.splits)

lemma wp_ret [wp_rules]: "Q x d ev \<Longrightarrow> wp (ret x) Q E d ev"
  by (simp add: wp_def ret_def)

lemma wp_fail [wp_rules]: "E e d ev \<Longrightarrow> wp (fail e) Q E d ev"
  by (simp add: wp_def fail_def)

lemma wp_bind [wp_rules]:
  assumes "wp m (\<lambda>x d ev. wp (f x) Q E d ev) E d ev"
  shows "wp (bind m f) Q E d ev"
  unfolding wp_def
proof (intro allI impI)
  fix w :: "'a world"
  assume w: "w_db w = d \<and> w_events w = ev"
  obtain r w' where m: "m w = (r, w')" by (cases "m w")
  show "case bind m f w of (Inr x, w') \<Rightarrow> Q x (w_db w') (w_events w') | (Inl e, w') \<Rightarrow> E e (w_db w') (w_events w')"
  proof (cases r)
    case (Inl e)
    then show ?thesis using wpD [of m _ E w r w'] assms w m by (simp add: bind_def)
  next
    case (Inr x)
    then have "wp (f x) Q E (w_db w') (w_events w')" using wpD [of m _ E w r w'] assms w m by simp
    then show ?thesis using Inr m by (simp add: bind_def wp_def)
  qed
qed

lemma wp_if: "(b \<Longrightarrow> wp m Q E d ev) \<Longrightarrow> (\<not> b \<Longrightarrow> wp n Q E d ev) \<Longrightarrow> wp (if b then m else n) Q E d ev"
  by simp

lemma wp_attempt [wp_rules]:
  "wp m (\<lambda>x. Q (Inr x)) (\<lambda>e. Q (Inl e)) d ev \<Longrightarrow> wp (attempt m) Q E d ev"
  unfolding wp_def attempt_def by (fastforce split: prod.splits sum.splits)

lemma wp_map_error [wp_rules]: "wp m Q (\<lambda>e. E (f e)) d ev \<Longrightarrow> wp (map_error f m) Q E d ev"
  unfolding wp_def map_error_def by (fastforce split: prod.splits sum.splits)

lemma wp_stmt [wp_rules]:
  assumes "\<And>e. E e d ev" and "\<And>x d'. f d = (Inr x, d') \<Longrightarrow> Q x d' ev"
  shows "wp (stmt f) Q E d ev"
  using assms unfolding wp_def stmt_def by (auto simp: Let_def split: option.splits prod.splits sum.splits)

lemma wp_query [wp_rules]:
  assumes "\<And>e. E e d ev" and "Q (f d) d ev"
  shows "wp (query f) Q E d ev"
  unfolding query_def by (rule wp_stmt) (use assms in auto)

lemma wp_query_first [wp_rules]:
  assumes "\<And>e. E e d ev" and "\<And>x. f d = Some x \<Longrightarrow> Q x d ev"
  shows "wp (query_first f) Q E d ev"
  unfolding query_first_def by (rule wp_stmt) (use assms in \<open>auto split: option.splits\<close>)

lemma wp_exec [wp_rules]:
  assumes "\<And>e. E e d ev" and "Q (fst (f d)) (snd (f d)) ev"
  shows "wp (exec f) Q E d ev"
  unfolding exec_def by (rule wp_stmt) (use assms in \<open>auto split: prod.splits\<close>)

lemma wp_now [wp_rules]: "(\<And>t. Q t d ev) \<Longrightarrow> wp now Q E d ev"
  by (simp add: wp_def now_def)

lemma wp_dispatch [wp_rules]:
  "Q () d (ev @ [\<lparr>ev_Type = ty, ev_Data = data, ev_User = user\<rparr>]) \<Longrightarrow> wp (dispatch ty data user) Q E d ev"
  by (simp add: wp_def dispatch_def)

lemma wp_transaction [wp_rules]:
  assumes "\<And>e. E e d ev"
    and body: "wp body (\<lambda>x d' ev'. Q x d' ev' \<and> (\<forall>e. E e d ev')) (\<lambda>e d' ev'. E e d ev') d ev"
  shows "wp (transaction body) Q E d ev"
  unfolding wp_def
proof (intro allI impI)
  fix w :: "'a world"
  assume w: "w_db w = d \<and> w_events w = ev"
  let ?w1 = "w\<lparr>w_stmt := Suc (w_stmt w), w_intx := True\<rparr>"
  show "case transaction body w of (Inr x, w') \<Rightarrow> Q x (w_db w') (w_events w') | (Inl e, w') \<Rightarrow> E e (w_db w') (w_events w')"
  proof (cases "w_fault w (w_stmt w)")
    case (Some e)
    then show ?thesis using assms(1) w by (simp add: transaction_def stmt_def)
  next
    case None
    obtain r w2 where b: "body ?w1 = (r, w2)" by (cases "body ?w1")
    have "case r of Inr x \<Rightarrow> Q x (w_db w2) (w_events w2) \<and> (\<forall>e. E e d (w_events w2)) | Inl e \<Rightarrow> E e d (w_events w2)"
      using body w b unfolding wp_def by (auto dest!: spec [of _ ?w1])
    then show ?thesis using None b w
      by (cases r; cases "w_intx w"; cases "w_fault w2 (w_stmt w2)")
        (auto simp: transaction_def stmt_def Let_def)
  qed
qed

lemma wp_for_each:
  assumes "P xs d ev" and "\<And>x ys d ev. P (x # ys) d ev \<Longrightarrow> wp (f x) (\<lambda>_. P ys) E d ev"
  shows "wp (for_each f xs) (\<lambda>_. P []) E d ev"
  using assms(1)
proof (induction xs arbitrary: d ev)
  case Nil
  then show ?case by (auto intro: wp_ret)
next
  case (Cons x xs)
  have "wp (f x) (\<lambda>_. P xs) E d ev" using assms(2) Cons.prems by blast
  then have "wp (f x) (\<lambda>_ d ev. wp (for_each f xs) (\<lambda>_. P []) E d ev) E d ev"
    by (rule wp_mono) (use Cons.IH in auto)
  then show ?case by (simp add: wp_bind)
qed

lemma wp_conj:
  assumes "wp m Q E d ev" and "wp m Q' E' d ev"
  shows "wp m (\<lambda>x d ev. Q x d ev \<and> Q' x d ev) (\<lambda>e d ev. E e d ev \<and> E' e d ev) d ev"
  using assms unfolding wp_def by (fastforce split: prod.splits sum.splits)

section \<open>Runs with a known clock, and without faults\<close>

text \<open>
  \<open>vc faulty C m Q E d ev\<close> is \<open>wp\<close> for the worlds whose clock reads times of \<open>C\<close> and in which statements
  may fail only if \<open>faulty\<close>. A run is calm when the database answers every statement; there an
  operation is expected to succeed, and an \<open>E\<close> that is false everywhere says that it does.
\<close>

definition ambient :: "bool \<Rightarrow> time set \<Rightarrow> 'd world \<Rightarrow> bool" where
  "ambient faulty C w \<longleftrightarrow> (faulty \<or> w_fault w = (\<lambda>_. None)) \<and> range (w_clock w) \<subseteq> C"

definition vc ::
  "bool \<Rightarrow> time set \<Rightarrow> ('d, 'a) prog \<Rightarrow> ('a \<Rightarrow> 'd \<Rightarrow> event list \<Rightarrow> bool) \<Rightarrow> (error \<Rightarrow> 'd \<Rightarrow> event list \<Rightarrow> bool)
    \<Rightarrow> 'd \<Rightarrow> event list \<Rightarrow> bool"
where
  "vc faulty C m Q E d ev \<longleftrightarrow> (\<forall>w. ambient faulty C w \<and> w_db w = d \<and> w_events w = ev \<longrightarrow>
     ambient faulty C (snd (m w)) \<and>
     (case m w of (Inr x, w') \<Rightarrow> Q x (w_db w') (w_events w') | (Inl e, w') \<Rightarrow> E e (w_db w') (w_events w')))"

abbreviation calm :: "time set \<Rightarrow> 'd world \<Rightarrow> bool" where
  "calm \<equiv> ambient False"

abbreviation calm_wp ::
  "time set \<Rightarrow> ('d, 'a) prog \<Rightarrow> ('a \<Rightarrow> 'd \<Rightarrow> event list \<Rightarrow> bool) \<Rightarrow> (error \<Rightarrow> 'd \<Rightarrow> event list \<Rightarrow> bool)
    \<Rightarrow> 'd \<Rightarrow> event list \<Rightarrow> bool"
where
  "calm_wp \<equiv> vc False"

lemma calm_def: "calm C w \<longleftrightarrow> w_fault w = (\<lambda>_. None) \<and> range (w_clock w) \<subseteq> C"
  by (simp add: ambient_def)

lemma ambient_update [simp]:
  "ambient faulty C (w\<lparr>w_stmt := n\<rparr>) = ambient faulty C w" "ambient faulty C (w\<lparr>w_db := d\<rparr>) = ambient faulty C w"
  "ambient faulty C (w\<lparr>w_intx := b\<rparr>) = ambient faulty C w" "ambient faulty C (w\<lparr>w_tick := n\<rparr>) = ambient faulty C w"
  "ambient faulty C (w\<lparr>w_events := ev\<rparr>) = ambient faulty C w"
  by (simp_all add: ambient_def)

lemma ambient_fault: "ambient faulty C w \<Longrightarrow> w_fault w n = Some e \<Longrightarrow> faulty"
  by (auto simp: ambient_def)

named_theorems calm_rules
named_theorems vc_rules

lemma vcD:
  assumes "vc faulty C m Q E (w_db w) (w_events w)" and "ambient faulty C w" and "m w = (r, w')"
  shows "case r of Inr x \<Rightarrow> Q x (w_db w') (w_events w') | Inl e \<Rightarrow> E e (w_db w') (w_events w')"
  using assms unfolding vc_def by (auto split: prod.splits)

lemma vcI:
  assumes "\<And>w r w'. ambient faulty C w \<Longrightarrow> w_db w = d \<Longrightarrow> w_events w = ev \<Longrightarrow> m w = (r, w') \<Longrightarrow>
    ambient faulty C w' \<and> (case r of Inr x \<Rightarrow> Q x (w_db w') (w_events w') | Inl e \<Rightarrow> E e (w_db w') (w_events w'))"
  shows "vc faulty C m Q E d ev"
  unfolding vc_def
proof (intro allI impI)
  fix w :: "'a world"
  assume w: "ambient faulty C w \<and> w_db w = d \<and> w_events w = ev"
  obtain r w' where "m w = (r, w')" by (cases "m w")
  then show "ambient faulty C (snd (m w)) \<and> (case m w of
      (Inr x, w') \<Rightarrow> Q x (w_db w') (w_events w') | (Inl e, w') \<Rightarrow> E e (w_db w') (w_events w'))"
    using assms [of w r w'] w by simp
qed

lemma vc_ambient:
  assumes "vc faulty C m Q E (w_db w) (w_events w)" and "ambient faulty C w" and "m w = (r, w')"
  shows "ambient faulty C w'"
  using assms unfolding vc_def by (metis snd_conv)

lemma vc_mono:
  assumes "vc faulty C m Q E d ev" and "\<And>x d ev. Q x d ev \<Longrightarrow> Q' x d ev" and "\<And>e d ev. E e d ev \<Longrightarrow> E' e d ev"
  shows "vc faulty C m Q' E' d ev"
proof (rule vcI)
  fix w r w'
  assume w: "ambient faulty C w" "w_db w = d" "w_events w = ev" and m: "m w = (r, w')"
  have p: "vc faulty C m Q E (w_db w) (w_events w)" using assms(1) w by simp
  show "ambient faulty C w' \<and> (case r of Inr x \<Rightarrow> Q' x (w_db w') (w_events w') | Inl e \<Rightarrow> E' e (w_db w') (w_events w'))"
    using vc_ambient [OF p w(1) m] vcD [OF p w(1) m] assms(2,3) by (auto split: sum.splits)
qed

lemma vc_ret [vc_rules]: "Q x d ev \<Longrightarrow> vc faulty C (ret x) Q E d ev"
  by (simp add: vc_def ret_def)

lemma vc_fail [vc_rules]: "E e d ev \<Longrightarrow> vc faulty C (fail e) Q E d ev"
  by (simp add: vc_def fail_def)

lemma vc_bind [vc_rules]:
  assumes "vc faulty C m (\<lambda>x d ev. vc faulty C (f x) Q E d ev) E d ev"
  shows "vc faulty C (bind m f) Q E d ev"
  unfolding vc_def
proof (intro allI impI)
  fix w :: "'a world"
  assume w: "ambient faulty C w \<and> w_db w = d \<and> w_events w = ev"
  obtain r w' where m: "m w = (r, w')" by (cases "m w")
  have c: "ambient faulty C w'" using assms w m unfolding vc_def by (metis snd_conv)
  show "ambient faulty C (snd (bind m f w)) \<and> (case bind m f w of
      (Inr x, w') \<Rightarrow> Q x (w_db w') (w_events w') | (Inl e, w') \<Rightarrow> E e (w_db w') (w_events w'))"
  proof (cases r)
    case (Inl e)
    then show ?thesis using vcD [of faulty C m _ E w r w'] assms w m c by (simp add: bind_def)
  next
    case (Inr x)
    then have "vc faulty C (f x) Q E (w_db w') (w_events w')" using vcD [of faulty C m _ E w r w'] assms w m by simp
    then show ?thesis using Inr m c by (simp add: bind_def vc_def)
  qed
qed

lemma vc_if:
  "(b \<Longrightarrow> vc faulty C m Q E d ev) \<Longrightarrow> (\<not> b \<Longrightarrow> vc faulty C n Q E d ev) \<Longrightarrow> vc faulty C (if b then m else n) Q E d ev"
  by simp

lemma vc_attempt [vc_rules]:
  "vc faulty C m (\<lambda>x. Q (Inr x)) (\<lambda>e. Q (Inl e)) d ev \<Longrightarrow> vc faulty C (attempt m) Q E d ev"
  by (rule vcI) (auto simp: attempt_def split: prod.splits sum.splits dest: vcD vc_ambient)

lemma vc_map_error [vc_rules]:
  "vc faulty C m Q (\<lambda>e. E (f e)) d ev \<Longrightarrow> vc faulty C (map_error f m) Q E d ev"
  by (rule vcI) (auto simp: map_error_def split: prod.splits sum.splits dest: vcD vc_ambient)

lemma vc_stmt [vc_rules]:
  assumes "\<And>e. faulty \<Longrightarrow> E e d ev"
    and "\<And>x d'. f d = (Inr x, d') \<Longrightarrow> Q x d' ev" and "\<And>e d'. f d = (Inl e, d') \<Longrightarrow> E e d ev"
  shows "vc faulty C (stmt f) Q E d ev"
proof (rule vcI)
  fix w r w'
  assume w: "ambient faulty C w" "w_db w = d" "w_events w = ev" and run: "stmt f w = (r, w')"
  show "ambient faulty C w' \<and> (case r of Inr x \<Rightarrow> Q x (w_db w') (w_events w') | Inl e \<Rightarrow> E e (w_db w') (w_events w'))"
  proof (cases "w_fault w (w_stmt w)")
    case None
    then show ?thesis using run w assms(2,3) by (auto simp: stmt_def Let_def split: prod.splits sum.splits)
  next
    case (Some e)
    then show ?thesis using run w assms(1) ambient_fault [OF w(1) Some] by (auto simp: stmt_def Let_def)
  qed
qed

lemma vc_query [vc_rules]: "(\<And>e. faulty \<Longrightarrow> E e d ev) \<Longrightarrow> Q (f d) d ev \<Longrightarrow> vc faulty C (query f) Q E d ev"
  unfolding query_def by (rule vc_stmt) auto

lemma vc_query_first [vc_rules]:
  assumes "\<And>e. faulty \<Longrightarrow> E e d ev"
    and "\<And>x. f d = Some x \<Longrightarrow> Q x d ev" and "f d = None \<Longrightarrow> E gorm_not_found d ev"
  shows "vc faulty C (query_first f) Q E d ev"
  unfolding query_first_def by (rule vc_stmt) (use assms in \<open>auto split: option.splits\<close>)

lemma vc_exec [vc_rules]:
  "(\<And>e. faulty \<Longrightarrow> E e d ev) \<Longrightarrow> Q (fst (f d)) (snd (f d)) ev \<Longrightarrow> vc faulty C (exec f) Q E d ev"
  unfolding exec_def by (rule vc_stmt) (auto split: prod.splits)

lemma vc_now [vc_rules]: "(\<And>t. t \<in> C \<Longrightarrow> Q t d ev) \<Longrightarrow> vc faulty C now Q E d ev"
  by (auto simp: vc_def now_def ambient_def)

lemma vc_dispatch [vc_rules]:
  "Q () d (ev @ [\<lparr>ev_Type = ty, ev_Data = data, ev_User = user\<rparr>]) \<Longrightarrow> vc faulty C (dispatch ty data user) Q E d ev"
  by (simp add: vc_def dispatch_def ambient_def)

lemma vc_transaction [vc_rules]:
  assumes "\<And>e. faulty \<Longrightarrow> E e d ev"
    and body: "vc faulty C body (\<lambda>x d' ev'. Q x d' ev' \<and> (\<forall>e. faulty \<longrightarrow> E e d ev')) (\<lambda>e d' ev'. E e d ev') d ev"
  shows "vc faulty C (transaction body) Q E d ev"
proof (rule vcI)
  fix w r w'
  assume w: "ambient faulty C w" "w_db w = d" "w_events w = ev" and run: "transaction body w = (r, w')"
  let ?w1 = "w\<lparr>w_stmt := Suc (w_stmt w), w_intx := True\<rparr>"
  obtain r2 w2 where b: "body ?w1 = (r2, w2)" by (cases "body ?w1")
  have c1: "ambient faulty C ?w1" using w by (simp add: ambient_def)
  have p: "vc faulty C body (\<lambda>x d' ev'. Q x d' ev' \<and> (\<forall>e. faulty \<longrightarrow> E e d ev')) (\<lambda>e d' ev'. E e d ev') (w_db ?w1) (w_events ?w1)"
    using body w by simp
  have c2: "ambient faulty C w2" using vc_ambient [OF p c1 b] .
  have q: "case r2 of Inr x \<Rightarrow> Q x (w_db w2) (w_events w2) \<and> (\<forall>e. faulty \<longrightarrow> E e d (w_events w2)) | Inl e \<Rightarrow> E e d (w_events w2)"
    using vcD [OF p c1 b] .
  show "ambient faulty C w' \<and> (case r of Inr x \<Rightarrow> Q x (w_db w') (w_events w') | Inl e \<Rightarrow> E e (w_db w') (w_events w'))"
  proof (cases "w_fault w (w_stmt w)")
    case (Some e)
    then show ?thesis using run w ambient_fault [OF w(1) Some] assms(1) by (auto simp: transaction_def stmt_def)
  next
    case None
    then show ?thesis using run b w c2 q ambient_fault [OF c2, of "w_stmt w2"]
      by (cases r2; cases "w_intx w"; cases "w_fault w2 (w_stmt w2)")
        (auto simp: transaction_def stmt_def Let_def)
  qed
qed

lemma vc_and_wp:
  assumes "vc faulty C m Q E d ev" and "wp m Q' E' d ev"
  shows "vc faulty C m (\<lambda>x d ev. Q x d ev \<and> Q' x d ev) (\<lambda>e d ev. E e d ev \<and> E' e d ev) d ev"
proof (rule vcI)
  fix w r w'
  assume w: "ambient faulty C w" "w_db w = d" "w_events w = ev" and m: "m w = (r, w')"
  have c: "vc faulty C m Q E (w_db w) (w_events w)" and p: "wp m Q' E' (w_db w) (w_events w)" using assms w by simp_all
  show "ambient faulty C w' \<and> (case r of Inr x \<Rightarrow> Q x (w_db w') (w_events w') \<and> Q' x (w_db w') (w_events w')
      | Inl e \<Rightarrow> E e (w_db w') (w_events w') \<and> E' e (w_db w') (w_events w'))"
    using vc_ambient [OF c w(1) m] vcD [OF c w(1) m] wpD [OF p m] by (auto split: sum.splits)
qed

lemma vc_for_each:
  assumes "P xs d ev" and "\<And>x ys d ev. P (x # ys) d ev \<Longrightarrow> vc faulty C (f x) (\<lambda>_. P ys) E d ev"
  shows "vc faulty C (for_each f xs) (\<lambda>_. P []) E d ev"
  using assms(1)
proof (induction xs arbitrary: d ev)
  case Nil
  then show ?case by (auto intro: vc_ret)
next
  case (Cons x xs)
  have "vc faulty C (f x) (\<lambda>_. P xs) E d ev" using assms(2) Cons.prems by blast
  then have "vc faulty C (f x) (\<lambda>_ d ev. vc faulty C (for_each f xs) (\<lambda>_. P []) E d ev) E d ev"
    by (rule vc_mono) (use Cons.IH in auto)
  then show ?case by (simp add: vc_bind)
qed

text \<open>The rules for calm runs, without the branches of a failing statement.\<close>

lemmas calm_wpD = vcD [where faulty = False]
lemmas calm_mono = vc_mono [where faulty = False]
lemmas calm_and_wp = vc_and_wp [where faulty = False]
lemmas calm_for_each = vc_for_each [where faulty = False]
lemmas calm_ret [calm_rules] = vc_ret [where faulty = False]
lemmas calm_fail [calm_rules] = vc_fail [where faulty = False]
lemmas calm_bind [calm_rules] = vc_bind [where faulty = False]
lemmas calm_attempt [calm_rules] = vc_attempt [where faulty = False]
lemmas calm_map_error [calm_rules] = vc_map_error [where faulty = False]
lemmas calm_now [calm_rules] = vc_now [where faulty = False]
lemmas calm_dispatch [calm_rules] = vc_dispatch [where faulty = False]

lemma calm_stmt [calm_rules]:
  "(\<And>x d'. f d = (Inr x, d') \<Longrightarrow> Q x d' ev) \<Longrightarrow> (\<And>e d'. f d = (Inl e, d') \<Longrightarrow> E e d ev) \<Longrightarrow> calm_wp C (stmt f) Q E d ev"
  by (rule vc_stmt) auto

lemma calm_query [calm_rules]: "Q (f d) d ev \<Longrightarrow> calm_wp C (query f) Q E d ev"
  by (rule vc_query) auto

lemma calm_query_first [calm_rules]:
  "(\<And>x. f d = Some x \<Longrightarrow> Q x d ev) \<Longrightarrow> (f d = None \<Longrightarrow> E gorm_not_found d ev) \<Longrightarrow> calm_wp C (query_first f) Q E d ev"
  by (rule vc_query_first) auto

lemma calm_exec [calm_rules]: "Q (fst (f d)) (snd (f d)) ev \<Longrightarrow> calm_wp C (exec f) Q E d ev"
  by (rule vc_exec) auto

lemma calm_transaction [calm_rules]:
  "calm_wp C body Q (\<lambda>e d' ev'. E e d ev') d ev \<Longrightarrow> calm_wp C (transaction body) Q E d ev"
  by (rule vc_transaction) simp_all

section \<open>Preorders on the database and the events\<close>

text \<open>\<open>m\<close> relates the database and the events it finds to those it leaves, on success and on error.\<close>

type_synonym 'd state_rel = "'d \<Rightarrow> event list \<Rightarrow> 'd \<Rightarrow> event list \<Rightarrow> bool"

definition keeps :: "'d state_rel \<Rightarrow> ('d, 'a) prog \<Rightarrow> bool" where
  "keeps R m \<longleftrightarrow> (\<forall>w. R (w_db w) (w_events w) (w_db (snd (m w))) (w_events (snd (m w))))"

lemma keepsD: "keeps R m \<Longrightarrow> m w = (r, w') \<Longrightarrow> R (w_db w) (w_events w) (w_db w') (w_events w')"
  unfolding keeps_def by (metis snd_conv)

lemma keeps_wp: "keeps R m \<Longrightarrow> wp m (\<lambda>_. R d ev) (\<lambda>_. R d ev) d ev"
  unfolding wp_def using keepsD by (fastforce split: prod.splits sum.splits)

lemma wp_keeps:
  assumes "\<And>d ev. wp m (\<lambda>_. R d ev) (\<lambda>_. R d ev) d ev"
  shows "keeps R m"
  unfolding keeps_def
proof
  fix w
  obtain r w' where m: "m w = (r, w')" by (cases "m w")
  show "R (w_db w) (w_events w) (w_db (snd (m w))) (w_events (snd (m w)))"
    using wpD [OF assms m] m by (cases r) auto
qed

locale state_preorder =
  fixes R :: "'d state_rel"
  assumes state_refl: "R d ev d ev"
    and state_trans: "R a ev b ev1 \<Longrightarrow> R b ev1 c ev2 \<Longrightarrow> R a ev c ev2"
begin

lemma keeps_ret: "keeps R (ret x)"
  by (simp add: keeps_def ret_def state_refl)

lemma keeps_fail: "keeps R (fail e)"
  by (simp add: keeps_def fail_def state_refl)

lemma keeps_now: "keeps R now"
  by (simp add: keeps_def now_def state_refl)

lemma keeps_bind:
  assumes "keeps R m" and "\<And>x. keeps R (f x)"
  shows "keeps R (bind m f)"
  unfolding keeps_def
proof
  fix w
  obtain r w' where m: "m w = (r, w')" by (cases "m w")
  show "R (w_db w) (w_events w) (w_db (snd (bind m f w))) (w_events (snd (bind m f w)))"
  proof (cases r)
    case (Inl e)
    then show ?thesis using keepsD [OF assms(1) m] m by (simp add: bind_def)
  next
    case (Inr x)
    then show ?thesis using state_trans [OF keepsD [OF assms(1) m]] assms(2) [of x] m
      by (simp add: bind_def keeps_def)
  qed
qed

lemma keeps_attempt: "keeps R m \<Longrightarrow> keeps R (attempt m)"
  unfolding keeps_def attempt_def by (auto split: prod.splits) (metis snd_conv)

lemma keeps_map_error: "keeps R m \<Longrightarrow> keeps R (map_error f m)"
  unfolding keeps_def map_error_def by (auto split: prod.splits sum.splits) (metis snd_conv)+

lemma keeps_stmt: "(\<And>d ev x d'. f d = (Inr x, d') \<Longrightarrow> R d ev d' ev) \<Longrightarrow> keeps R (stmt f)"
  unfolding keeps_def stmt_def
  by (auto simp: Let_def state_refl split: option.splits prod.splits sum.splits)

lemma keeps_query: "keeps R (query f)"
  unfolding query_def by (rule keeps_stmt) (auto simp: state_refl)

lemma keeps_query_first: "keeps R (query_first f)"
  unfolding query_first_def by (rule keeps_stmt) (auto simp: state_refl split: option.splits)

lemma keeps_exec: "(\<And>d ev. R d ev (snd (f d)) ev) \<Longrightarrow> keeps R (exec f)"
  unfolding exec_def by (rule keeps_stmt) (auto split: prod.splits, metis snd_conv)

lemma keeps_dispatch:
  "(\<And>d ev. R d ev d (ev @ [\<lparr>ev_Type = ty, ev_Data = data, ev_User = user\<rparr>])) \<Longrightarrow> keeps R (dispatch ty data user)"
  by (simp add: keeps_def dispatch_def)

lemma keeps_for_each: "(\<And>x. keeps R (f x)) \<Longrightarrow> keeps R (for_each f xs)"
  by (induction xs) (auto intro: keeps_ret keeps_bind)

lemmas keeps_basics = keeps_ret keeps_fail keeps_now keeps_bind keeps_attempt keeps_map_error
  keeps_query keeps_query_first keeps_for_each

end

text \<open>A transaction that fails puts the database back but not the events.\<close>

locale rollback_preorder = state_preorder +
  assumes state_rollback: "R a ev b ev1 \<Longrightarrow> R a ev a ev1"
begin

lemma keeps_transaction:
  assumes "keeps R body"
  shows "keeps R (transaction body)"
  unfolding keeps_def
proof
  fix w :: "'a world"
  let ?w1 = "w\<lparr>w_stmt := Suc (w_stmt w), w_intx := True\<rparr>"
  obtain r w' where b: "body ?w1 = (r, w')" by (cases "body ?w1")
  have kept: "R (w_db w) (w_events w) (w_db w') (w_events w')" using keepsD [OF assms b] by simp
  have undone: "R (w_db w) (w_events w) (w_db w) (w_events w')" using state_rollback [OF kept] .
  show "R (w_db w) (w_events w) (w_db (snd (transaction body w))) (w_events (snd (transaction body w)))"
    using b by (cases r)
      (auto simp: transaction_def stmt_def Let_def state_refl kept undone split: option.splits)
qed

lemmas keeps_rules = keeps_basics keeps_transaction

end

end
