(* ===== verification/Billing.thy ===== *)
theory Billing
  imports Database Pricing Program_Logic
begin

text \<open>
  The payment service (\<^verbatim>\<open>internal/plugins/billing/service.go\<close>): pricing of a request, creation of a
  payment with its promo code, and the completion of a payment by the provider's callback or by an
  administrator, which extends the subscription or credits the balance.
\<close>

section \<open>Requests and errors\<close>

record CreatePaymentRequest =
  cr_TelegramID :: int
  cr_Email :: string
  cr_Amount :: int
  cr_PaymentType :: string
  cr_Method :: string
  cr_ExternalID :: string
  cr_PlanID :: "int option"
  cr_MaxDevices :: int
  cr_PromoCode :: string
  cr_Platform :: string
  cr_CustomData :: json_map

definition ErrUserNotFound :: error where
  "ErrUserNotFound = Err ''user not found''"

definition ErrPromoLimitReached :: error where
  "ErrPromoLimitReached = Err ''promo code usage limit reached''"

definition ErrPromoAlreadyUsed :: error where
  "ErrPromoAlreadyUsed = Err ''promo code already used or pending for this user''"

definition ErrInvalidPlanID :: error where
  "ErrInvalidPlanID = Err ''invalid plan_id''"

section \<open>The price of a payment\<close>

type_synonym pricing_fn = "PricingRequest \<Rightarrow> time \<Rightarrow> PricingResult result"

text \<open>The snapshots handed to an engine: the copies leave out the engines of a plan.\<close>

definition pricingPlanFromDomain :: "Plan option \<Rightarrow> Plan option" where
  "pricingPlanFromDomain plan = map_option (\<lambda>p. p\<lparr>pn_EngineIDs := []\<rparr>) plan"

definition pricingPromoFromDomain :: "PromoCode option \<Rightarrow> PromoCode option" where
  "pricingPromoFromDomain promo = promo"

definition pricingSubscriptionFromDomain :: "Subscription option \<Rightarrow> Subscription option" where
  "pricingSubscriptionFromDomain sub = sub"

definition ok_option :: "'a result \<Rightarrow> 'a option" where
  "ok_option r = (case r of Inr x \<Rightarrow> Some x | Inl _ \<Rightarrow> None)"

definition find_plan :: "int option \<Rightarrow> ('m tables_scheme, Plan option) prog" where
  "find_plan planID = (case planID of
     None \<Rightarrow> ret None
   | Some pid \<Rightarrow> bind (attempt (Plans_FindByID (fmt_int pid)))
       (\<lambda>found. case found of Inl _ \<Rightarrow> fail ErrInvalidPlanID | Inr plan \<Rightarrow> ret (Some plan)))"

definition find_promo :: "string \<Rightarrow> ('m tables_scheme, PromoCode option) prog" where
  "find_promo code =
     (if code = '''' then ret None
      else bind (attempt (Promos_FindByCode (to_upper (trim_space code)))) (\<lambda>found. ret (ok_option found)))"

definition pricing_request ::
  "string \<Rightarrow> CreatePaymentRequest \<Rightarrow> Plan option \<Rightarrow> PromoCode option \<Rightarrow> Subscription option \<Rightarrow> time \<Rightarrow> PricingRequest"
where
  "pricing_request userID req plan promo currentSub t =
     \<lparr>pr_UserID = userID, pr_PlanID = (case cr_PlanID req of Some pid \<Rightarrow> pid | None \<Rightarrow> 0),
      pr_PromoCode = cr_PromoCode req, pr_ExtraDevices = max (wrap64 (cr_MaxDevices req - 3)) 0,
      pr_IsUpgrade = (case currentSub of
          Some sub \<Rightarrow> (case s_EndsAt sub of Some e \<Rightarrow> e > t \<and> cr_MaxDevices req > s_MaxDevices sub | None \<Rightarrow> False)
        | None \<Rightarrow> False),
      pr_Amount = cr_Amount req, pr_Plan = pricingPlanFromDomain plan,
      pr_CurrentSubscription = pricingSubscriptionFromDomain currentSub,
      pr_MaxDevices = cr_MaxDevices req, pr_Platform = cr_Platform req,
      pr_Promo = pricingPromoFromDomain promo, pr_Now = t\<rparr>"

text \<open>A call of the engine, which reads the clock itself only when the request carries no time.\<close>

definition call_engine :: "pricing_fn \<Rightarrow> PricingRequest \<Rightarrow> ('m tables_scheme, PricingResult) prog" where
  "call_engine engine preq =
     (let run = (\<lambda>wall. case engine preq wall of Inl e \<Rightarrow> fail e | Inr r \<Rightarrow> ret r)
      in if pr_Now preq = zero_time then bind now run else run 0)"

definition calculatePriceWithEngine ::
  "pricing_fn \<Rightarrow> string \<Rightarrow> CreatePaymentRequest \<Rightarrow> ('m tables_scheme, int \<times> int option) prog"
where
  "calculatePriceWithEngine engine userID req =
     bind (find_plan (cr_PlanID req)) (\<lambda>plan.
     bind (find_promo (cr_PromoCode req)) (\<lambda>promo.
     bind (if plan = None then ret None
           else bind (attempt (Subs_FindLatestByUserID userID)) (\<lambda>found. ret (ok_option found))) (\<lambda>currentSub.
     bind now (\<lambda>t.
     bind (map_error (ErrWrap ''failed to calculate payment price: '')
       (call_engine engine (pricing_request userID req plan promo currentSub t))) (\<lambda>r.
     ret (FinalPrice r, AppliedPromoID r))))))"

text \<open>
  The legacy calculation reads the clock anew at every comparison: for the end of the subscription, for
  the remaining time, and for the expiry of a promo that has one.
\<close>

definition legacy_upgrade :: "CreatePaymentRequest \<Rightarrow> Subscription result \<Rightarrow> ('m tables_scheme, int) prog" where
  "legacy_upgrade req found = (case found of
     Inl _ \<Rightarrow> ret 0
   | Inr sub \<Rightarrow>
       (case s_EndsAt sub of
          None \<Rightarrow> ret 0
        | Some ends \<Rightarrow>
            bind now (\<lambda>t1.
            if ends > t1 \<and> cr_MaxDevices req > s_MaxDevices sub then
              bind now (\<lambda>t2.
              let days = remaining_days (time_sub ends t2)
              in if days > 7 then
                   (let currentDevices = (if s_MaxDevices sub < 3 then 3 else s_MaxDevices sub);
                        newExtra = wrap64 (cr_MaxDevices req - currentDevices)
                    in ret (if newExtra > 0 then wrap64 (wrap64 (newExtra * 40) * upgrade_months days) else 0))
                 else ret 0)
            else ret 0)))"

definition legacy_promo :: "CreatePaymentRequest \<Rightarrow> ('m tables_scheme, PromoCode option) prog" where
  "legacy_promo req =
     (if cr_PromoCode req = '''' then ret None
      else bind (attempt (Promos_FindByCode (to_upper (trim_space (cr_PromoCode req))))) (\<lambda>found.
        case found of
          Inl _ \<Rightarrow> ret None
        | Inr promo \<Rightarrow>
            (if \<not> pc_IsActive promo then ret None
             else bind (case pc_ExpiresAt promo of None \<Rightarrow> ret True | Some e \<Rightarrow> bind now (\<lambda>t. ret (t < e))) (\<lambda>valid.
               let platform = to_lower (trim_space (cr_Platform req))
               in ret (if valid \<and> (pc_TargetPlatform promo = ''all'' \<or> pc_TargetPlatform promo = platform)
                    then Some promo else None)))))"

definition calculatePriceLegacy ::
  "string \<Rightarrow> CreatePaymentRequest \<Rightarrow> ('m tables_scheme, int \<times> int option) prog"
where
  "calculatePriceLegacy userID req = (case cr_PlanID req of
     None \<Rightarrow> bind (legacy_promo req) (\<lambda>promo. ret (cr_Amount req, map_option pc_ID promo))
   | Some pid \<Rightarrow>
       bind (attempt (Plans_FindByID (fmt_int pid))) (\<lambda>foundPlan. case foundPlan of
         Inl _ \<Rightarrow> fail ErrInvalidPlanID
       | Inr plan \<Rightarrow>
           bind (attempt (Subs_FindLatestByUserID userID)) (\<lambda>foundSub.
           bind (legacy_upgrade req foundSub) (\<lambda>upgrade.
           let extraDevicesCost = wrap64 ((if cr_MaxDevices req > 3
                 then wrap64 (wrap64 (wrap64 (cr_MaxDevices req - 3) * 40) * pn_Months plan) else 0) + upgrade);
               baseAmount = wrap64 (pn_BasePrice plan + extraDevicesCost);
               globalPrice = (if pn_GlobalDiscountPercent plan > 0
                 then wrap64 (baseAmount - go_div (wrap64 (baseAmount * pn_GlobalDiscountPercent plan)) 100)
                 else baseAmount)
           in bind (legacy_promo req) (\<lambda>promo.
              let promoPrice = (case promo of
                    Some p \<Rightarrow> wrap64 (baseAmount - go_div (wrap64 (baseAmount * pc_DiscountPercent p)) 100)
                  | None \<Rightarrow> baseAmount)
              in ret (if globalPrice < promoPrice then (globalPrice, None)
                   else (promoPrice, map_option pc_ID promo)))))))"

definition calculatePaymentPrice ::
  "pricing_fn option \<Rightarrow> string \<Rightarrow> CreatePaymentRequest \<Rightarrow> ('m tables_scheme, int \<times> int option) prog"
where
  "calculatePaymentPrice engine userID req = (case engine of
     Some e \<Rightarrow> calculatePriceWithEngine e userID req
   | None \<Rightarrow> calculatePriceLegacy userID req)"

section \<open>Creation\<close>

definition payment_custom_data :: "CreatePaymentRequest \<Rightarrow> json_map" where
  "payment_custom_data req =
     (let base = [(''telegram_id'', JNum (cr_TelegramID req))]
          @ (if cr_Platform req \<noteq> '''' then [(''platform'', JStr (cr_Platform req))] else [])
          @ (if cr_MaxDevices req > 0 then [(''max_devices'', JNum (cr_MaxDevices req))] else [])
      in fold (\<lambda>(k, v) m. AList.update k v m) (cr_CustomData req) base)"

definition new_payment :: "User \<Rightarrow> CreatePaymentRequest \<Rightarrow> int \<Rightarrow> int option \<Rightarrow> Payment" where
  "new_payment user req amount promoID =
     \<lparr>p_ID = 0, p_UserID = u_ID user, p_Amount = amount, p_Status = ''pending_card'',
      p_PaymentType = cr_PaymentType req, p_Method = cr_Method req,
      p_ExternalID = (if cr_ExternalID req \<noteq> '''' then Some (cr_ExternalID req) else None),
      p_CustomData = payment_custom_data req, p_PlanID = cr_PlanID req, p_PromoCodeID = promoID,
      p_CreatedAt = zero_time\<rparr>"

text \<open>The promo code is looked at again inside the transaction, and its use is counted.\<close>

definition take_promo :: "string \<Rightarrow> int \<Rightarrow> ('m tables_scheme, unit) prog" where
  "take_promo userID promoID =
     bind (map_error (ErrWrap ''promo not found: '') (Promos_FindByID promoID)) (\<lambda>promo.
     if \<not> pc_IsActive promo then fail (Err ''promo inactive'')
     else bind (case pc_ExpiresAt promo of None \<Rightarrow> ret False | Some e \<Rightarrow> bind now (\<lambda>t. ret (\<not> t < e))) (\<lambda>expired.
     if expired then fail (Err ''promo expired'')
     else bind (if pc_MaxUses promo > 0
         then bind (IncrementUses promoID (pc_MaxUses promo)) (\<lambda>ok.
           if \<not> ok then fail (Err ''promo limit'') else ret ())
         else bind (attempt (IncrementUses promoID 0)) (\<lambda>_. ret ())) (\<lambda>_.
     bind (CountByUserAndPromo userID promoID) (\<lambda>count.
     if count > 0 then fail (Err ''promo used by user'') else ret ()))))"

definition create_error :: "error \<Rightarrow> error" where
  "create_error e =
     (let msg = error_text e
      in if msg = ''promo limit'' then ErrPromoLimitReached
         else if msg = ''promo used by user'' then ErrPromoAlreadyUsed
         else if str_contains msg ''promo inactive'' \<or> str_contains msg ''promo expired'' \<or>
           str_contains msg ''promo not found'' then Err ''promo code is no longer valid''
         else ErrWrap ''failed to create payment: '' e)"

definition CreatePayment :: "pricing_fn option \<Rightarrow> CreatePaymentRequest \<Rightarrow> ('m tables_scheme, Payment) prog" where
  "CreatePayment engine req =
     (if cr_TelegramID req = 0 \<and> cr_Email req = '''' then fail (Err ''telegram_id or email is required'')
      else if cr_PlanID req = None \<and> cr_Amount req \<le> 0 then
        fail (Err ''amount must be positive if plan_id is missing'')
      else if cr_PaymentType req = '''' then fail (Err ''payment_type is required'')
      else bind (attempt (if cr_TelegramID req \<noteq> 0
          then Users_FindByPlatformID ''telegram'' (fmt_int (cr_TelegramID req))
          else Users_FindByPlatformID ''web'' (cr_Email req))) (\<lambda>found. case found of
        Inl _ \<Rightarrow> fail ErrUserNotFound
      | Inr user \<Rightarrow>
          bind (calculatePaymentPrice engine (u_ID user) req) (\<lambda>(amount, promoID).
          map_error create_error (WithTx (
            bind (case promoID of None \<Rightarrow> ret () | Some pid \<Rightarrow> take_promo (u_ID user) pid) (\<lambda>_.
            Payments_Create (new_payment user req amount promoID)))))))"

definition UpdateExternalID :: "int \<Rightarrow> string \<Rightarrow> ('m tables_scheme, unit) prog" where
  "UpdateExternalID paymentID extID = WithTx (
     bind (Payments_FindByID (fmt_int paymentID)) (\<lambda>p.
     bind (Payments_Update (p\<lparr>p_ExternalID := Some extID\<rparr>)) (\<lambda>_. ret ())))"

definition ScrubOldPayments :: "duration \<Rightarrow> ('m tables_scheme, int) prog" where
  "ScrubOldPayments olderThan = bind now (\<lambda>t. ScrubOldExternalIDs (t - olderThan))"

section \<open>Completion\<close>

text \<open>The device limit of the extended subscription; the errors of the extension are only logged.\<close>

definition extension_devices :: "Subscription result \<Rightarrow> json_map \<Rightarrow> int" where
  "extension_devices current customData =
     (let fromSub = (case current of Inr sub \<Rightarrow> s_MaxDevices sub | Inl _ \<Rightarrow> 3);
          chosen = (case map_of customData ''max_devices'' of Some (JNum n) \<Rightarrow> n | _ \<Rightarrow> fromSub)
      in if chosen < 3 then 3 else chosen)"

definition extendSubscriptionForPayment :: "Payment \<Rightarrow> ('m tables_scheme, unit) prog" where
  "extendSubscriptionForPayment payment = (case p_PlanID payment of
     None \<Rightarrow> ret ()
   | Some pid \<Rightarrow>
       bind (attempt (Subs_FindLatestByUserID (p_UserID payment))) (\<lambda>current.
       bind (attempt (AutoRenewSubscription (p_UserID payment) (Some pid) 0 None
         (extension_devices current (p_CustomData payment)))) (\<lambda>_. ret ())))"

definition settle :: "Payment \<Rightarrow> ('m tables_scheme, unit) prog" where
  "settle payment =
     (if p_PlanID payment \<noteq> None then extendSubscriptionForPayment payment
      else if p_Method payment \<noteq> ''balance'' then AdjustBalance (p_UserID payment) (p_Amount payment)
      else ret ())"

definition completed_event :: "Payment \<Rightarrow> ('m tables_scheme, unit) prog" where
  "completed_event p = dispatch ''payment.completed''
     [(''payment_id'', JNum (p_ID p)), (''amount'', JNum (p_Amount p)), (''payment_type'', JStr (p_PaymentType p)),
      (''method'', JStr (p_Method p)), (''user_id'', JStr (p_UserID p))] []"

definition map_status :: "string \<Rightarrow> string" where
  "map_status status =
     (if status \<in> {''success'', ''SUCCESS'', ''CONFIRMED'', ''COMPLETED''} then ''completed'' else status)"

definition ProcessExternalPaymentStatus :: "string \<Rightarrow> string \<Rightarrow> ('m tables_scheme, unit) prog" where
  "ProcessExternalPaymentStatus extID status =
     (let mapped = map_status status
      in bind (WithTx (
           bind (Payments_FindByExternalID extID) (\<lambda>payment.
           if p_Status payment = mapped \<or> p_Status payment = ''completed'' then ret None
           else bind (Payments_UpdateStatusIfNotCompleted (p_ID payment) mapped) (\<lambda>updated.
             if \<not> updated then ret None
             else if mapped = ''completed'' then bind (settle payment) (\<lambda>_. ret (Some payment))
             else ret None)))) (\<lambda>toSend.
         case toSend of Some payment \<Rightarrow> completed_event payment | None \<Rightarrow> ret ()))"

definition UpdatePaymentStatus :: "int \<Rightarrow> string \<Rightarrow> string list \<Rightarrow> ('m tables_scheme, bool) prog" where
  "UpdatePaymentStatus paymentID status expectedStatuses =
     bind (WithTx (
       bind (Payments_UpdateStatus paymentID status expectedStatuses) (\<lambda>updated.
       if \<not> updated then ret (False, None)
       else if status = ''completed'' then
         bind (attempt (Payments_FindByID (fmt_int paymentID))) (\<lambda>found. case found of
           Inl _ \<Rightarrow> ret (True, None)
         | Inr payment \<Rightarrow> bind (settle payment) (\<lambda>_. ret (True, Some payment)))
       else ret (True, None)))) (\<lambda>(updated, toSend).
     if \<not> updated then ret False
     else bind (case toSend of Some payment \<Rightarrow> completed_event payment | None \<Rightarrow> ret ()) (\<lambda>_. ret True))"

end
