(* ===== verification/Billing_Ledger.thy ===== *)
theory Billing_Ledger
  imports Billing
begin

text \<open>
  The money of the payment service: what a completed top-up credits, and the relation between
  two states in which every payment that became completed was credited once and announced once, and that
  a callback of the provider, with any statement of it failing, keeps to it.
\<close>

section \<open>The part of the state a payment does not touch\<close>

definition money_frame :: "'m tables_scheme state_rel" where
  "money_frame t ev t' ev' \<longleftrightarrow> t_users t' = t_users t \<and> t_payments t' = t_payments t \<and>
     t_promos t' = t_promos t \<and> t_plans t' = t_plans t \<and> t_rewards t' = t_rewards t \<and> ev' = ev"

interpretation frame: rollback_preorder money_frame
  by unfold_locales (auto simp: money_frame_def)

lemma reset_frame: "keeps money_frame (resetNotificationsForEndsAtTx subID endsAt levels)"
  unfolding resetNotificationsForEndsAtTx_def Notifications_DeleteBySubscriptionID_def insert_notif_def Let_def
  by (cases endsAt) (auto intro!: frame.keeps_rules frame.keeps_exec simp: money_frame_def)

lemma AutoRenewSubscription_frame: "keeps money_frame (AutoRenewSubscription userID planID 0 endsAt maxDevices)"
  unfolding AutoRenewSubscription_def
  by (cases planID; cases endsAt)
    (auto intro!: frame.keeps_rules frame.keeps_exec reset_frame simp: money_frame_def split: prod.splits)

lemma extendSubscriptionForPayment_frame: "keeps money_frame (extendSubscriptionForPayment payment)"
  unfolding extendSubscriptionForPayment_def Subs_FindLatestByUserID_def
  by (cases "p_PlanID payment") (auto intro!: frame.keeps_rules AutoRenewSubscription_frame)

section \<open>One callback\<close>

definition tops_up :: "Payment \<Rightarrow> bool" where
  "tops_up p \<longleftrightarrow> p_PlanID p = None \<and> p_Method p \<noteq> ''balance''"

definition is_completed :: "Payment \<Rightarrow> bool" where
  "is_completed p \<longleftrightarrow> p_Status p = ''completed''"

definition credit_user :: "int \<Rightarrow> User \<Rightarrow> User" where
  "credit_user amount u = u\<lparr>u_Balance := max 0 (u_Balance u + amount)\<rparr>"

definition credit_users :: "Payment \<Rightarrow> User list \<Rightarrow> User list" where
  "credit_users p users =
     (if tops_up p then update_where (\<lambda>u. u_ID u = p_UserID p) (credit_user (p_Amount p)) users else users)"

definition payment_event :: "Payment \<Rightarrow> event" where
  "payment_event p = \<lparr>ev_Type = ''payment.completed'', ev_Data =
     [(''payment_id'', JNum (p_ID p)), (''amount'', JNum (p_Amount p)), (''payment_type'', JStr (p_PaymentType p)),
      (''method'', JStr (p_Method p)), (''user_id'', JStr (p_UserID p))], ev_User = []\<rparr>"

lemma wp_AdjustBalance [wp_rules]:
  assumes "\<And>e. E e d ev"
    and "Q () (t_users_update (update_where (\<lambda>u. u_ID u = uid) (credit_user amount)) d) ev"
  shows "wp (AdjustBalance uid amount) Q E d ev"
proof -
  have c: "credit_user amount = (\<lambda>u. u\<lparr>u_Balance := (if u_Balance u + amount < 0 then 0 else u_Balance u + amount)\<rparr>)"
    by (auto simp: credit_user_def)
  show ?thesis unfolding AdjustBalance_def
    by (rule wp_map_error, rule wp_exec) (use assms in \<open>simp_all add: c\<close>)
qed

lemma settle_wp:
  "wp (settle p) (\<lambda>_ d' ev'. t_payments d' = t_payments d \<and> t_users d' = credit_users p (t_users d) \<and> ev' = ev)
     (\<lambda>_ _ ev'. ev' = ev) d ev"
proof (cases "p_PlanID p = None")
  case True
  then show ?thesis
    by (auto simp: settle_def credit_users_def tops_up_def intro!: wp_AdjustBalance wp_ret)
next
  case False
  have "wp (extendSubscriptionForPayment p)
      (\<lambda>_ d' ev'. t_payments d' = t_payments d \<and> t_users d' = t_users d \<and> ev' = ev) (\<lambda>_ _ ev'. ev' = ev) d ev"
    by (rule wp_mono [OF keeps_wp [OF extendSubscriptionForPayment_frame]]; simp add: money_frame_def)
  with False show ?thesis by (auto simp: settle_def credit_users_def tops_up_def)
qed

text \<open>
  What a callback does to payments, users and events: it completes one payment that was not completed,
  credits and announces it; or it completes none and touches no user.
\<close>

definition with_status :: "string \<Rightarrow> int \<Rightarrow> Payment list \<Rightarrow> Payment list" where
  "with_status status ident =
     update_where (\<lambda>p. p_ID p = ident \<and> \<not> is_completed p) (\<lambda>p. p\<lparr>p_Status := status\<rparr>)"

definition callback_effect :: "'m tables_scheme state_rel" where
  "callback_effect t ev t' ev' \<longleftrightarrow>
     (t_payments t' = t_payments t \<or>
       (\<exists>status ident. status \<noteq> ''completed'' \<and> t_payments t' = with_status status ident (t_payments t))) \<and>
       t_users t' = t_users t \<and> ev' = ev \<or>
     (\<exists>p \<in> set (t_payments t). \<not> is_completed p \<and>
        t_payments t' = with_status ''completed'' (p_ID p) (t_payments t) \<and>
        t_users t' = credit_users p (t_users t) \<and> ev' = ev @ [payment_event p])"

lemma callback_effect_refl: "callback_effect t ev t ev"
  by (simp add: callback_effect_def)

lemma callback_pending:
  assumes "status \<noteq> ''completed''" and "t_payments t' = with_status status ident (t_payments t)"
    and "t_users t' = t_users t"
  shows "callback_effect t ev t' ev"
  using assms unfolding callback_effect_def by blast

lemma ProcessExternalPaymentStatus_wp:
  "wp (ProcessExternalPaymentStatus extID status) (\<lambda>_ d' ev'. callback_effect d ev d' ev')
     (\<lambda>_ d' ev'. d' = d \<and> ev' = ev) d ev"
proof -
  let ?Q = "\<lambda>toSend d' ev'. case toSend of
      None \<Rightarrow> callback_effect d ev d' ev' \<and> ev' = ev
    | Some p \<Rightarrow> callback_effect d ev d' (ev' @ [payment_event p]) \<and> ev' = ev"
  have body: "wp (if p_Status p = st \<or> p_Status p = ''completed'' then ret None
      else bind (Payments_UpdateStatusIfNotCompleted (p_ID p) st) (\<lambda>updated.
        if \<not> updated then ret None
        else if st = ''completed'' then bind (settle p) (\<lambda>_. ret (Some p)) else ret None))
      ?Q (\<lambda>_ _ ev'. ev' = ev) d ev" if p: "p \<in> set (t_payments d)" for p st
  proof -
    have settled: "wp (settle p) (\<lambda>_ d' ev'. callback_effect d ev d' (ev' @ [payment_event p]) \<and> ev' = ev)
        (\<lambda>_ _ ev'. ev' = ev) d' ev"
      if "t_payments d' = with_status ''completed'' (p_ID p) (t_payments d)" "t_users d' = t_users d"
        "\<not> is_completed p" for d'
      by (rule wp_mono [OF settle_wp]) (use that p in \<open>auto simp: callback_effect_def\<close>)
    show ?thesis
      unfolding Payments_UpdateStatusIfNotCompleted_def Let_def
      by (auto intro!: wp_rules callback_effect_refl callback_pending wp_mono [OF settled]
          simp: is_completed_def with_status_def count_rows_pos p)
  qed
  show ?thesis
    unfolding ProcessExternalPaymentStatus_def Let_def WithTx_def Payments_FindByExternalID_def
    apply (rule wp_bind, rule wp_transaction, simp)
    apply (rule wp_bind, rule wp_map_error, rule wp_query_first)
     apply simp
    apply (rule wp_mono [OF body])
      apply (auto dest: first_by_Some simp: completed_event_def payment_event_def intro!: wp_rules split: option.splits)
    done
qed

section \<open>The ledger\<close>

text \<open>What the completed top-ups of a user add up to, and the payments that are completed.\<close>

definition credit_of :: "string \<Rightarrow> Payment \<Rightarrow> int" where
  "credit_of uid p = (if is_completed p \<and> tops_up p \<and> p_UserID p = uid then p_Amount p else 0)"

definition credited :: "string \<Rightarrow> 'm tables_scheme \<Rightarrow> int" where
  "credited uid t = sum_list (map (credit_of uid) (t_payments t))"

definition completed_ids :: "'m tables_scheme \<Rightarrow> int set" where
  "completed_ids t = p_ID ` set (filter is_completed (t_payments t))"

definition ledger_wf :: "'m tables_scheme \<Rightarrow> bool" where
  "ledger_wf t \<longleftrightarrow> distinct (map p_ID (t_payments t)) \<and> (\<forall>u \<in> set (t_users t). 0 \<le> u_Balance u) \<and>
     (\<forall>p \<in> set (t_payments t). tops_up p \<longrightarrow> 0 \<le> p_Amount p)"

definition ledger :: "'m tables_scheme state_rel" where
  "ledger t ev t' ev' \<longleftrightarrow> (ledger_wf t \<longrightarrow> ledger_wf t' \<and>
     t_users t' = map (\<lambda>u. u\<lparr>u_Balance := u_Balance u + (credited (u_ID u) t' - credited (u_ID u) t)\<rparr>) (t_users t) \<and>
     completed_ids t \<subseteq> completed_ids t' \<and>
     (\<exists>ps. ev' = ev @ map payment_event ps \<and> distinct (map p_ID ps) \<and>
        set (map p_ID ps) = completed_ids t' - completed_ids t))"

interpretation ledger: state_preorder ledger
proof
  show "ledger t ev t ev" for t :: "'m tables_scheme" and ev
    by (auto simp: ledger_def intro!: exI [of _ "[]"])
  show "ledger a ev c ev2" if ab: "ledger a ev b ev1" and bc: "ledger b ev1 c ev2"
    for a b c :: "'m tables_scheme" and ev ev1 ev2
    unfolding ledger_def
  proof (intro impI conjI)
    assume wf: "ledger_wf a"
    note ab = ab [unfolded ledger_def, rule_format, OF wf]
    note bc = bc [unfolded ledger_def, rule_format, OF conjunct1 [OF ab]]
    show "ledger_wf c" using bc by blast
    show "t_users c = map (\<lambda>u. u\<lparr>u_Balance := u_Balance u + (credited (u_ID u) c - credited (u_ID u) a)\<rparr>) (t_users a)"
      using ab bc by (simp add: algebra_simps)
    show "completed_ids a \<subseteq> completed_ids c" using ab bc by blast
    obtain ps qs where "ev1 = ev @ map payment_event ps" "distinct (map p_ID ps)"
        "set (map p_ID ps) = completed_ids b - completed_ids a"
        "ev2 = ev1 @ map payment_event qs" "distinct (map p_ID qs)"
        "set (map p_ID qs) = completed_ids c - completed_ids b"
      using ab bc by blast
    then show "\<exists>ps. ev2 = ev @ map payment_event ps \<and> distinct (map p_ID ps) \<and>
        set (map p_ID ps) = completed_ids c - completed_ids a"
      using ab bc by (intro exI [of _ "ps @ qs"]) auto
  qed
qed

lemma with_status_ids [simp]: "map p_ID (with_status st ident ps) = map p_ID ps"
  unfolding with_status_def by (rule map_update_where) simp

lemma with_status_amounts:
  "p \<in> set (with_status st ident ps) \<Longrightarrow> \<exists>q \<in> set ps. tops_up p = tops_up q \<and> p_Amount p = p_Amount q"
  unfolding with_status_def set_update_where by (auto simp: tops_up_def)

lemma completed_with_status:
  "st \<noteq> ''completed'' \<Longrightarrow> filter is_completed (with_status st ident ps) = filter is_completed ps"
  unfolding with_status_def by (induction ps) (auto simp: is_completed_def)

lemma credit_with_status:
  "st \<noteq> ''completed'' \<Longrightarrow> map (credit_of uid) (with_status st ident ps) = map (credit_of uid) ps"
  unfolding with_status_def by (rule map_update_where) (auto simp: credit_of_def is_completed_def)

lemma with_status_none: "ident \<notin> p_ID ` set ps \<Longrightarrow> with_status st ident ps = ps"
  unfolding with_status_def by (rule update_where_none) auto

lemma credit_completed:
  assumes "distinct (map p_ID ps)" and "p \<in> set ps" and "\<not> is_completed p"
  shows "sum_list (map (credit_of uid) (with_status ''completed'' (p_ID p) ps)) =
    sum_list (map (credit_of uid) ps) + (if tops_up p \<and> p_UserID p = uid then p_Amount p else 0)"
  using assms
proof (induction ps)
  case (Cons q ps)
  show ?case
  proof (cases "p = q")
    case True
    then have "with_status ''completed'' (p_ID p) (q # ps) = p\<lparr>p_Status := ''completed''\<rparr> # ps"
      using Cons.prems with_status_none [of "p_ID p" ps] by (simp add: with_status_def)
    then show ?thesis using True Cons.prems by (simp add: credit_of_def is_completed_def tops_up_def)
  next
    case False
    then have "p \<in> set ps" using Cons.prems by simp
    moreover have "p_ID q \<notin> p_ID ` set ps" using Cons.prems(1) by simp
    ultimately have "p_ID p \<noteq> p_ID q" by (metis image_eqI)
    then have "with_status ''completed'' (p_ID p) (q # ps) = q # with_status ''completed'' (p_ID p) ps"
      by (simp add: with_status_def)
    then show ?thesis using Cons.IH Cons.prems \<open>p \<in> set ps\<close> by simp
  qed
qed simp

lemma completed_completed:
  assumes "p \<in> set ps" and "\<not> is_completed p"
  shows "p_ID ` set (filter is_completed (with_status ''completed'' (p_ID p) ps)) =
    insert (p_ID p) (p_ID ` set (filter is_completed ps))"
proof (intro equalityI subsetI)
  fix n assume "n \<in> p_ID ` set (filter is_completed (with_status ''completed'' (p_ID p) ps))"
  then show "n \<in> insert (p_ID p) (p_ID ` set (filter is_completed ps))"
    unfolding with_status_def set_filter set_update_where by (auto split: if_splits)
next
  let ?f = "\<lambda>q. if p_ID q = p_ID p \<and> \<not> is_completed q then q\<lparr>p_Status := ''completed''\<rparr> else q"
  fix n assume "n \<in> insert (p_ID p) (p_ID ` set (filter is_completed ps))"
  then obtain q where "q \<in> set ps" "n = p_ID q" "is_completed (?f q)"
    using assms by (auto simp: is_completed_def)
  then have "?f q \<in> set (filter is_completed (with_status ''completed'' (p_ID p) ps))"
    by (auto simp: with_status_def set_update_where)
  moreover have "p_ID (?f q) = n" using \<open>n = p_ID q\<close> by simp
  ultimately show "n \<in> p_ID ` set (filter is_completed (with_status ''completed'' (p_ID p) ps))" by blast
qed

lemma credit_user_balance: "0 \<le> u_Balance u + n \<Longrightarrow> credit_user n u = u\<lparr>u_Balance := u_Balance u + n\<rparr>"
  by (simp add: credit_user_def)

lemma callback_ledger:
  assumes "callback_effect t ev t' ev'"
  shows "ledger t ev t' ev'"
  unfolding ledger_def
proof
  assume wf: "ledger_wf t"
  then have ids: "distinct (map p_ID (t_payments t))" and pos: "\<forall>u \<in> set (t_users t). 0 \<le> u_Balance u"
    and amt: "\<forall>p \<in> set (t_payments t). tops_up p \<longrightarrow> 0 \<le> p_Amount p"
    by (auto simp: ledger_wf_def)
  have wf': "ledger_wf t'" if "t_payments t' = with_status st ident (t_payments t)"
      "\<forall>u \<in> set (t_users t'). 0 \<le> u_Balance u" for st ident
    unfolding ledger_wf_def using that ids amt with_status_amounts by fastforce
  show "ledger_wf t' \<and>
     t_users t' = map (\<lambda>u. u\<lparr>u_Balance := u_Balance u + (credited (u_ID u) t' - credited (u_ID u) t)\<rparr>) (t_users t) \<and>
     completed_ids t \<subseteq> completed_ids t' \<and>
     (\<exists>ps. ev' = ev @ map payment_event ps \<and> distinct (map p_ID ps) \<and>
        set (map p_ID ps) = completed_ids t' - completed_ids t)"
    using assms unfolding callback_effect_def
  proof (elim disjE conjE bexE exE)
    assume "t_payments t' = t_payments t" "t_users t' = t_users t" "ev' = ev"
    then show ?thesis using wf by (auto simp: ledger_wf_def credited_def completed_ids_def map_idI intro!: exI [of _ "[]"])
  next
    fix st ident
    assume st: "st \<noteq> ''completed''" and p: "t_payments t' = with_status st ident (t_payments t)"
      and "t_users t' = t_users t" "ev' = ev"
    then show ?thesis using wf' [OF p] pos
      by (auto simp: credited_def completed_ids_def credit_with_status [OF st] completed_with_status [OF st]
          map_idI intro!: exI [of _ "[]"])
  next
    fix p
    assume p: "p \<in> set (t_payments t)" "\<not> is_completed p"
      and ps: "t_payments t' = with_status ''completed'' (p_ID p) (t_payments t)"
      and us: "t_users t' = credit_users p (t_users t)" and ev: "ev' = ev @ [payment_event p]"
    have "p_ID p \<notin> completed_ids t"
      using p ids by (auto simp: completed_ids_def distinct_map dest: inj_onD)
    moreover have "completed_ids t' = insert (p_ID p) (completed_ids t)"
      unfolding completed_ids_def ps by (rule completed_completed [OF p])
    moreover have "t_users t' = map (\<lambda>u. u\<lparr>u_Balance := u_Balance u + (credited (u_ID u) t' - credited (u_ID u) t)\<rparr>) (t_users t)"
      unfolding us credit_users_def update_where_def credited_def ps credit_completed [OF ids p]
      using pos amt p by (auto simp: credit_user_balance map_idI)
    moreover have "\<forall>u \<in> set (t_users t'). 0 \<le> u_Balance u"
      using pos unfolding us credit_users_def by (auto simp: set_update_where credit_user_def)
    ultimately show ?thesis using wf' [OF ps] ev by (auto intro!: exI [of _ "[p]"])
  qed
qed

lemma ProcessExternalPaymentStatus_ledger: "keeps ledger (ProcessExternalPaymentStatus extID status)"
  by (rule wp_keeps, rule wp_mono [OF ProcessExternalPaymentStatus_wp])
    (auto intro: callback_ledger ledger.state_refl)

section \<open>A callback that fails\<close>

definition demo_user :: User where
  "demo_user = \<lparr>u_ID = ''u1'', u_Username = ''ann'', u_Balance = 10, u_IsAdmin = False, u_RefCode = ''r1'',
     u_ReferredBy = None, u_Metadata = [(''telegram_id'', JNum 7)], u_IsBlocked = False, u_CreatedAt = 1\<rparr>"

definition demo_payment :: "int \<Rightarrow> string \<Rightarrow> Payment" where
  "demo_payment n status = \<lparr>p_ID = n, p_UserID = ''u1'', p_Amount = 100, p_Status = status, p_PaymentType = ''topup'',
     p_Method = ''card'', p_ExternalID = Some ''x1'', p_CustomData = [], p_PlanID = None, p_PromoCodeID = None,
     p_CreatedAt = 1\<rparr>"

definition empty_tables :: tables where
  "empty_tables = \<lparr>t_dialect = Sqlite, t_users = [], t_subs = [], t_devices = [], t_payments = [], t_plans = [],
     t_promos = [], t_rewards = [], t_notifs = [], t_bans = [], t_seq_devices = 0, t_seq_payments = 0,
     t_seq_plans = 0, t_seq_promos = 0, t_seq_rewards = 0, t_seq_bans = 0\<rparr>"

definition demo_world :: "(nat \<Rightarrow> error option) \<Rightarrow> 'd \<Rightarrow> 'd world" where
  "demo_world fault d = \<lparr>w_db = d, w_stmt = 0, w_fault = fault, w_tick = 0, w_clock = (\<lambda>n. 1000 + int n),
     w_intx = False, w_events = []\<rparr>"

text \<open>A top-up whose first callback fails at the commit.\<close>

definition demo_deliveries :: "tables world" where
  "demo_deliveries = demo_world (\<lambda>n. if n = 4 then Some (ErrDriver ''disk full'') else None)
     (empty_tables\<lparr>t_users := [demo_user], t_payments := [demo_payment 1 ''pending_card'']\<rparr>)"

text \<open>
  C26: A callback that reports an error has changed nothing in the database and announced nothing.
\<close>

theorem callback_error_changes_nothing:
  assumes "ProcessExternalPaymentStatus extID status w = (Inl e, w')"
  shows "w_db w' = w_db w \<and> w_events w' = w_events w"
  using wpD [OF ProcessExternalPaymentStatus_wp assms] by simp

theorem callback_error_changes_nothing_witness:
  "fst (ProcessExternalPaymentStatus ''x1'' ''SUCCESS'' demo_deliveries) = Inl (ErrDriver ''disk full'') \<and>
   t_payments (w_db (snd (ProcessExternalPaymentStatus ''x1'' ''SUCCESS'' demo_deliveries))) = [demo_payment 1 ''pending_card'']"
proof -
  have e: "fst (ProcessExternalPaymentStatus ''x1'' ''SUCCESS'' demo_deliveries) = Inl (ErrDriver ''disk full'')"
    by code_simp
  have "w_db (snd (ProcessExternalPaymentStatus ''x1'' ''SUCCESS'' demo_deliveries)) = w_db demo_deliveries"
    using callback_error_changes_nothing [of "''x1''" "''SUCCESS''" demo_deliveries] e
    by (metis prod.collapse)
  then show ?thesis using e by (simp add: demo_deliveries_def demo_world_def)
qed

end
