(* ===== verification/Billing_Promo.thy ===== *)
theory Billing_Promo
  imports Billing_Ledger
begin

text \<open>
  Creation of a payment: what a call that succeeds has written, that a call that fails has written
  nothing, and that no promo code is used more often than its limit, whatever pricing engine is
  installed and whatever statements fail.
\<close>

section \<open>Reading the price writes nothing\<close>

definition unchanged :: "'d state_rel" where
  "unchanged d ev d' ev' \<longleftrightarrow> d' = d \<and> ev' = ev"

interpretation unchanged: rollback_preorder unchanged
  by unfold_locales (auto simp: unchanged_def)

lemma Plans_FindByID_unchanged: "keeps unchanged (Plans_FindByID ident)"
  unfolding Plans_FindByID_def by (intro unchanged.keeps_rules)

lemma Promos_FindByCode_unchanged: "keeps unchanged (Promos_FindByCode code)"
  unfolding Promos_FindByCode_def by (intro unchanged.keeps_rules)

lemma Subs_FindLatestByUserID_unchanged: "keeps unchanged (Subs_FindLatestByUserID uid)"
  unfolding Subs_FindLatestByUserID_def by (intro unchanged.keeps_rules)

lemma Users_FindByPlatformID_unchanged: "keeps unchanged (Users_FindByPlatformID platform ident)"
  unfolding Users_FindByPlatformID_def FindUserByPlatformID_def Users_FindByID_def
  by (auto intro!: unchanged.keeps_rules split: option.splits)

lemmas lookups_unchanged = Plans_FindByID_unchanged Promos_FindByCode_unchanged
  Subs_FindLatestByUserID_unchanged Users_FindByPlatformID_unchanged

lemma call_engine_unchanged: "keeps unchanged (call_engine engine preq)"
  unfolding call_engine_def Let_def by (auto intro!: unchanged.keeps_rules split: sum.splits)

lemma legacy_promo_unchanged: "keeps unchanged (legacy_promo req)"
  unfolding legacy_promo_def Let_def
  by (auto intro!: unchanged.keeps_rules lookups_unchanged split: sum.splits option.splits)

lemma legacy_upgrade_unchanged: "keeps unchanged (legacy_upgrade req found)"
  unfolding legacy_upgrade_def Let_def
  by (auto intro!: unchanged.keeps_rules split: sum.splits option.splits)

lemma calculatePaymentPrice_unchanged: "keeps unchanged (calculatePaymentPrice engine uid req)"
proof (cases engine)
  case None
  then show ?thesis
    unfolding calculatePaymentPrice_def calculatePriceLegacy_def Let_def
    by (auto intro!: unchanged.keeps_rules lookups_unchanged legacy_promo_unchanged legacy_upgrade_unchanged
        split: sum.splits option.splits)
next
  case (Some e)
  then show ?thesis
    unfolding calculatePaymentPrice_def calculatePriceWithEngine_def find_plan_def find_promo_def
    by (auto intro!: unchanged.keeps_rules lookups_unchanged call_engine_unchanged
        split: sum.splits option.splits)
qed

section \<open>What a creation writes\<close>

definition count_use :: "PromoCode \<Rightarrow> PromoCode" where
  "count_use c = c\<lparr>pc_UsesCount := pc_UsesCount c + 1\<rparr>"

text \<open>
  The promo part: the code exists, is active and not expired, has uses left if it is limited, and the
  user has no live payment with it. The use is counted; for an unlimited code the count may be lost.
\<close>

definition promo_taken :: "string \<Rightarrow> int \<Rightarrow> 'm tables_scheme \<Rightarrow> 'm tables_scheme \<Rightarrow> bool" where
  "promo_taken uid pid t t' \<longleftrightarrow> (\<exists>c \<in> set (t_promos t). pc_ID c = pid \<and> pc_IsActive c \<and>
     (if 0 < pc_MaxUses c
      then (\<exists>c' \<in> set (t_promos t). pc_ID c' = pid \<and> pc_UsesCount c' < pc_MaxUses c) \<and>
        t' = t_promos_update (update_where (\<lambda>x. pc_ID x = pid \<and> pc_UsesCount x < pc_MaxUses c) count_use) t
      else t' = t \<or> t' = t_promos_update (update_where (\<lambda>x. pc_ID x = pid) count_use) t)) \<and>
     \<not> (\<exists>p \<in> set (t_payments t). p_UserID p = uid \<and> p_PromoCodeID p = Some pid \<and>
          p_Status p \<in> {''completed'', ''pending_card''})"

definition payment_added :: "Payment \<Rightarrow> 'm tables_scheme \<Rightarrow> 'm tables_scheme \<Rightarrow> bool" where
  "payment_added p t t' \<longleftrightarrow> \<not> list_ex (payment_clash p) (t_payments t) \<and> p_ID p = t_seq_payments t + 1 \<and>
     t' = t_payments_update (\<lambda>ps. ps @ [p]) (t_seq_payments_update (\<lambda>n. max n (p_ID p)) t)"

definition created :: "Payment \<Rightarrow> 'm tables_scheme \<Rightarrow> 'm tables_scheme \<Rightarrow> bool" where
  "created p t t' \<longleftrightarrow> p_Status p = ''pending_card'' \<and>
     (\<exists>t1. (case p_PromoCodeID p of None \<Rightarrow> t1 = t | Some pid \<Rightarrow> promo_taken (p_UserID p) pid t t1) \<and>
        payment_added p t1 t')"

lemma wp_IncrementUses [wp_rules]:
  assumes "\<And>e. E e d ev"
    and "Q (\<not> (0 < maxUses \<and> \<not> (\<exists>c \<in> set (t_promos d). pc_ID c = ident \<and> pc_UsesCount c < maxUses)))
      (t_promos_update (update_where (\<lambda>c. pc_ID c = ident \<and> (0 < maxUses \<longrightarrow> pc_UsesCount c < maxUses)) count_use) d) ev"
  shows "wp (IncrementUses ident maxUses) Q E d ev"
proof -
  have u: "count_use = (\<lambda>c. c\<lparr>pc_UsesCount := pc_UsesCount c + 1\<rparr>)" by (auto simp: count_use_def)
  have z: "count_rows p xs = 0 \<longleftrightarrow> \<not> (\<exists>x \<in> set xs. p x)" for p :: "PromoCode \<Rightarrow> bool" and xs
    by (auto simp: count_rows_def filter_empty_conv)
  show ?thesis unfolding IncrementUses_def Let_def
    by (intro wp_bind wp_map_error wp_exec wp_ret) (use assms in \<open>auto simp: u z cong: conj_cong\<close>)
qed

definition use_counted :: "PromoCode \<Rightarrow> 'm tables_scheme \<Rightarrow> 'm tables_scheme \<Rightarrow> bool" where
  "use_counted c t t' \<longleftrightarrow>
     (if 0 < pc_MaxUses c
      then (\<exists>c' \<in> set (t_promos t). pc_ID c' = pc_ID c \<and> pc_UsesCount c' < pc_MaxUses c) \<and>
        t' = t_promos_update (update_where (\<lambda>x. pc_ID x = pc_ID c \<and> pc_UsesCount x < pc_MaxUses c) count_use) t
      else t' = t \<or> t' = t_promos_update (update_where (\<lambda>x. pc_ID x = pc_ID c) count_use) t)"

lemma use_counted_payments: "use_counted c t t' \<Longrightarrow> t_payments t' = t_payments t"
  by (auto simp: use_counted_def split: if_splits)

lemma count_use_wp:
  "wp (if 0 < pc_MaxUses c
       then bind (IncrementUses (pc_ID c) (pc_MaxUses c)) (\<lambda>ok. if \<not> ok then fail (Err ''promo limit'') else ret ())
       else bind (attempt (IncrementUses (pc_ID c) 0)) (\<lambda>_. ret ()))
     (\<lambda>_ d' ev'. use_counted c d d' \<and> ev' = ev) (\<lambda>_ _ ev'. ev' = ev) d ev"
proof (cases "0 < pc_MaxUses c")
  case True
  then show ?thesis by (auto intro!: wp_rules simp: use_counted_def)
next
  case False
  then show ?thesis by (auto intro!: wp_rules simp: use_counted_def)
qed

definition live_payment :: "string \<Rightarrow> int \<Rightarrow> Payment \<Rightarrow> bool" where
  "live_payment uid pid p \<longleftrightarrow> p_UserID p = uid \<and> p_PromoCodeID p = Some pid \<and>
     p_Status p \<in> {''completed'', ''pending_card''}"

lemma promo_takenI:
  assumes "c \<in> set (t_promos t)" and "pc_IsActive c" and "use_counted c t t'"
    and "\<not> (\<exists>p \<in> set (t_payments t). live_payment uid (pc_ID c) p)"
  shows "promo_taken uid (pc_ID c) t t'"
  using assms unfolding promo_taken_def use_counted_def live_payment_def by blast

lemma no_live_wp:
  assumes "\<not> (\<exists>p \<in> set (t_payments d). live_payment uid pid p) \<Longrightarrow> Q () d ev" and "\<And>e. E e d ev"
  shows "wp (bind (CountByUserAndPromo uid pid) (\<lambda>count.
    if count > 0 then fail (Err ''promo used by user'') else ret ())) Q E d ev"
  unfolding CountByUserAndPromo_def
  by (rule wp_bind, rule wp_map_error, rule wp_query)
    (use assms in \<open>auto intro!: wp_rules simp: count_rows_pos live_payment_def\<close>)

lemma expiry_wp:
  assumes "\<And>b. wp (f b) Q E d ev"
  shows "wp (bind (case e of None \<Rightarrow> ret False | Some x \<Rightarrow> bind now (\<lambda>t. ret (\<not> t < x))) f) Q E d ev"
  by (cases e) (auto intro!: wp_bind wp_ret wp_now assms)

lemma take_promo_wp:
  "wp (take_promo uid pid) (\<lambda>_ d' ev'. promo_taken uid pid d d' \<and> ev' = ev) (\<lambda>_ _ ev'. ev' = ev) d ev"
proof -
  have tail: "wp (bind (if 0 < pc_MaxUses c
       then bind (IncrementUses pid (pc_MaxUses c)) (\<lambda>ok. if \<not> ok then fail (Err ''promo limit'') else ret ())
       else bind (attempt (IncrementUses pid 0)) (\<lambda>_. ret ())) (\<lambda>_.
     bind (CountByUserAndPromo uid pid) (\<lambda>count.
     if count > 0 then fail (Err ''promo used by user'') else ret ())))
     (\<lambda>_ d' ev'. promo_taken uid pid d d' \<and> ev' = ev) (\<lambda>_ _ ev'. ev' = ev) d ev"
    if c: "c \<in> set (t_promos d)" "pc_ID c = pid" "pc_IsActive c" for c
    unfolding c(2) [symmetric]
    by (rule wp_bind, rule wp_mono [OF count_use_wp])
      (auto intro!: no_live_wp promo_takenI [OF c(1,3)] dest: use_counted_payments)
  show ?thesis
    unfolding take_promo_def Promos_FindByID_def
    by (rule wp_bind, rule wp_map_error, rule wp_map_error, rule wp_query_first, simp, drule first_by_Some,
        rule wp_if, rule wp_fail, simp, rule expiry_wp, rule wp_if, rule wp_fail, simp, rule tail) auto
qed

lemma createdI:
  assumes "payment_added p t1 t'" and "p_Status p = ''pending_card''"
    and "case p_PromoCodeID p of None \<Rightarrow> t1 = t | Some pid \<Rightarrow> promo_taken (p_UserID p) pid t t1"
  shows "created p t t'"
  using assms by (auto simp: created_def)

lemma create_row_wp:
  assumes "p_ID payment = 0" and "p_CreatedAt payment = zero_time"
  shows "wp (Payments_Create payment)
    (\<lambda>p d' ev'. (\<exists>n ts. p = payment\<lparr>p_ID := n, p_CreatedAt := ts\<rparr>) \<and> payment_added p d d' \<and> ev' = ev)
    (\<lambda>_ _ ev'. ev' = ev) d ev"
  unfolding Payments_Create_def insert_row_def
  by (rule wp_map_error, rule wp_bind, rule wp_now, rule wp_stmt)
    (use assms in \<open>auto simp: Let_def next_id_def default_time_def payment_added_def split: if_splits\<close>)

lemma create_tx_wp:
  "wp (WithTx (bind (case promoID of None \<Rightarrow> ret () | Some pid \<Rightarrow> take_promo (u_ID user) pid) (\<lambda>_.
      Payments_Create (new_payment user req amount promoID))))
    (\<lambda>p d' ev'. created p d d' \<and> (\<exists>n ts. p = (new_payment user req amount promoID)\<lparr>p_ID := n, p_CreatedAt := ts\<rparr>) \<and> ev' = ev)
    (\<lambda>_. unchanged d ev) d ev"
proof -
  let ?T = "\<lambda>d1. case promoID of None \<Rightarrow> d1 = d | Some pid \<Rightarrow> promo_taken (u_ID user) pid d d1"
  have first: "wp (case promoID of None \<Rightarrow> ret () | Some pid \<Rightarrow> take_promo (u_ID user) pid)
      (\<lambda>_ d1 ev'. ?T d1 \<and> ev' = ev) (\<lambda>_ _ ev'. ev' = ev) d ev"
    by (cases promoID) (auto intro: wp_ret take_promo_wp)
  have new: "p_ID (new_payment user req amount promoID) = 0" "p_CreatedAt (new_payment user req amount promoID) = zero_time"
    by (simp_all add: new_payment_def)
  have made: "created p d d'" if "?T d1" "payment_added p d1 d'"
    "\<exists>n ts. p = (new_payment user req amount promoID)\<lparr>p_ID := n, p_CreatedAt := ts\<rparr>" for p d1 d'
    using that by (auto intro!: createdI simp: new_payment_def split: option.splits)
  show ?thesis
    unfolding WithTx_def
    by (rule wp_transaction, simp add: unchanged_def, rule wp_bind, rule wp_mono [OF first],
        rule wp_mono [OF create_row_wp [OF new]]) (auto simp: unchanged_def intro: made)
qed

text \<open>
  \<open>P\<close> is what is known of the price and the promo code that the calculation chose; it then holds of the
  payment that was written.
\<close>

lemma CreatePayment_price_wp:
  fixes d :: "'m tables_scheme"
  assumes price: "\<And>uid. wp (calculatePaymentPrice engine uid req) (\<lambda>x d' ev'. unchanged d ev d' ev' \<and> P x) (\<lambda>_. unchanged d ev) d ev"
  shows "wp (CreatePayment engine req) (\<lambda>p d' ev'. created p d d' \<and> p_PlanID p = cr_PlanID req \<and>
      (cr_PlanID req = None \<longrightarrow> 0 < cr_Amount req) \<and> P (p_Amount p, p_PromoCodeID p) \<and> ev' = ev) (\<lambda>_. unchanged d ev) d ev"
proof -
  have tx: "wp (WithTx (bind (case promoID of None \<Rightarrow> ret () | Some pid \<Rightarrow> take_promo (u_ID user) pid) (\<lambda>_.
      Payments_Create (new_payment user req amount promoID))))
    (\<lambda>p d' ev'. created p d d' \<and> p_PlanID p = plan \<and> P (p_Amount p, p_PromoCodeID p) \<and> ev' = ev)
    (\<lambda>_. unchanged d ev) d ev" if "P (amount, promoID)" "cr_PlanID req = plan" for user amount promoID plan
    by (rule wp_mono [OF create_tx_wp]) (use that in \<open>auto simp: new_payment_def\<close>)
  have choose: "wp (bind (calculatePaymentPrice engine uid req) f) Q (\<lambda>_. unchanged d ev) d ev"
    if "\<And>x. P x \<Longrightarrow> wp (f x) Q (\<lambda>_. unchanged d ev) d ev" for f Q uid
    by (rule wp_bind, rule wp_mono [OF price]) (use that in \<open>auto simp: unchanged_def\<close>)
  have find: "wp (bind (attempt (Users_FindByPlatformID platform ident)) f) Q E d ev"
    if "\<And>x. wp (f x) Q E d ev" for f Q E platform ident and d :: "'m tables_scheme"
    by (rule wp_bind, rule wp_attempt, rule wp_mono [OF keeps_wp [OF Users_FindByPlatformID_unchanged]])
      (use that in \<open>auto simp: unchanged_def\<close>)
  show ?thesis
    unfolding CreatePayment_def
    by (auto intro!: wp_fail find choose wp_map_error tx simp: unchanged_def not_le split: sum.splits)
qed

lemma CreatePayment_wp:
  "wp (CreatePayment engine req) (\<lambda>p d' ev'. created p d d' \<and> ev' = ev) (\<lambda>_. unchanged d ev) d ev"
  by (rule wp_mono [OF CreatePayment_price_wp [where P = "\<lambda>_. True"]])
    (auto intro: wp_mono [OF keeps_wp [OF calculatePaymentPrice_unchanged]])

section \<open>The limit of a promo code\<close>

definition promo_view :: "Payment \<Rightarrow> int \<times> int option" where
  "promo_view p = (p_ID p, p_PromoCodeID p)"

definition uses_of :: "int \<Rightarrow> 'm tables_scheme \<Rightarrow> int" where
  "uses_of pid t = count_rows (\<lambda>p. p_PromoCodeID p = Some pid) (t_payments t)"

text \<open>
  Keys are unique; a limited code is counted at least once for every payment that carries it, and never
  beyond its limit.
\<close>

definition promo_wf :: "'m tables_scheme \<Rightarrow> bool" where
  "promo_wf t \<longleftrightarrow> distinct (map p_ID (t_payments t)) \<and> distinct (map pc_ID (t_promos t)) \<and>
     (\<forall>c \<in> set (t_promos t). 0 < pc_MaxUses c \<longrightarrow> uses_of (pc_ID c) t \<le> pc_UsesCount c \<and> pc_UsesCount c \<le> pc_MaxUses c)"

definition promo_safe :: "'m tables_scheme state_rel" where
  "promo_safe t ev t' ev' \<longleftrightarrow> (promo_wf t \<longrightarrow> promo_wf t')"

interpretation promo_safe: rollback_preorder promo_safe
  by unfold_locales (auto simp: promo_safe_def)

definition promo_frame :: "'m tables_scheme state_rel" where
  "promo_frame t ev t' ev' \<longleftrightarrow> t_promos t' = t_promos t \<and>
     map promo_view (t_payments t') = map promo_view (t_payments t)"

interpretation promo_frame: rollback_preorder promo_frame
  by unfold_locales (auto simp: promo_frame_def)

lemma uses_of_view: "uses_of pid t = count_rows (\<lambda>v. snd v = Some pid) (map promo_view (t_payments t))"
  by (simp add: uses_of_def count_rows_def promo_view_def filter_map o_def)

lemma promo_frame_wf: "promo_frame t ev t' ev' \<Longrightarrow> promo_wf t \<Longrightarrow> promo_wf t'"
proof -
  have ids: "map p_ID ps = map fst (map promo_view ps)" for ps by (simp add: promo_view_def o_def)
  show "promo_frame t ev t' ev' \<Longrightarrow> promo_wf t \<Longrightarrow> promo_wf t'"
    unfolding promo_wf_def promo_frame_def uses_of_view ids by simp
qed

lemma promo_frame_safe: "keeps promo_frame m \<Longrightarrow> keeps promo_safe m"
  unfolding keeps_def promo_safe_def using promo_frame_wf by blast

lemma money_frame_promo: "keeps money_frame m \<Longrightarrow> keeps promo_frame m"
  unfolding keeps_def money_frame_def promo_frame_def by simp

lemma settle_promo: "keeps promo_frame (settle p)"
  unfolding settle_def AdjustBalance_def
  by (auto intro!: promo_frame.keeps_rules promo_frame.keeps_exec
      money_frame_promo [OF extendSubscriptionForPayment_frame] simp: promo_frame_def)

lemma view_update: "(\<And>p. promo_view (f p) = promo_view p) \<Longrightarrow>
    map promo_view (update_where h f ps) = map promo_view ps"
  by (rule map_update_where)

lemma ProcessExternalPaymentStatus_promo: "keeps promo_safe (ProcessExternalPaymentStatus extID status)"
  unfolding ProcessExternalPaymentStatus_def Let_def WithTx_def Payments_FindByExternalID_def
    Payments_UpdateStatusIfNotCompleted_def completed_event_def
  by (rule promo_frame_safe)
    (auto intro!: promo_frame.keeps_rules promo_frame.keeps_exec promo_frame.keeps_dispatch settle_promo view_update
      simp: promo_frame_def promo_view_def split: option.splits)

lemma UpdatePaymentStatus_promo: "keeps promo_safe (UpdatePaymentStatus ident status expected)"
  unfolding UpdatePaymentStatus_def Let_def WithTx_def Payments_FindByID_def
    Payments_UpdateStatus_def completed_event_def
  by (rule promo_frame_safe)
    (auto intro!: promo_frame.keeps_rules promo_frame.keeps_exec promo_frame.keeps_dispatch settle_promo view_update
      simp: promo_frame_def promo_view_def split: option.splits sum.splits)

lemma ScrubOldPayments_promo: "keeps promo_safe (ScrubOldPayments d)"
  unfolding ScrubOldPayments_def ScrubOldExternalIDs_def Let_def
  by (rule promo_frame_safe)
    (auto intro!: promo_frame.keeps_rules promo_frame.keeps_exec view_update simp: promo_frame_def promo_view_def)

lemma save_same_view:
  assumes "distinct (map p_ID ps)" and "p \<in> set ps" and "p_ID x = p_ID p" and "p_PromoCodeID x = p_PromoCodeID p"
  shows "map promo_view (update_where (\<lambda>y. p_ID x = p_ID y) (\<lambda>_. x) ps) = map promo_view ps"
  unfolding update_where_def map_map
proof (rule map_cong [OF refl])
  fix y assume "y \<in> set ps"
  then show "(promo_view \<circ> (\<lambda>y. if p_ID x = p_ID y then x else y)) y = promo_view y"
    using assms by (auto simp: promo_view_def distinct_map dest: inj_onD)
qed

lemma UpdateExternalID_promo: "keeps promo_safe (UpdateExternalID ident extID)"
proof (rule wp_keeps)
  fix d :: "'m tables_scheme" and ev
  have save: "promo_wf d \<Longrightarrow> promo_wf d'"
    if p: "p \<in> set (t_payments d)" and
      s: "save_row t_payments t_payments_update (\<lambda>x y. p_ID x = p_ID y) payment_clash (p\<lparr>p_ExternalID := e\<rparr>) d = (Inr x, d')"
    for p d' e and x :: unit
  proof -
    assume wf: "promo_wf d"
    let ?x = "p\<lparr>p_ExternalID := e\<rparr>"
    have "list_ex (\<lambda>y. p_ID ?x = p_ID y) (t_payments d)" using p by (auto simp: list_ex_iff)
    then have "d' = t_payments_update (update_where (\<lambda>y. p_ID ?x = p_ID y) (\<lambda>_. ?x)) d"
      using s by (auto simp: save_row_def split: if_splits)
    then have "promo_frame d ev d' ev"
      using save_same_view [of "t_payments d" p ?x] wf p by (simp add: promo_frame_def promo_wf_def)
    then show "promo_wf d'" using wf by (rule promo_frame_wf)
  qed
  show "wp (UpdateExternalID ident extID) (\<lambda>_. promo_safe d ev) (\<lambda>_. promo_safe d ev) d ev"
    unfolding UpdateExternalID_def WithTx_def Payments_FindByID_def Payments_Update_def
    by (rule wp_transaction, simp add: promo_safe_def, rule wp_bind, rule wp_map_error, rule wp_query_first)
      (auto dest!: first_by_Some intro!: wp_bind wp_map_error wp_stmt wp_ret dest: save simp: promo_safe_def)
qed

lemma uses_of_added:
  "payment_added p t t' \<Longrightarrow> uses_of n t' = uses_of n t + (if p_PromoCodeID p = Some n then 1 else 0)"
  by (simp add: payment_added_def uses_of_def count_rows_def)

lemma payment_added_ids:
  "payment_added p t t' \<Longrightarrow> distinct (map p_ID (t_payments t)) \<Longrightarrow> distinct (map p_ID (t_payments t'))"
  by (auto simp: payment_added_def list_ex_iff payment_clash_def)

lemma promo_row_unique:
  "distinct (map pc_ID cs) \<Longrightarrow> c \<in> set cs \<Longrightarrow> c' \<in> set cs \<Longrightarrow> pc_ID c = pc_ID c' \<Longrightarrow> c = c'"
  by (auto simp: distinct_map dest: inj_onD)

lemma promo_taken_rows:
  assumes "promo_taken uid pid t t'" and wf: "promo_wf t"
  shows "t_payments t' = t_payments t \<and> distinct (map pc_ID (t_promos t')) \<and>
    (\<forall>c' \<in> set (t_promos t'). 0 < pc_MaxUses c' \<longrightarrow>
       uses_of (pc_ID c') t + (if pc_ID c' = pid then 1 else 0) \<le> pc_UsesCount c' \<and> pc_UsesCount c' \<le> pc_MaxUses c')"
proof -
  obtain c where c: "c \<in> set (t_promos t)" "pc_ID c = pid" and u: "use_counted c t t'"
    using assms(1) unfolding promo_taken_def use_counted_def by blast
  have d: "distinct (map pc_ID (t_promos t))" using wf by (simp add: promo_wf_def)
  note uniq = promo_row_unique [OF d]
  have keep: "map pc_ID (update_where h count_use cs) = map pc_ID cs" for h cs
    by (rule map_update_where) (simp add: count_use_def)
  have old: "uses_of (pc_ID x) t \<le> pc_UsesCount x \<and> pc_UsesCount x \<le> pc_MaxUses x"
    if "x \<in> set (t_promos t)" "0 < pc_MaxUses x" for x
    using wf that by (simp add: promo_wf_def)
  show ?thesis
  proof (cases "0 < pc_MaxUses c")
    case True
    then obtain c' where "c' \<in> set (t_promos t)" "pc_ID c' = pc_ID c" "pc_UsesCount c' < pc_MaxUses c"
      and t': "t' = t_promos_update (update_where (\<lambda>x. pc_ID x = pc_ID c \<and> pc_UsesCount x < pc_MaxUses c) count_use) t"
      using u by (auto simp: use_counted_def)
    then have left: "pc_UsesCount c < pc_MaxUses c" using uniq [OF c(1)] by metis
    have "uses_of (pc_ID x') t + (if pc_ID x' = pid then 1 else 0) \<le> pc_UsesCount x' \<and> pc_UsesCount x' \<le> pc_MaxUses x'"
      if x': "x' \<in> set (t_promos t')" "0 < pc_MaxUses x'" for x'
    proof -
      obtain x where x: "x \<in> set (t_promos t)"
          "x' = (if pc_ID x = pc_ID c \<and> pc_UsesCount x < pc_MaxUses c then count_use x else x)"
        using x' by (auto simp: t' set_update_where)
      show ?thesis
      proof (cases "pc_ID x = pc_ID c")
        case same: True
        then have "x = c" using uniq c x by blast
        then show ?thesis using x left old [OF c(1) True] c(2) by (simp add: count_use_def)
      next
        case False
        then show ?thesis using x old [OF x(1)] x'(2) c(2) by simp
      qed
    qed
    then show ?thesis using d by (simp add: t' keep)
  next
    case False
    then have same: "t_payments t' = t_payments t" "distinct (map pc_ID (t_promos t'))"
      and rows: "t_promos t' = t_promos t \<or> t_promos t' = update_where (\<lambda>x. pc_ID x = pc_ID c) count_use (t_promos t)"
      using u d by (auto simp: use_counted_def keep)
    have unlimited: "\<not> 0 < pc_MaxUses x" if "x \<in> set (t_promos t)" "pc_ID x = pc_ID c" for x
      using uniq [OF that(1) c(1) that(2)] False by simp
    have "pc_ID x' \<noteq> pid \<and> x' \<in> set (t_promos t)" if "x' \<in> set (t_promos t')" "0 < pc_MaxUses x'" for x'
      using that rows unlimited c(2)
      by (elim disjE) (auto simp: set_update_where count_use_def split: if_splits)
    then show ?thesis using old same by auto
  qed
qed

lemma created_wf:
  assumes "created p t t'" and wf: "promo_wf t"
  shows "promo_wf t'"
proof -
  obtain t1 where t1: "case p_PromoCodeID p of None \<Rightarrow> t1 = t | Some pid \<Rightarrow> promo_taken (p_UserID p) pid t t1"
    and add: "payment_added p t1 t'"
    using assms(1) by (auto simp: created_def)
  have rows: "t_payments t1 = t_payments t \<and> distinct (map pc_ID (t_promos t1)) \<and>
    (\<forall>c' \<in> set (t_promos t1). 0 < pc_MaxUses c' \<longrightarrow>
       uses_of (pc_ID c') t + (if p_PromoCodeID p = Some (pc_ID c') then 1 else 0) \<le> pc_UsesCount c' \<and>
       pc_UsesCount c' \<le> pc_MaxUses c')"
  proof (cases "p_PromoCodeID p")
    case None
    then show ?thesis using t1 wf by (simp add: promo_wf_def)
  next
    case (Some pid)
    then show ?thesis using promo_taken_rows [of "p_UserID p" pid t t1] t1 wf by (auto split: if_splits)
  qed
  moreover have "t_promos t' = t_promos t1" using add by (simp add: payment_added_def)
  moreover have "uses_of n t1 = uses_of n t" for n using rows by (simp add: uses_of_def)
  ultimately show ?thesis
    using payment_added_ids [OF add] wf unfolding promo_wf_def uses_of_added [OF add] by (auto split: if_splits)
qed

lemma CreatePayment_promo: "keeps promo_safe (CreatePayment engine req)"
  by (rule wp_keeps, rule wp_mono [OF CreatePayment_wp])
    (auto simp: promo_safe_def unchanged_def dest: created_wf)

section \<open>The operations of the service in any order\<close>

datatype billing_op =
    OpCreate "pricing_fn option" CreatePaymentRequest
  | OpCallback string string
  | OpStatus int string "string list"
  | OpExternal int string
  | OpScrub duration

fun run_billing_op :: "billing_op \<Rightarrow> ('m tables_scheme, unit) prog" where
  "run_billing_op (OpCreate engine req) = bind (attempt (CreatePayment engine req)) (\<lambda>_. ret ())"
| "run_billing_op (OpCallback extID status) = bind (attempt (ProcessExternalPaymentStatus extID status)) (\<lambda>_. ret ())"
| "run_billing_op (OpStatus ident status expected) =
     bind (attempt (UpdatePaymentStatus ident status expected)) (\<lambda>_. ret ())"
| "run_billing_op (OpExternal ident extID) = bind (attempt (UpdateExternalID ident extID)) (\<lambda>_. ret ())"
| "run_billing_op (OpScrub d) = bind (attempt (ScrubOldPayments d)) (\<lambda>_. ret ())"

lemma run_billing_op_promo: "keeps promo_safe (run_billing_op oper)"
  by (cases oper) (auto intro!: promo_safe.keeps_rules CreatePayment_promo ProcessExternalPaymentStatus_promo
      UpdatePaymentStatus_promo UpdateExternalID_promo ScrubOldPayments_promo)


definition promo_request :: CreatePaymentRequest where
  "promo_request = \<lparr>cr_TelegramID = 7, cr_Email = '''', cr_Amount = 50, cr_PaymentType = ''topup'', cr_Method = ''card'',
     cr_ExternalID = '''', cr_PlanID = None, cr_MaxDevices = 0, cr_PromoCode = ''sale'', cr_Platform = ''bot'',
     cr_CustomData = []\<rparr>"

definition promo_world :: "tables world" where
  "promo_world = demo_world (\<lambda>_. None) (empty_tables\<lparr>t_users := [demo_user],
     t_promos := [demo_promo\<lparr>pc_ID := 5, pc_Code := ''SALE'', pc_MaxUses := 1, pc_UsesCount := 0,
       pc_TargetPlatform := ''all'', pc_ExpiresAt := None, pc_IsActive := True\<rparr>]\<rparr>)"

definition promo_ops :: "billing_op list" where
  "promo_ops = [OpCreate None promo_request, OpStatus 1 ''failed'' [], OpCreate (Some CalculatePrice) promo_request]"




end
