(* ===== verification/Billing_Parity.thy ===== *)
theory Billing_Parity
  imports Billing_Promo
begin

text \<open>
  The two price calculations of the payment service agree: the code kept for a service without a pricing
  engine and the default engine give the same amount and the same promo code, when the database answers
  and the clock does not move during the call. And the payment service as the client of any engine.
\<close>

section \<open>What both calculations look up\<close>

definition found_plan :: "'m tables_scheme \<Rightarrow> CreatePaymentRequest \<Rightarrow> Plan option result" where
  "found_plan d req = (case cr_PlanID req of
     None \<Rightarrow> Inr None
   | Some pid \<Rightarrow> (case first_by pn_ID (\<lambda>p. id_matches (fmt_int pid) (pn_ID p)) (t_plans d) of
       None \<Rightarrow> Inl ErrInvalidPlanID | Some p \<Rightarrow> Inr (Some p)))"

definition found_promo :: "'m tables_scheme \<Rightarrow> CreatePaymentRequest \<Rightarrow> PromoCode option" where
  "found_promo d req = (if cr_PromoCode req = '''' then None
     else first_by pc_ID (\<lambda>p. pc_Code p = to_upper (trim_space (cr_PromoCode req))) (t_promos d))"

definition found_sub :: "'m tables_scheme \<Rightarrow> string \<Rightarrow> Subscription option" where
  "found_sub d uid = first_by newest_first (\<lambda>s. s_UserID s = uid) (t_subs d)"

definition engine_request :: "time \<Rightarrow> 'm tables_scheme \<Rightarrow> string \<Rightarrow> CreatePaymentRequest \<Rightarrow> Plan option \<Rightarrow> PricingRequest" where
  "engine_request t d uid req plan =
     pricing_request uid req plan (found_promo d req) (if plan = None then None else found_sub d uid) t"

definition engine_price ::
  "pricing_fn \<Rightarrow> time \<Rightarrow> 'm tables_scheme \<Rightarrow> string \<Rightarrow> CreatePaymentRequest \<Rightarrow> (int \<times> int option) result"
where
  "engine_price engine t d uid req = (case found_plan d req of
     Inl e \<Rightarrow> Inl e
   | Inr plan \<Rightarrow> (case engine (engine_request t d uid req plan) 0 of
       Inl e \<Rightarrow> Inl (ErrWrap ''failed to calculate payment price: '' e)
     | Inr r \<Rightarrow> Inr (FinalPrice r, AppliedPromoID r)))"

definition yields :: "time \<Rightarrow> ('d, 'a) prog \<Rightarrow> 'a result \<Rightarrow> 'd \<Rightarrow> event list \<Rightarrow> bool" where
  "yields t m r d ev \<longleftrightarrow> calm_wp {t} m (\<lambda>x d' ev'. r = Inr x \<and> d' = d \<and> ev' = ev) (\<lambda>e d' ev'. r = Inl e \<and> d' = d \<and> ev' = ev) d ev"

lemma yields_fst:
  assumes "yields t m r (w_db w) (w_events w)" and "calm {t} w"
  shows "fst (m w) = r"
  using calm_wpD [OF assms [unfolded yields_def], of "fst (m w)" "snd (m w)"] by (auto split: sum.splits)

lemma yields_bind:
  assumes "yields t m (Inr x) d ev" and "yields t (f x) r d ev"
  shows "yields t (bind m f) r d ev"
  unfolding yields_def
  by (rule calm_bind, rule calm_mono [OF assms(1) [unfolded yields_def]]) (use assms(2) in \<open>auto simp: yields_def\<close>)

lemma yields_bind_error: "yields t m (Inl e) d ev \<Longrightarrow> yields t (bind m f) (Inl e) d ev"
  unfolding yields_def by (rule calm_bind, erule calm_mono) auto

lemma yields_attempt: "yields t m r d ev \<Longrightarrow> yields t (attempt m) (Inr r) d ev"
  unfolding yields_def by (rule calm_attempt, erule calm_mono) auto

lemma yields_ret: "yields t (ret x) (Inr x) d ev"
  unfolding yields_def by (auto intro: calm_ret)

lemma yields_retI: "r = Inr x \<Longrightarrow> yields t (ret x) r d ev"
  by (simp add: yields_ret)

lemma yields_fail: "yields t (fail e) (Inl e) d ev"
  unfolding yields_def by (auto intro: calm_fail)

lemma yields_now: "yields t now (Inr t) d ev"
  unfolding yields_def by (auto intro: calm_now)

lemma yields_map_error: "yields t m r d ev \<Longrightarrow> yields t (map_error f m) (case r of Inl e \<Rightarrow> Inl (f e) | Inr x \<Rightarrow> Inr x) d ev"
  unfolding yields_def by (rule calm_map_error, erule calm_mono) auto

lemma yields_first:
  "yields t (wrapped (query_first f)) (case f d of None \<Rightarrow> Inl ErrNotFound | Some x \<Rightarrow> Inr x) d ev"
  unfolding yields_def by (rule calm_map_error, rule calm_query_first) (auto simp: wrapError_def)

lemmas yields_rules = yields_ret yields_fail yields_now yields_attempt

section \<open>The engine's price\<close>

lemma find_plan_yields: "yields t (find_plan (cr_PlanID req)) (found_plan d req) d ev"
proof (cases "cr_PlanID req")
  case None
  then show ?thesis by (simp add: find_plan_def found_plan_def yields_ret)
next
  case (Some pid)
  show ?thesis
    unfolding find_plan_def found_plan_def Some Plans_FindByID_def option.case
    by (rule yields_bind [OF yields_attempt [OF yields_first]])
      (auto intro: yields_ret yields_fail split: option.splits)
qed

lemma find_promo_yields: "yields t (find_promo (cr_PromoCode req)) (Inr (found_promo d req)) d ev"
  unfolding find_promo_def found_promo_def Promos_FindByCode_def
  by (auto intro!: yields_ret yields_bind [OF yields_attempt [OF yields_first]] split: option.splits simp: ok_option_def)

lemma find_sub_yields:
  "yields t (attempt (Subs_FindLatestByUserID uid))
     (Inr (case found_sub d uid of None \<Rightarrow> Inl ErrNotFound | Some s \<Rightarrow> Inr s)) d ev"
  unfolding Subs_FindLatestByUserID_def found_sub_def by (rule yields_attempt [OF yields_first])

lemma call_engine_yields:
  assumes "pr_Now preq \<noteq> zero_time"
  shows "yields t (call_engine engine preq) (engine preq 0) d ev"
  using assms unfolding call_engine_def Let_def by (auto intro: yields_ret yields_fail split: sum.splits)

lemma calculatePriceWithEngine_yields:
  assumes "t \<noteq> zero_time"
  shows "yields t (calculatePriceWithEngine engine uid req) (engine_price engine t d uid req) d ev"
proof (cases "found_plan d req")
  case (Inl e)
  have "yields t (find_plan (cr_PlanID req)) (Inl e) d ev" using find_plan_yields [of t req d ev] Inl by simp
  then show ?thesis unfolding calculatePriceWithEngine_def engine_price_def Inl sum.case by (rule yields_bind_error)
next
  case (Inr plan)
  let ?preq = "engine_request t d uid req plan"
  have plan: "yields t (find_plan (cr_PlanID req)) (Inr plan) d ev" using find_plan_yields [of t req d ev] Inr by simp
  have sub: "yields t (if plan = None then ret None
      else bind (attempt (Subs_FindLatestByUserID uid)) (\<lambda>found. ret (ok_option found)))
      (Inr (if plan = None then None else found_sub d uid)) d ev"
    by (auto intro!: yields_ret yields_bind [OF find_sub_yields] simp: ok_option_def split: option.splits)
  have "yields t (map_error (ErrWrap ''failed to calculate payment price: '') (call_engine engine ?preq))
      (case engine ?preq 0 of Inl e \<Rightarrow> Inl (ErrWrap ''failed to calculate payment price: '' e) | Inr r \<Rightarrow> Inr r) d ev"
    by (rule yields_map_error, rule call_engine_yields) (simp add: engine_request_def pricing_request_def assms)
  then have "yields t (bind (map_error (ErrWrap ''failed to calculate payment price: '') (call_engine engine ?preq))
      (\<lambda>r. ret (FinalPrice r, AppliedPromoID r))) (engine_price engine t d uid req) d ev"
    unfolding engine_price_def Inr sum.case
    by (cases "engine ?preq 0") (auto intro: yields_bind_error yields_bind yields_ret)
  then show ?thesis
    unfolding calculatePriceWithEngine_def engine_request_def
    by (intro yields_bind [OF plan] yields_bind [OF find_promo_yields] yields_bind [OF sub] yields_bind [OF yields_now])
qed

section \<open>The legacy price\<close>

lemma legacy_upgrade_yields:
  "yields t (legacy_upgrade req (case found of None \<Rightarrow> Inl e | Some s \<Rightarrow> Inr s))
     (Inr (upgrade_cost (cr_MaxDevices req) found t)) d ev"
proof (cases "\<exists>s ends. found = Some s \<and> s_EndsAt s = Some ends")
  case True
  then obtain s ends where s: "found = Some s" "s_EndsAt s = Some ends" by blast
  show ?thesis
    unfolding legacy_upgrade_def upgrade_cost_def s option.case sum.case Let_def
    by (rule yields_bind [OF yields_now])
      (auto intro!: yields_ret yields_bind [OF yields_now])
next
  case False
  then show ?thesis
    by (cases found) (auto simp: legacy_upgrade_def upgrade_cost_def yields_ret split: option.splits)
qed

lemma legacy_promo_yields:
  "yields t (legacy_promo req) (Inr (eligiblePromo (pricing_request uid req plan (found_promo d req) sub t) t)) d ev"
proof (cases "cr_PromoCode req = []")
  case True
  then show ?thesis by (simp add: legacy_promo_def eligiblePromo_def pricing_request_def yields_ret)
next
  case False
  then have fp: "found_promo d req = first_by pc_ID (\<lambda>p. pc_Code p = to_upper (trim_space (cr_PromoCode req))) (t_promos d)"
    by (simp add: found_promo_def)
  have expiry: "yields t (bind now (\<lambda>t. ret (t < x))) (Inr (t < x)) d ev" for x
    by (rule yields_bind [OF yields_now yields_ret])
  show ?thesis
  proof (cases "found_promo d req")
    case None
    then show ?thesis
      unfolding legacy_promo_def Promos_FindByCode_def using False
      by (auto simp: fp eligiblePromo_def pricing_request_def pricingPromoFromDomain_def
          intro!: yields_bind [OF yields_attempt [OF yields_first]] yields_ret)
  next
    case (Some p)
    then show ?thesis
      unfolding legacy_promo_def Promos_FindByCode_def using False
      by (auto simp: fp eligiblePromo_def pricing_request_def pricingPromoFromDomain_def Let_def
          intro!: yields_bind [OF yields_attempt [OF yields_first]] yields_ret
          yields_bind [OF yields_ret] yields_bind [OF expiry] split: option.splits)
  qed
qed

lemma no_first_version_devices: "\<not> (m = 0 \<and> 0 < max (wrap64 (m - 3)) 0)"
  by (auto simp: wrap64_def)

lemma calculatePriceLegacy_yields:
  assumes "t \<noteq> zero_time"
  shows "yields t (calculatePriceLegacy uid req) (engine_price CalculatePrice t d uid req) d ev"
proof (cases "cr_PlanID req")
  case None
  show ?thesis
    unfolding calculatePriceLegacy_def None option.case engine_price_def found_plan_def sum.case engine_request_def
    by (rule yields_bind [OF legacy_promo_yields [where plan = None and sub = None and uid = uid]])
      (auto simp: CalculatePrice_def pricing_request_def None assms pricingPlanFromDomain_def Let_def
        intro!: yields_ret split: option.splits)
next
  case (Some pid)
  show ?thesis
  proof (cases "first_by pn_ID (\<lambda>p. id_matches (fmt_int pid) (pn_ID p)) (t_plans d)")
    case none: None
    show ?thesis
      unfolding calculatePriceLegacy_def Some option.case engine_price_def found_plan_def none sum.case Plans_FindByID_def
      by (rule yields_bind [OF yields_attempt [OF yields_first]]) (simp add: none yields_fail)
  next
    case plan: (Some plan)
    let ?preq = "engine_request t d uid req (Some plan)"
    have fields: "pr_Now ?preq = t" "pr_Plan ?preq = Some (plan\<lparr>pn_EngineIDs := []\<rparr>)" "pr_MaxDevices ?preq = cr_MaxDevices req"
      "pr_CurrentSubscription ?preq = found_sub d uid"
      "\<not> (pr_MaxDevices ?preq = 0 \<and> 0 < pr_ExtraDevices ?preq)"
      using no_first_version_devices [of "cr_MaxDevices req"]
      by (simp_all add: engine_request_def pricing_request_def pricingPlanFromDomain_def pricingSubscriptionFromDomain_def)
    have promo: "yields t (legacy_promo req) (Inr (eligiblePromo ?preq t)) d ev"
      unfolding engine_request_def by (rule legacy_promo_yields)
    show ?thesis
      unfolding calculatePriceLegacy_def Some option.case engine_price_def found_plan_def plan sum.case Plans_FindByID_def
        CalculatePrice_def fields Let_def if_not_P [OF assms] if_not_P [OF fields(5) [unfolded fields]]
      by (rule yields_bind [OF yields_attempt [OF yields_first]], unfold plan option.case sum.case,
          rule yields_bind [OF find_sub_yields], rule yields_bind [OF legacy_upgrade_yields], rule yields_bind [OF promo],
          rule yields_retI, cases "eligiblePromo ?preq t")
        (simp_all add: discounted_def extra_devices_cost_def)
  qed
qed

section \<open>The payment service as the client of a pricing engine\<close>

text \<open>
  What the service relies on: a payment without a plan costs the amount asked for, and a promo code an
  engine reports is the one it was given.
\<close>

definition price_ok :: "'m tables_scheme \<Rightarrow> CreatePaymentRequest \<Rightarrow> int \<times> int option \<Rightarrow> bool" where
  "price_ok d req x \<longleftrightarrow> (cr_PlanID req = None \<longrightarrow> fst x = cr_Amount req) \<and>
     (\<forall>i. snd x = Some i \<longrightarrow> (\<exists>c \<in> set (t_promos d). pc_ID c = i \<and> pc_Code c = to_upper (trim_space (cr_PromoCode req))))"

lemma find_plan_wp:
  "wp (find_plan planID) (\<lambda>plan d' ev'. unchanged d ev d' ev' \<and> (plan = None \<longleftrightarrow> planID = None)) (\<lambda>_. unchanged d ev) d ev"
  unfolding find_plan_def Plans_FindByID_def
  by (cases planID) (auto intro!: wp_rules simp: unchanged_def)

lemma find_promo_wp:
  "wp (find_promo code) (\<lambda>promo d' ev'. unchanged d ev d' ev' \<and>
      (\<forall>c. promo = Some c \<longrightarrow> c \<in> set (t_promos d) \<and> pc_Code c = to_upper (trim_space code))) (\<lambda>_. unchanged d ev) d ev"
  unfolding find_promo_def Promos_FindByCode_def
  by (auto intro!: wp_rules simp: unchanged_def ok_option_def dest!: first_by_Some)

lemma legacy_promo_wp:
  "wp (legacy_promo req) (\<lambda>promo d' ev'. unchanged d ev d' ev' \<and>
      (\<forall>c. promo = Some c \<longrightarrow> c \<in> set (t_promos d) \<and> pc_Code c = to_upper (trim_space (cr_PromoCode req))))
    (\<lambda>_. unchanged d ev) d ev"
  unfolding legacy_promo_def Promos_FindByCode_def Let_def
  by (auto intro!: wp_rules simp: unchanged_def dest!: first_by_Some split: option.splits if_splits)

lemma wp_then:
  assumes "wp m (\<lambda>x d' ev'. unchanged d ev d' ev' \<and> P x) E d ev" and "\<And>x. P x \<Longrightarrow> wp (f x) Q E d ev"
  shows "wp (bind m f) Q E d ev"
  by (rule wp_bind, rule wp_mono [OF assms(1)]) (use assms(2) in \<open>auto simp: unchanged_def\<close>)

lemma wp_pure: "keeps unchanged m \<Longrightarrow> wp m (\<lambda>x d' ev'. unchanged d ev d' ev' \<and> True) (\<lambda>_. unchanged d ev) d ev"
  using keeps_wp by fastforce

locale pricing_contract =
  fixes engine :: pricing_fn
  assumes topup_price: "engine req wall = Inr r \<Longrightarrow> pr_Plan req = None \<Longrightarrow> FinalPrice r = pr_Amount req"
    and applied_promo: "engine req wall = Inr r \<Longrightarrow> AppliedPromoID r = Some i \<Longrightarrow> \<exists>c. pr_Promo req = Some c \<and> pc_ID c = i"
begin

lemma call_engine_wp:
  "wp (call_engine engine preq) (\<lambda>r d' ev'. unchanged d ev d' ev' \<and>
      (pr_Plan preq = None \<longrightarrow> FinalPrice r = pr_Amount preq) \<and>
      (\<forall>i. AppliedPromoID r = Some i \<longrightarrow> (\<exists>c. pr_Promo preq = Some c \<and> pc_ID c = i))) (\<lambda>_. unchanged d ev) d ev"
  unfolding call_engine_def Let_def
  by (auto intro!: wp_rules simp: unchanged_def split: sum.splits dest: topup_price applied_promo)

lemma price_wp:
  "wp (calculatePaymentPrice (Some engine) uid req) (\<lambda>x d' ev'. unchanged d ev d' ev' \<and> price_ok d req x)
     (\<lambda>_. unchanged d ev) d ev"
  unfolding calculatePaymentPrice_def option.case calculatePriceWithEngine_def
proof (rule wp_then [OF find_plan_wp], rule wp_then [OF find_promo_wp])
  fix plan :: "Plan option" and promo :: "PromoCode option"
  assume plan: "(plan = None) = (cr_PlanID req = None)"
    and promo: "\<forall>c. promo = Some c \<longrightarrow> c \<in> set (t_promos d) \<and> pc_Code c = to_upper (trim_space (cr_PromoCode req))"
  have sub: "keeps unchanged (if plan = None then ret None
      else bind (attempt (Subs_FindLatestByUserID uid)) (\<lambda>found. ret (ok_option found)))"
    by (auto intro!: unchanged.keeps_rules lookups_unchanged)
  have last: "wp (bind (map_error (ErrWrap ''failed to calculate payment price: '')
        (call_engine engine (pricing_request uid req plan promo sub t))) (\<lambda>r. ret (FinalPrice r, AppliedPromoID r)))
      (\<lambda>x d' ev'. unchanged d ev d' ev' \<and> price_ok d req x) (\<lambda>_. unchanged d ev) d ev" for sub t
    by (rule wp_bind, rule wp_map_error, rule wp_mono [OF call_engine_wp], rule wp_ret)
      (use plan promo in \<open>auto simp: price_ok_def pricing_request_def pricingPlanFromDomain_def
        pricingPromoFromDomain_def; blast\<close>)
  show "wp (bind (if plan = None then ret None
        else bind (attempt (Subs_FindLatestByUserID uid)) (\<lambda>found. ret (ok_option found))) (\<lambda>currentSub.
      bind now (\<lambda>t. bind (map_error (ErrWrap ''failed to calculate payment price: '')
        (call_engine engine (pricing_request uid req plan promo currentSub t))) (\<lambda>r. ret (FinalPrice r, AppliedPromoID r)))))
      (\<lambda>x d' ev'. unchanged d ev d' ev' \<and> price_ok d req x) (\<lambda>_. unchanged d ev) d ev"
    by (rule wp_then [OF wp_pure [OF sub]], rule wp_bind, rule wp_now, rule last)
qed

end

lemma eligiblePromo_given: "eligiblePromo req t = Some p \<Longrightarrow> pr_Promo req = Some p"
  by (simp add: eligiblePromo_def Let_def split: if_splits option.splits)

lemma CalculatePrice_promo:
  assumes "CalculatePrice req wall = Inr r" and "AppliedPromoID r = Some i"
  shows "\<exists>c t. eligiblePromo req t = Some c \<and> pc_ID c = i"
proof -
  let ?t = "if pr_Now req = zero_time then wall else pr_Now req"
  have "AppliedPromoID r = None \<or> AppliedPromoID r = map_option pc_ID (eligiblePromo req ?t)"
  proof (cases "pr_Plan req")
    case None
    then show ?thesis using assms(1) unfolding CalculatePrice_def Let_def
      by (cases "eligiblePromo req ?t") (auto split: if_split_asm)
  next
    case (Some plan)
    have gen: "(Inr (if g < p then \<lparr>FinalPrice = g, DiscountPercent = n, AppliedPromo = c, AppliedPromoID = None\<rparr> else
        (case e of None \<Rightarrow> \<lparr>FinalPrice = p, DiscountPercent = 0, AppliedPromo = c, AppliedPromoID = None\<rparr>
         | Some q \<Rightarrow> \<lparr>FinalPrice = p, DiscountPercent = pc_DiscountPercent q, AppliedPromo = pc_Code q,
             AppliedPromoID = Some (pc_ID q)\<rparr>)) :: PricingResult result) = Inr r \<Longrightarrow>
        AppliedPromoID r = None \<or> AppliedPromoID r = map_option pc_ID e"
      for g p n c e by (cases e; cases "g < p") auto
    show ?thesis using assms(1) unfolding CalculatePrice_def Let_def Some option.case by (rule gen)
  qed
  then have "map_option pc_ID (eligiblePromo req ?t) = Some i" using assms(2) by (elim disjE) simp_all
  then show ?thesis by (cases "eligiblePromo req ?t") auto
qed

interpretation default_pricing: pricing_contract CalculatePrice
proof
  show "FinalPrice r = pr_Amount req" if "CalculatePrice req wall = Inr r" "pr_Plan req = None" for req wall r
    using that(1) unfolding CalculatePrice_def Let_def that(2) option.case by (auto split: if_splits option.splits)
  show "\<exists>c. pr_Promo req = Some c \<and> pc_ID c = i" if "CalculatePrice req wall = Inr r" "AppliedPromoID r = Some i" for req wall r i
    using CalculatePrice_promo [OF that] eligiblePromo_given by blast
qed

lemma legacy_price_wp:
  "wp (calculatePaymentPrice None uid req) (\<lambda>x d' ev'. unchanged d ev d' ev' \<and> price_ok d req x) (\<lambda>_. unchanged d ev) d ev"
proof (cases "cr_PlanID req")
  case None
  show ?thesis
    unfolding calculatePaymentPrice_def option.case calculatePriceLegacy_def None
    by (rule wp_then [OF legacy_promo_wp], rule wp_ret) (auto simp: unchanged_def price_ok_def)
next
  case (Some pid)
  have promo_price: "wp (bind (legacy_promo req) (\<lambda>promo. ret (if g < pp promo then (g, None) else (pp promo, map_option pc_ID promo))))
      (\<lambda>x d' ev'. unchanged d ev d' ev' \<and> price_ok d req x) (\<lambda>_. unchanged d ev) d ev" for g pp
    by (rule wp_then [OF legacy_promo_wp], rule wp_ret) (auto simp: unchanged_def price_ok_def Some)
  have subs: "wp (bind (attempt (Subs_FindLatestByUserID uid)) (\<lambda>foundSub. bind (legacy_upgrade req foundSub) f))
      Q (\<lambda>_. unchanged d ev) d ev" if "\<And>x. wp (f x) Q (\<lambda>_. unchanged d ev) d ev" for f Q
    by (rule wp_then [OF wp_pure], rule unchanged.keeps_attempt [OF Subs_FindLatestByUserID_unchanged],
        rule wp_then [OF wp_pure [OF legacy_upgrade_unchanged]], rule that)
  show ?thesis
    unfolding calculatePaymentPrice_def option.case calculatePriceLegacy_def Some Let_def
  proof (rule wp_then [OF wp_pure [OF unchanged.keeps_attempt [OF Plans_FindByID_unchanged]]], goal_cases)
    case (1 foundPlan)
    show ?case
    proof (cases foundPlan)
      case (Inl e)
      show ?thesis unfolding Inl sum.case by (rule wp_fail) (simp add: unchanged_def)
    next
      case (Inr plan)
      show ?thesis unfolding Inr sum.case by (rule subs, rule promo_price)
    qed
  qed
qed

section \<open>The ledger over the whole traffic of customers and provider\<close>

lemma promo_taken_frame: "promo_taken uid pid t t' \<Longrightarrow> t_users t' = t_users t \<and> t_payments t' = t_payments t"
  unfolding promo_taken_def by (auto split: if_splits)

lemma created_frame:
  assumes "created p t t'"
  shows "t_users t' = t_users t" and "t_payments t' = t_payments t @ [p]" and "p_ID p \<notin> p_ID ` set (t_payments t)"
    and "\<not> is_completed p"
proof -
  obtain t1 where "t_users t1 = t_users t" "t_payments t1 = t_payments t" and a: "payment_added p t1 t'"
    and "p_Status p = ''pending_card''"
    using assms unfolding created_def by (auto split: option.splits dest: promo_taken_frame)
  then show "t_users t' = t_users t" "t_payments t' = t_payments t @ [p]" "p_ID p \<notin> p_ID ` set (t_payments t)"
    "\<not> is_completed p"
    by (auto simp: payment_added_def list_ex_iff payment_clash_def is_completed_def)
qed

lemma created_ledger:
  assumes "created p t t'" and "tops_up p \<Longrightarrow> 0 \<le> p_Amount p"
  shows "ledger t ev t' ev"
  using assms(2) created_frame [OF assms(1)]
  by (auto simp: ledger_def ledger_wf_def credited_def completed_ids_def credit_of_def map_idI intro!: exI [of _ "[]"])

definition ledger_view :: "Payment \<Rightarrow> Payment" where
  "ledger_view p = p\<lparr>p_ExternalID := None\<rparr>"

lemma ledger_view_fields:
  "p_ID (ledger_view p) = p_ID p" "is_completed (ledger_view p) = is_completed p" "tops_up (ledger_view p) = tops_up p"
  "p_Amount (ledger_view p) = p_Amount p" "credit_of uid (ledger_view p) = credit_of uid p"
  by (simp_all add: ledger_view_def is_completed_def tops_up_def credit_of_def)

lemma view_ledger:
  assumes "map ledger_view (t_payments t') = map ledger_view (t_payments t)" and "t_users t' = t_users t"
  shows "ledger t ev t' ev"
proof -
  have ids: "map p_ID ps = map p_ID (map ledger_view ps)" for ps by (simp add: ledger_view_fields o_def)
  have cr: "map (credit_of uid) ps = map (credit_of uid) (map ledger_view ps)" for uid ps
    by (simp add: ledger_view_fields o_def)
  have compl: "p_ID ` set (filter is_completed ps) = p_ID ` set (filter is_completed (map ledger_view ps))" for ps
    by (force simp: ledger_view_fields image_iff)
  have am: "(\<forall>p \<in> set ps. tops_up p \<longrightarrow> 0 \<le> p_Amount p) \<longleftrightarrow> (\<forall>p \<in> set (map ledger_view ps). tops_up p \<longrightarrow> 0 \<le> p_Amount p)" for ps
    by (auto simp: ledger_view_fields)
  show ?thesis
    unfolding ledger_def ledger_wf_def credited_def completed_ids_def
    unfolding ids [of "t_payments t'"] ids [of "t_payments t"] cr [of _ "t_payments t'"] cr [of _ "t_payments t"]
      compl [of "t_payments t'"] compl [of "t_payments t"] am [of "t_payments t'"] am [of "t_payments t"] assms
    by (auto simp: map_idI intro!: exI [of _ "[]"])
qed

lemma ScrubOldPayments_ledger: "keeps ledger (ScrubOldPayments age)"
  unfolding ScrubOldPayments_def ScrubOldExternalIDs_def Let_def
  by (intro ledger.keeps_basics ledger.keeps_exec view_ledger)
    (auto intro!: map_update_where simp: ledger_view_def)

lemma UpdateExternalID_ledger: "keeps ledger (UpdateExternalID ident extID)"
proof (rule wp_keeps)
  fix d :: "'m tables_scheme" and ev
  have save: "ledger d ev d' ev"
    if p: "p \<in> set (t_payments d)" and
      s: "save_row t_payments t_payments_update (\<lambda>x y. p_ID x = p_ID y) payment_clash (p\<lparr>p_ExternalID := e\<rparr>) d = (Inr x, d')"
    for p d' e and x :: unit
  proof (cases "distinct (map p_ID (t_payments d))")
    case True
    let ?x = "p\<lparr>p_ExternalID := e\<rparr>"
    have "list_ex (\<lambda>y. p_ID ?x = p_ID y) (t_payments d)" using p by (auto simp: list_ex_iff)
    then have d': "d' = t_payments_update (update_where (\<lambda>y. p_ID ?x = p_ID y) (\<lambda>_. ?x)) d"
      using s by (auto simp: save_row_def split: if_splits)
    have "y = p" if "y \<in> set (t_payments d)" "p_ID p = p_ID y" for y
      using that p True by (auto simp: distinct_map dest: inj_onD)
    then have "map ledger_view (t_payments d') = map ledger_view (t_payments d)"
      unfolding d' by (auto simp: update_where_def ledger_view_def)
    then show ?thesis by (rule view_ledger) (simp add: d')
  next
    case False
    then show ?thesis by (simp add: ledger_def ledger_wf_def)
  qed
  show "wp (UpdateExternalID ident extID) (\<lambda>_. ledger d ev) (\<lambda>_. ledger d ev) d ev"
    unfolding UpdateExternalID_def WithTx_def Payments_FindByID_def Payments_Update_def
    by (rule wp_transaction, simp add: ledger.state_refl, rule wp_bind, rule wp_map_error, rule wp_query_first)
      (auto dest!: first_by_Some intro!: wp_bind wp_map_error wp_stmt wp_ret ledger.state_refl dest: save)
qed

text \<open>The engines the ledger relies on: none, or one that keeps the contract.\<close>

definition trusted_engine :: "pricing_fn option \<Rightarrow> bool" where
  "trusted_engine engine \<longleftrightarrow> (case engine of None \<Rightarrow> True | Some e \<Rightarrow> pricing_contract e)"

lemma trusted_price_wp:
  "trusted_engine engine \<Longrightarrow> wp (calculatePaymentPrice engine uid req)
     (\<lambda>x d' ev'. unchanged d ev d' ev' \<and> price_ok d req x) (\<lambda>_. unchanged d ev) d ev"
  using pricing_contract.price_wp legacy_price_wp by (cases engine) (auto simp: trusted_engine_def)

lemma CreatePayment_ledger: "trusted_engine engine \<Longrightarrow> keeps ledger (CreatePayment engine req)"
  by (rule wp_keeps, rule wp_mono [OF CreatePayment_price_wp [OF trusted_price_wp]])
    (auto simp: unchanged_def price_ok_def tops_up_def intro!: created_ledger ledger.state_refl)

text \<open>What customers and the provider do: everything but the status change by an administrator.\<close>

fun customer_op :: "billing_op \<Rightarrow> bool" where
  "customer_op (OpCreate engine req) = trusted_engine engine"
| "customer_op (OpStatus ident status expected) = False"
| "customer_op _ = True"

lemma customer_op_ledger: "customer_op oper \<Longrightarrow> keeps ledger (run_billing_op oper)"
  by (cases oper) (auto intro!: ledger.keeps_basics CreatePayment_ledger ProcessExternalPaymentStatus_ledger
      UpdateExternalID_ledger ScrubOldPayments_ledger)

lemma customer_ops_ledger: "list_all customer_op ops \<Longrightarrow> keeps ledger (for_each run_billing_op ops)"
  by (induction ops) (auto intro: ledger.keeps_ret ledger.keeps_bind customer_op_ledger)

definition traffic_ops :: "billing_op list" where
  "traffic_ops = [OpCreate (Some CalculatePrice) (promo_request\<lparr>cr_ExternalID := ''x1''\<rparr>), OpCallback ''x1'' ''SUCCESS'',
     OpCallback ''x1'' ''CONFIRMED'', OpExternal 1 ''x2'', OpCallback ''x2'' ''completed'', OpScrub 0]"

definition traffic_world :: "tables world" where
  "traffic_world = promo_world\<lparr>w_fault := (\<lambda>n. if n = 12 then Some (ErrDriver ''disk full'') else None)\<rparr>"

lemma traffic_customer: "list_all customer_op traffic_ops"
  by (simp add: traffic_ops_def trusted_engine_def default_pricing.pricing_contract_axioms)

text \<open>
  C1: Whatever customers order and whatever callbacks the provider sends, in whatever order and however
  often, with any pricing engine that keeps its contract and whichever statements fail, the balance of
  every user grows by exactly the sum of the top-ups that became completed, and no other field of a user
  changes.
\<close>

theorem billing_credits_exactly:
  assumes "ledger_wf (w_db w)" and "list_all customer_op ops" and "for_each run_billing_op ops w = (r, w')"
  shows "t_users (w_db w') = map (\<lambda>u. u\<lparr>u_Balance := u_Balance u
    + (credited (u_ID u) (w_db w') - credited (u_ID u) (w_db w))\<rparr>) (t_users (w_db w))"
  using keepsD [OF customer_ops_ledger [OF assms(2)] assms(3)] assms(1) by (simp add: ledger_def)

theorem billing_credits_exactly_witness:
  "map u_Balance (t_users (w_db (snd (for_each run_billing_op traffic_ops traffic_world)))) = [60]"
proof -
  have wf: "ledger_wf (w_db traffic_world)" by code_simp
  have "map u_Balance (t_users (w_db (snd (for_each run_billing_op traffic_ops traffic_world)))) =
      map (\<lambda>u. u_Balance u + (credited (u_ID u) (w_db (snd (for_each run_billing_op traffic_ops traffic_world)))
        - credited (u_ID u) (w_db traffic_world))) (t_users (w_db traffic_world))"
    by (subst billing_credits_exactly [OF wf traffic_customer]) (auto simp: prod_eq_iff)
  also have "\<dots> = [60]" by code_simp
  finally show ?thesis .
qed



text \<open>
  C28: The calculation kept for a service without a pricing engine and the default engine agree: on a
  database that answers and a clock that stands still they give the same amount and promo code, or the
  same error.
\<close>

theorem legacy_price_agrees:
  assumes "calm {t} w" and "t \<noteq> zero_time"
  shows "fst (calculatePaymentPrice None uid req w) = fst (calculatePaymentPrice (Some CalculatePrice) uid req w)"
  unfolding calculatePaymentPrice_def option.case
    yields_fst [OF calculatePriceLegacy_yields [OF assms(2)] assms(1)]
    yields_fst [OF calculatePriceWithEngine_yields [OF assms(2)] assms(1)] ..

definition parity_world :: "tables world" where
  "parity_world = (demo_world (\<lambda>_. None) (empty_tables\<lparr>t_users := [demo_user], t_plans := [demo_plan],
     t_promos := [demo_promo]\<rparr>))\<lparr>w_clock := (\<lambda>_. 1000)\<rparr>"

theorem legacy_price_agrees_witness:
  "fst (calculatePaymentPrice None ''u1'' (promo_request\<lparr>cr_PlanID := Some (pn_ID demo_plan), cr_MaxDevices := 5\<rparr>) parity_world) =
   fst (calculatePaymentPrice (Some CalculatePrice) ''u1'' (promo_request\<lparr>cr_PlanID := Some (pn_ID demo_plan), cr_MaxDevices := 5\<rparr>) parity_world)"
  by (rule legacy_price_agrees [of 1000]) (auto simp: calm_def parity_world_def demo_world_def zero_time_def)

end
