(* ===== verification/Renewal.thy ===== *)
theory Renewal
  imports Billing_Parity
begin

text \<open>
  The extension of a subscription (\<^verbatim>\<open>AutoRenewSubscription\<close>) and the path of the money for it: what a
  renewal writes, that a renewal that fails writes nothing, and that a plan payment confirmed by the
  provider does extend the subscription when the database answers.
\<close>

section \<open>What a renewal writes\<close>

definition notifs_only :: "'m tables_scheme state_rel" where
  "notifs_only t ev t' ev' \<longleftrightarrow> (\<exists>ns. t' = t\<lparr>t_notifs := ns\<rparr>) \<and> ev' = ev"

lemma notifs_onlyI: "t' = t\<lparr>t_notifs := ns\<rparr> \<Longrightarrow> notifs_only t ev t' ev"
  by (auto simp: notifs_only_def)

interpretation notifs: rollback_preorder "notifs_only :: 'm tables_scheme state_rel"
proof
  show "notifs_only d ev d ev" for d :: "'m tables_scheme" and ev
    by (rule notifs_onlyI [where ns = "t_notifs d"]) simp
  show "notifs_only a ev c ev2" if "notifs_only a ev b ev1" "notifs_only b ev1 c ev2" for a b c :: "'m tables_scheme" and ev ev1 ev2
    using that by (auto simp: notifs_only_def)
  show "notifs_only a ev a ev1" if "notifs_only a ev b ev1" for a b :: "'m tables_scheme" and ev ev1
    using that by (auto simp: notifs_only_def intro!: exI [of _ "t_notifs a"])
qed

lemma reset_notifs_only: "keeps notifs_only (resetNotificationsForEndsAtTx subID endsAt levels)"
proof -
  have upd: "notifs_only d ev (t_notifs_update f d) ev" for d :: "'m tables_scheme" and ev f
    by (rule notifs_onlyI [where ns = "f (t_notifs d)"]) simp
  show ?thesis
    unfolding resetNotificationsForEndsAtTx_def Notifications_DeleteBySubscriptionID_def insert_notif_def Let_def
    by (cases endsAt) (auto intro!: notifs.keeps_rules notifs.keeps_exec upd notifs.state_refl)
qed

definition charged :: "string \<Rightarrow> int \<Rightarrow> 'm tables_scheme \<Rightarrow> User list \<Rightarrow> bool" where
  "charged uid price t users' \<longleftrightarrow>
     (if price > 0 then (\<exists>u \<in> set (t_users t). u_ID u = uid \<and> price \<le> u_Balance u) \<and>
        users' = update_where (\<lambda>u. u_ID u = uid \<and> price \<le> u_Balance u) (\<lambda>u. u\<lparr>u_Balance := u_Balance u - price\<rparr>) (t_users t)
      else users' = t_users t)"

definition renewed_row :: "Plan \<Rightarrow> Subscription \<Rightarrow> int \<Rightarrow> time \<Rightarrow> time \<Rightarrow> Subscription \<Rightarrow> Subscription" where
  "renewed_row plan sub maxDevices ts ts' s = s\<lparr>s_Status := ''active'', s_EndsAt := Some (renewal_end ts sub plan),
     s_MaxDevices := maxDevices, s_Metadata := plan_metadata plan (s_Metadata sub), s_UpdatedAt := ts'\<rparr>"

text \<open>The renewal of the newest subscription of a user for a plan.\<close>

definition renewed :: "string \<Rightarrow> int \<Rightarrow> int \<Rightarrow> int \<Rightarrow> 'm tables_scheme \<Rightarrow> 'm tables_scheme \<Rightarrow> bool" where
  "renewed uid pid price maxDevices t t' \<longleftrightarrow> (\<exists>sub plan ts ts'.
     first_by newest_first (\<lambda>s. s_UserID s = uid) (t_subs t) = Some sub \<and>
     first_by pn_ID (\<lambda>p. pn_ID p = pid) (t_plans t) = Some plan \<and>
     charged uid price t (t_users t') \<and>
     t_subs t' = update_where (\<lambda>s. s_ID s = s_ID sub) (renewed_row plan sub maxDevices ts ts') (t_subs t) \<and>
     t_payments t' = t_payments t \<and> t_plans t' = t_plans t)"

lemma renewed_row_fun: "renewed_row plan sub maxDevices ts ts' = (\<lambda>s. s\<lparr>s_Status := ''active'',
    s_EndsAt := Some (renewal_end ts sub plan), s_MaxDevices := maxDevices,
    s_Metadata := plan_metadata plan (s_Metadata sub), s_UpdatedAt := ts'\<rparr>)"
  by (rule ext) (simp add: renewed_row_def)

lemma renewedI:
  assumes "first_by newest_first (\<lambda>s. s_UserID s = uid) (t_subs t) = Some sub"
    and "first_by pn_ID (\<lambda>p. pn_ID p = pid) (t_plans t) = Some plan" and "charged uid price t (t_users t')"
    and "t_subs t' = update_where (\<lambda>s. s_ID s = s_ID sub) (renewed_row plan sub maxDevices ts ts') (t_subs t)"
    and "t_payments t' = t_payments t" and "t_plans t' = t_plans t"
  shows "renewed uid pid price maxDevices t t'"
  using assms unfolding renewed_def by blast

lemma charge_wp:
  "wp (if price > 0 then charge_balance uid price else ret ())
     (\<lambda>_ d' ev'. charged uid price d (t_users d') \<and> d' = d\<lparr>t_users := t_users d'\<rparr> \<and> ev' = ev) (\<lambda>_ _ ev'. ev' = ev) d ev"
proof -
  have z: "count_rows p xs = 0 \<longleftrightarrow> \<not> (\<exists>x \<in> set xs. p x)" for p :: "User \<Rightarrow> bool" and xs
    by (auto simp: count_rows_def filter_empty_conv)
  show ?thesis
    unfolding charge_balance_def Let_def
    by (auto intro!: wp_rules simp: charged_def z)
qed

lemma update_where_twice:
  "(\<And>x. p x \<Longrightarrow> p (f x)) \<Longrightarrow> update_where p g (update_where p f xs) = update_where p (\<lambda>x. g (f x)) xs"
  by (induction xs) auto

lemma AutoRenewSubscription_wp:
  "wp (AutoRenewSubscription uid (Some pid) price ends maxDevices) (\<lambda>_ d' ev'. renewed uid pid price maxDevices d d' \<and> ev' = ev)
     (\<lambda>_. unchanged d ev) d ev"
proof -
  let ?row = "\<lambda>sub e ts s. s\<lparr>s_Status := ''active'', s_EndsAt := Some e, s_MaxDevices := maxDevices, s_UpdatedAt := ts\<rparr>"
  have tail: "wp (bind (exec (\<lambda>t. ((), t_subs_update (update_where (\<lambda>s. s_ID s = s_ID sub) (?row sub (renewal_end ts sub plan) ts1)) t))) (\<lambda>_.
       bind (resetNotificationsForEndsAtTx (s_ID sub) (Some (renewal_end ts sub plan)) []) (\<lambda>_.
       bind now (\<lambda>ts'. exec (\<lambda>t. ((), t_subs_update (update_where (\<lambda>s. s_ID s = s_ID sub)
         (\<lambda>s. s\<lparr>s_Metadata := plan_metadata plan (s_Metadata sub), s_UpdatedAt := ts'\<rparr>)) t))))))
     (\<lambda>_ d' ev'. renewed uid pid price maxDevices d d' \<and> ev' = ev) (\<lambda>_ _ ev'. ev' = ev) d1 ev"
    if sub: "first_by newest_first (\<lambda>s. s_UserID s = uid) (t_subs d) = Some sub"
      and plan: "first_by pn_ID (\<lambda>p. pn_ID p = pid) (t_plans d) = Some plan"
      and d1: "charged uid price d (t_users d1)" "d1 = d\<lparr>t_users := t_users d1\<rparr>" for sub plan ts ts1 d1
  proof -
    have rows: "update_where (\<lambda>s. s_ID s = s_ID sub) (\<lambda>s. s\<lparr>s_Metadata := m, s_UpdatedAt := ts'\<rparr>)
        (update_where (\<lambda>s. s_ID s = s_ID sub) (?row sub e ts1) xs) =
      update_where (\<lambda>s. s_ID s = s_ID sub) (\<lambda>s. s\<lparr>s_Status := ''active'', s_EndsAt := Some e,
        s_MaxDevices := maxDevices, s_Metadata := m, s_UpdatedAt := ts'\<rparr>) xs" for m e ts' xs
      by (subst update_where_twice) simp_all
    have fields: "t_subs d1 = t_subs d" "t_payments d1 = t_payments d" "t_plans d1 = t_plans d"
      by (subst d1(2), simp)+
    show ?thesis
      apply (rule wp_bind, rule wp_exec, simp, rule wp_bind, rule wp_mono [OF keeps_wp [OF reset_notifs_only]])
       apply (rule wp_bind, rule wp_now, rule wp_exec)
        apply (auto simp: notifs_only_def)[1]
       apply (use d1(1) in \<open>auto simp: notifs_only_def fields rows renewed_row_fun
         intro!: renewedI [OF sub plan, where ts = ts]\<close>)[1]
      apply (simp add: notifs_only_def)
      done
  qed
  show ?thesis
    unfolding AutoRenewSubscription_def option.case
    apply (rule wp_transaction, simp add: unchanged_def)
    apply (rule wp_bind, rule wp_map_error, rule wp_query_first, simp add: unchanged_def)
    apply (rule wp_bind, rule wp_bind, rule wp_map_error, rule wp_query_first, simp add: unchanged_def)
    apply (rule wp_bind, rule wp_now, rule wp_ret)
    apply (simp only: prod.case option.distinct if_False)
    apply (rule wp_bind, rule wp_mono [OF charge_wp])
     apply (rule wp_bind, rule wp_now)
     apply (elim conjE, hypsubst, rule wp_mono [OF tail], assumption+)
      apply (simp_all add: unchanged_def)
    done
qed

section \<open>A renewal succeeds\<close>

abbreviation succeeds :: "time set \<Rightarrow> ('d, 'a) prog \<Rightarrow> 'd \<Rightarrow> event list \<Rightarrow> bool" where
  "succeeds C m d ev \<equiv> calm_wp C m (\<lambda>_ _ _. True) (\<lambda>_ _ _. False) d ev"

lemma reset_succeeds: "succeeds C (resetNotificationsForEndsAtTx subID endsAt levels) d ev"
proof -
  have each: "succeeds C (for_each (\<lambda>lvl. bind (insert_notif (n lvl)) (\<lambda>_. ret ())) lvls) d ev" for n lvls d ev
    unfolding insert_notif_def
    by (rule calm_for_each [where P = "\<lambda>_ _ _. True"]) (auto intro!: calm_rules)
  show ?thesis
    unfolding resetNotificationsForEndsAtTx_def Notifications_DeleteBySubscriptionID_def Let_def
    by (cases endsAt) (auto intro!: calm_rules each)
qed

lemma AutoRenewSubscription_succeeds:
  assumes "first_by newest_first (\<lambda>s. s_UserID s = uid) (t_subs d) = Some sub"
    and "first_by pn_ID (\<lambda>p. pn_ID p = pid) (t_plans d) = Some plan"
  shows "succeeds C (AutoRenewSubscription uid (Some pid) 0 ends maxDevices) d ev"
  unfolding AutoRenewSubscription_def
  by (auto intro!: calm_rules calm_mono [OF reset_succeeds] simp: assms)

lemma extendSubscriptionForPayment_calm:
  assumes "p_PlanID p = Some pid"
    and sub: "first_by newest_first (\<lambda>s. s_UserID s = p_UserID p) (t_subs d) = Some sub"
    and plan: "first_by pn_ID (\<lambda>p. pn_ID p = pid) (t_plans d) = Some plan"
  shows "calm_wp C (extendSubscriptionForPayment p)
    (\<lambda>_ d' ev'. renewed (p_UserID p) pid 0 (extension_devices (Inr sub) (p_CustomData p)) d d' \<and> ev' = ev) (\<lambda>_ _ _. False) d ev"
  unfolding extendSubscriptionForPayment_def assms(1) option.case Subs_FindLatestByUserID_def
  by (auto intro!: calm_rules calm_mono [OF calm_and_wp [OF AutoRenewSubscription_succeeds [OF sub plan] AutoRenewSubscription_wp]]
      simp: sub)

lemma renewal_end_ge:
  assumes "0 \<le> pn_Months plan" and "s_EndsAt sub = Some e"
  shows "e + 28 * pn_Months plan * Day \<le> renewal_end ts sub plan"
  using add_months_increases [OF assms(1), of "if e > ts then e else ts"] assms(2)
  by (auto simp: renewal_end_def split: if_splits)

lemma renewed_sub:
  assumes "renewed uid pid price maxDevices t t'"
  shows "\<exists>sub plan sub' e'. first_by newest_first (\<lambda>s. s_UserID s = uid) (t_subs t) = Some sub \<and>
    first_by pn_ID (\<lambda>p. pn_ID p = pid) (t_plans t) = Some plan \<and> charged uid price t (t_users t') \<and>
    sub' \<in> set (t_subs t') \<and> s_ID sub' = s_ID sub \<and> s_Status sub' = ''active'' \<and> s_MaxDevices sub' = maxDevices \<and>
    s_EndsAt sub' = Some e' \<and> (0 \<le> pn_Months plan \<longrightarrow> (\<forall>e. s_EndsAt sub = Some e \<longrightarrow> e + 28 * pn_Months plan * Day \<le> e'))"
proof -
  obtain sub plan ts ts' where sub: "first_by newest_first (\<lambda>s. s_UserID s = uid) (t_subs t) = Some sub"
    and plan: "first_by pn_ID (\<lambda>p. pn_ID p = pid) (t_plans t) = Some plan" and c: "charged uid price t (t_users t')"
    and rows: "t_subs t' = update_where (\<lambda>s. s_ID s = s_ID sub) (renewed_row plan sub maxDevices ts ts') (t_subs t)"
    using assms unfolding renewed_def by blast
  let ?sub = "renewed_row plan sub maxDevices ts ts' sub"
  have "?sub \<in> set (t_subs t')"
    using first_by_Some [OF sub] unfolding rows set_update_where by (auto simp: image_iff intro!: bexI [of _ sub])
  then show ?thesis
    using sub plan c renewal_end_ge [of plan sub _ ts]
    by (intro exI [of _ sub] exI [of _ plan] exI [of _ ?sub] exI [of _ "renewal_end ts sub plan"])
      (auto simp: renewed_row_def)
qed

lemma renewed_payments: "renewed uid pid price maxDevices t t' \<Longrightarrow> t_payments t' = t_payments t"
  by (auto simp: renewed_def)

lemma callback_renews:
  assumes pay: "first_by p_ID (\<lambda>p. p_ExternalID p = Some extID) (t_payments d) = Some p"
    and "\<not> is_completed p" and "p_PlanID p = Some pid"
    and sub: "first_by newest_first (\<lambda>s. s_UserID s = p_UserID p) (t_subs d) = Some sub"
    and plan: "first_by pn_ID (\<lambda>p. pn_ID p = pid) (t_plans d) = Some plan"
    and "map_status status = ''completed''"
  shows "calm_wp C (ProcessExternalPaymentStatus extID status)
    (\<lambda>_ d' ev'. t_payments d' = with_status ''completed'' (p_ID p) (t_payments d) \<and> ev' = ev @ [payment_event p] \<and>
       (\<exists>d1. t_subs d1 = t_subs d \<and> t_plans d1 = t_plans d \<and>
          renewed (p_UserID p) pid 0 (extension_devices (Inr sub) (p_CustomData p)) d1 d')) (\<lambda>_ _ _. False) d ev"
proof -
  have hit: "0 < count_rows (\<lambda>q. p_ID q = p_ID p \<and> p_Status q \<noteq> ''completed'') (t_payments d)"
    using first_by_Some [OF pay] assms(2) by (auto simp: count_rows_pos is_completed_def)
  have settle: "settle p = (extendSubscriptionForPayment p :: ('m tables_scheme, unit) prog)"
    using assms(3) by (simp add: settle_def)
  have from_state: "renewed u n pr m d1 d' \<Longrightarrow> t_subs d1 = x \<Longrightarrow> t_plans d1 = y \<Longrightarrow>
      \<exists>d1. t_subs d1 = x \<and> t_plans d1 = y \<and> renewed u n pr m d1 d'" for u n pr m d1 d' x y by blast
  have ext: "calm_wp C (extendSubscriptionForPayment p)
      (\<lambda>_ d' ev'. t_payments d' = t_payments d1 \<and> ev' = ev \<and>
         renewed (p_UserID p) pid 0 (extension_devices (Inr sub) (p_CustomData p)) d1 d') (\<lambda>_ _ _. False) d1 ev"
    if "t_subs d1 = t_subs d" "t_plans d1 = t_plans d" for d1
    by (rule calm_mono [OF extendSubscriptionForPayment_calm]) (use assms that in \<open>auto dest: renewed_payments\<close>)
  show ?thesis
    unfolding ProcessExternalPaymentStatus_def Let_def assms(6) WithTx_def Payments_FindByExternalID_def
      Payments_UpdateStatusIfNotCompleted_def completed_event_def
    apply (rule calm_bind, rule calm_transaction, rule calm_bind, rule calm_map_error, rule calm_query_first)
     apply (simp_all add: pay)
    apply (use assms(2) hit in \<open>auto simp: is_completed_def settle intro!: calm_bind calm_map_error calm_exec\<close>)
    apply (rule calm_mono [OF ext])
      apply (auto intro!: calm_ret calm_dispatch simp: with_status_def is_completed_def payment_event_def)
    apply (erule from_state; simp)
    done
qed

definition renewal_sub :: Subscription where
  "renewal_sub = \<lparr>s_ID = ''s1'', s_UserID = ''u1'', s_Email = ''ann@x'', s_UUID = ''uuid1'', s_Status = ''expired'', s_MaxDevices = 3,
     s_StartsAt = None, s_EndsAt = Some 500, s_AutoRenew = False, s_Metadata = [], s_CreatedAt = 1, s_UpdatedAt = 1\<rparr>"

definition renewal_world :: "tables world" where
  "renewal_world = demo_world (\<lambda>_. None) (empty_tables\<lparr>t_users := [demo_user], t_plans := [demo_plan], t_subs := [renewal_sub],
     t_payments := [(demo_payment 1 ''pending_card'')\<lparr>p_PlanID := Some (pn_ID demo_plan)\<rparr>]\<rparr>)"





section \<open>Where the guarantees end\<close>

text \<open>
  A plan payment of a user without a subscription is completed and announced, and nothing is extended: the
  error of the extension is only logged, and the payment will not be looked at again.
\<close>

theorem plan_payment_without_extension:
  "let w = snd (ProcessExternalPaymentStatus ''x1'' ''SUCCESS'' (renewal_world\<lparr>w_db := (w_db renewal_world)\<lparr>t_subs := []\<rparr>\<rparr>))
   in map p_Status (t_payments (w_db w)) = [''completed''] \<and> length (w_events w) = 1 \<and> t_subs (w_db w) = []"
  by code_simp

text \<open>
  A status change by an administrator whose reading of the payment fails still completes the payment: it
  reports success, credits nothing and announces nothing.
\<close>

definition topup_world :: "(nat \<Rightarrow> error option) \<Rightarrow> string \<Rightarrow> tables world" where
  "topup_world fault status = demo_world fault (empty_tables\<lparr>t_users := [demo_user], t_payments := [demo_payment 1 status]\<rparr>)"

theorem status_change_loses_credit:
  "let (r, w) = UpdatePaymentStatus 1 ''completed'' []
         (topup_world (\<lambda>n. if n = 2 then Some (ErrDriver ''busy'') else None) ''pending_card'')
   in r = Inr True \<and> map p_Status (t_payments (w_db w)) = [''completed''] \<and> map u_Balance (t_users (w_db w)) = [10] \<and>
      w_events w = []"
  by code_simp

text \<open>A status change that expects the payment to be completed credits it a second time.\<close>

theorem status_change_credits_twice:
  "let (r, w) = UpdatePaymentStatus 1 ''completed'' [''completed''] (topup_world (\<lambda>_. None) ''completed'')
   in r = Inr True \<and> map u_Balance (t_users (w_db w)) = [110]"
  by code_simp

end
