(* ===== verification/Referral.thy ===== *)
theory Referral
  imports Renewal
begin

text \<open>
  The referral plugin (\<^verbatim>\<open>internal/plugins/referral/plugin.go\<close>): the handler of the event that a payment is
  completed, and that however often the event comes, the referrer is rewarded once for the payment.
\<close>

section \<open>The handler\<close>

definition Referral_Handle :: "event \<Rightarrow> ('m tables_scheme, unit) prog" where
  "Referral_Handle ev =
     (if ev_Type ev = ''payment.completed'' then
        (case map_of (ev_Data ev) ''payment_id'' of
           Some (JNum paymentID) \<Rightarrow>
             bind (Payments_FindByID (fmt_int paymentID)) (\<lambda>payment.
             bind (attempt (Users_FindByID (p_UserID payment))) (\<lambda>found. case found of
               Inl _ \<Rightarrow> ret ()
             | Inr user \<Rightarrow>
                 (case u_ReferredBy user of
                    None \<Rightarrow> ret ()
                  | Some referrer \<Rightarrow>
                      (let reward = go_div (p_Amount payment) 4
                       in if reward > 0 then AddReferralReward referrer (u_ID user) (p_ID payment) reward else ret ()))))
         | _ \<Rightarrow> ret ())
      else ret ())"

section \<open>One reward per payment\<close>

text \<open>The rewards of a user add up to what they were credited.\<close>

definition rewarded :: "string \<Rightarrow> 'm tables_scheme \<Rightarrow> int" where
  "rewarded uid t = sum_list (map rw_Amount (filter (\<lambda>r. rw_ReferrerID r = uid) (t_rewards t)))"

definition rewards_kept :: "'m tables_scheme state_rel" where
  "rewards_kept t ev t' ev' \<longleftrightarrow> (distinct (map rw_PaymentID (t_rewards t)) \<longrightarrow>
     distinct (map rw_PaymentID (t_rewards t')) \<and> (\<exists>rs. t_rewards t' = t_rewards t @ rs) \<and>
     t_users t' = map (\<lambda>u. u\<lparr>u_Balance := u_Balance u + (rewarded (u_ID u) t' - rewarded (u_ID u) t)\<rparr>) (t_users t)) \<and>
     t_payments t' = t_payments t \<and> ev' = ev"

interpretation rewards: rollback_preorder rewards_kept
proof
  show "rewards_kept d ev d ev" for d :: "'m tables_scheme" and ev
    by (simp add: rewards_kept_def map_idI)
  show "rewards_kept a ev c ev2" if "rewards_kept a ev b ev1" "rewards_kept b ev1 c ev2"
    for a b c :: "'m tables_scheme" and ev ev1 ev2
    using that by (auto simp: rewards_kept_def algebra_simps)
  show "rewards_kept a ev a ev1" if "rewards_kept a ev b ev1" for a b :: "'m tables_scheme" and ev ev1
    using that by (simp add: rewards_kept_def map_idI)
qed

lemma AddReferralReward_kept: "keeps rewards_kept (AddReferralReward referrer referred paymentID reward)"
proof (rule wp_keeps)
  fix d :: "'m tables_scheme" and ev
  let ?credit = "t_users_update (update_where (\<lambda>u. u_ID u = referrer) (\<lambda>u. u\<lparr>u_Balance := u_Balance u + reward\<rparr>)) d"
  have row: "rewards_kept d ev t' ev"
    if "\<not> (\<exists>r \<in> set (t_rewards d). rw_PaymentID r = paymentID)"
      "insert_row t_rewards t_rewards_update (\<lambda>x y. rw_ID x = rw_ID y \<or> rw_PaymentID x = rw_PaymentID y)
         \<lparr>rw_ID = n, rw_ReferrerID = referrer, rw_ReferredID = referred, rw_PaymentID = paymentID, rw_Amount = reward,
           rw_CreatedAt = ts\<rparr> (t_seq_rewards_update (\<lambda>_. n) ?credit) = (Inr x, t')" for n ts t' and x :: unit
    using that by (auto simp: insert_row_def rewards_kept_def rewarded_def update_where_def split: if_splits)
  show "wp (AddReferralReward referrer referred paymentID reward) (\<lambda>_. rewards_kept d ev) (\<lambda>_. rewards_kept d ev) d ev"
    unfolding AddReferralReward_def
    by (rule wp_transaction, rule rewards.state_refl, rule wp_bind, rule wp_map_error, rule wp_query)
      (auto intro!: wp_rules rewards.state_refl row simp: Let_def count_rows_pos)
qed

lemma Referral_Handle_kept: "keeps rewards_kept (Referral_Handle ev)"
  unfolding Referral_Handle_def Payments_FindByID_def Users_FindByID_def Let_def
  by (auto intro!: rewards.keeps_rules AddReferralReward_kept split: option.splits json.splits sum.splits)

definition handle_all :: "event list \<Rightarrow> ('m tables_scheme, unit) prog" where
  "handle_all evs = for_each (\<lambda>ev. bind (attempt (Referral_Handle ev)) (\<lambda>_. ret ())) evs"

lemma handle_all_kept: "keeps rewards_kept (handle_all evs)"
  unfolding handle_all_def by (intro rewards.keeps_rules Referral_Handle_kept)

definition referral_world :: "tables world" where
  "referral_world = demo_world (\<lambda>n. if n = 4 then Some (ErrDriver ''disk full'') else None)
     (empty_tables\<lparr>t_users := [demo_user, demo_user\<lparr>u_ID := ''u2'', u_RefCode := ''r2'', u_ReferredBy := Some ''u1''\<rparr>],
        t_payments := [(demo_payment 1 ''completed'')\<lparr>p_UserID := ''u2''\<rparr>]\<rparr>)"

definition referral_events :: "event list" where
  "referral_events = replicate 3 (payment_event ((demo_payment 1 ''completed'')\<lparr>p_UserID := ''u2''\<rparr>))"

text \<open>
  C19: However often and in whatever order completed payments are announced to the referral plugin, and
  whichever statements fail, there is at most one reward per payment, no reward is ever lost, and the
  balance of every user has grown by exactly the rewards recorded for them.
\<close>

theorem referral_rewards_once:
  assumes "distinct (map rw_PaymentID (t_rewards (w_db w)))" and "handle_all evs w = (r, w')"
  shows "distinct (map rw_PaymentID (t_rewards (w_db w'))) \<and> prefix (t_rewards (w_db w)) (t_rewards (w_db w')) \<and>
    t_users (w_db w') = map (\<lambda>u. u\<lparr>u_Balance := u_Balance u
      + (rewarded (u_ID u) (w_db w') - rewarded (u_ID u) (w_db w))\<rparr>) (t_users (w_db w))"
  using keepsD [OF handle_all_kept assms(2)] assms(1) by (auto simp: rewards_kept_def)

theorem referral_rewards_once_witness:
  "map u_Balance (t_users (w_db (snd (handle_all referral_events referral_world)))) = [35, 10]"
proof -
  have d: "distinct (map rw_PaymentID (t_rewards (w_db referral_world)))" by code_simp
  have "map u_Balance (t_users (w_db (snd (handle_all referral_events referral_world)))) =
    map (\<lambda>u. u_Balance u + (rewarded (u_ID u) (w_db (snd (handle_all referral_events referral_world)))
      - rewarded (u_ID u) (w_db referral_world))) (t_users (w_db referral_world))"
    using referral_rewards_once [OF d, of referral_events "fst (handle_all referral_events referral_world)"
        "snd (handle_all referral_events referral_world)"] by (auto simp: prod_eq_iff)
  also have "\<dots> = [35, 10]" by code_simp
  finally show ?thesis .
qed

end
