(* ===== verification/Device_Limit.thy ===== *)
theory Device_Limit
  imports Renewal
begin

text \<open>
  The device limit of a subscription (\<^verbatim>\<open>TrackDevice\<close>): a device is recorded once, a new device is refused
  exactly when the limit is reached, and with a database that answers the limit is never exceeded.
\<close>

definition device_key :: "Device \<Rightarrow> string \<times> string" where
  "device_key d = (d_SubscriptionID d, d_HWID d)"

definition devices_of :: "string \<Rightarrow> 'm tables_scheme \<Rightarrow> int" where
  "devices_of subID t = count_rows (\<lambda>d. d_SubscriptionID d = subID) (t_devices t)"

definition known_device :: "string \<Rightarrow> string \<Rightarrow> 'm tables_scheme \<Rightarrow> bool" where
  "known_device subID hwid t \<longleftrightarrow> (subID, hwid) \<in> device_key ` set (t_devices t)"

lemma known_device_find:
  "find_first (\<lambda>d. d_SubscriptionID d = subID \<and> d_HWID d = hwid) (t_devices t) = None \<longleftrightarrow> \<not> known_device subID hwid t"
  by (auto simp: find_first_None known_device_def device_key_def)

text \<open>A call refreshes rows, or adds one row for a device that was not there.\<close>

definition device_step :: "string \<Rightarrow> string \<Rightarrow> 'm tables_scheme state_rel" where
  "device_step subID hwid t ev t' ev' \<longleftrightarrow> ev' = ev \<and>
     (map device_key (t_devices t') = map device_key (t_devices t) \<or>
      \<not> known_device subID hwid t \<and> map device_key (t_devices t') = map device_key (t_devices t) @ [(subID, hwid)])"

lemma devices_of_keys: "devices_of subID t = count_rows (\<lambda>k. fst k = subID) (map device_key (t_devices t))"
  by (simp add: devices_of_def count_rows_def device_key_def filter_map o_def)

text \<open>What a call writes: a refreshed row keeps its key, a new row has the key of the call.\<close>

lemma refresh_keys: "map device_key (update_where p (\<lambda>x. x\<lparr>d_DeviceModel := model, d_DeviceOS := os, d_UserAgent := ua\<rparr>) ds) = map device_key ds"
  by (rule map_update_where) (simp add: device_key_def)

lemma known_device_keys: "known_device subID hwid t \<longleftrightarrow> (subID, hwid) \<in> set (map device_key (t_devices t))"
  by (simp add: known_device_def)

lemma new_device_known:
  "known_device subID hwid (t_devices_update (\<lambda>rows. rows @ [\<lparr>d_ID = n, d_SubscriptionID = subID, d_HWID = hwid,
      d_DeviceModel = model, d_DeviceOS = os, d_UserAgent = ua\<rparr>]) t)"
  by (simp add: known_device_def device_key_def)

lemma TrackDevice_step: "keeps (device_step subID hwid) (TrackDevice subID hwid model os ua limit)"
proof (rule wp_keeps)
  fix d :: "'m tables_scheme" and ev
  have same: "device_step subID hwid d ev d ev" by (simp add: device_step_def)
  have refresh: "device_step subID hwid d ev (t_devices_update (update_where p (\<lambda>x. x\<lparr>d_DeviceModel := model, d_DeviceOS := os, d_UserAgent := ua\<rparr>)) d) ev" for p
    by (simp add: device_step_def refresh_keys)
  have add: "device_step subID hwid d ev (t_devices_update (\<lambda>rows. rows @ [\<lparr>d_ID = n, d_SubscriptionID = subID, d_HWID = hwid,
      d_DeviceModel = model, d_DeviceOS = os, d_UserAgent = ua\<rparr>]) (t_seq_devices_update f d1)) ev"
    if "find_first (\<lambda>d. d_SubscriptionID d = subID \<and> d_HWID d = hwid) (t_devices d) = None" "t_devices d1 = t_devices d" for n f d1
    using that unfolding known_device_find by (auto simp: device_step_def device_key_def)
  have touch: "device_step subID hwid d ev (t_subs_update f d) ev" for f
    by (simp add: device_step_def)
  show "wp (TrackDevice subID hwid model os ua limit) (\<lambda>_. device_step subID hwid d ev) (\<lambda>_. device_step subID hwid d ev) d ev"
    unfolding TrackDevice_def Let_def
    by (rule wp_map_error, rule wp_transaction, rule same, rule wp_bind, rule wp_query, rule same)
      (auto intro!: wp_rules same refresh add touch split: option.splits dialect.splits)
qed

text \<open>The decision of a call on a database that answers.\<close>

lemma TrackDevice_calm:
  "calm_wp C (TrackDevice subID hwid model os ua limit)
     (\<lambda>refused d' ev'. (refused \<longleftrightarrow> \<not> known_device subID hwid d \<and> limit \<le> devices_of subID d) \<and>
        (refused \<longrightarrow> t_devices d' = t_devices d) \<and> (\<not> refused \<longrightarrow> known_device subID hwid d')) (\<lambda>_ _ _. False) d ev"
proof (cases "find_first (\<lambda>d. d_SubscriptionID d = subID \<and> d_HWID d = hwid) (t_devices d)")
  case None
  then have unknown: "\<not> known_device subID hwid d" by (simp add: known_device_find)
  show ?thesis
    unfolding TrackDevice_def Let_def
    by (rule calm_map_error, rule calm_transaction, rule calm_bind, rule calm_query)
      (auto intro!: calm_rules new_device_known simp: None unknown devices_of_def split: dialect.splits)
next
  case (Some dev)
  then have known: "known_device subID hwid d" using known_device_find [of subID hwid d] by simp
  then have "known_device subID hwid (t_devices_update (update_where p (\<lambda>x. x\<lparr>d_DeviceModel := model, d_DeviceOS := os, d_UserAgent := ua\<rparr>)) d)" for p
    by (simp add: known_device_keys refresh_keys)
  then show ?thesis
    unfolding TrackDevice_def Let_def
    by (auto intro!: calm_map_error calm_transaction calm_bind calm_query calm_exec calm_ret simp: Some known)
qed

section \<open>Any sequence of connections\<close>

record connection =
  cn_sub :: string
  cn_hwid :: string
  cn_model :: string
  cn_os :: string
  cn_agent :: string
  cn_limit :: int

definition track :: "connection \<Rightarrow> ('m tables_scheme, bool) prog" where
  "track c = TrackDevice (cn_sub c) (cn_hwid c) (cn_model c) (cn_os c) (cn_agent c) (cn_limit c)"

definition track_all :: "connection list \<Rightarrow> ('m tables_scheme, unit) prog" where
  "track_all cs = for_each (\<lambda>c. bind (attempt (track c)) (\<lambda>_. ret ())) cs"

definition devices_distinct :: "'m tables_scheme state_rel" where
  "devices_distinct t ev t' ev' \<longleftrightarrow> (distinct (map device_key (t_devices t)) \<longrightarrow> distinct (map device_key (t_devices t')))"

interpretation devices_distinct: state_preorder devices_distinct
  by unfold_locales (auto simp: devices_distinct_def)

lemma track_all_distinct: "keeps devices_distinct (track_all cs)"
proof -
  have "devices_distinct t ev t' ev'" if "device_step subID hwid t ev t' ev'" for subID hwid t ev t' ev'
    using that by (auto simp: device_step_def devices_distinct_def known_device_def)
  then have "keeps devices_distinct (track c)" for c
    using TrackDevice_step unfolding track_def keeps_def by blast
  then show ?thesis unfolding track_all_def by (auto intro!: devices_distinct.keeps_basics)
qed

lemma track_within:
  assumes "\<forall>c \<in> set cs. cn_sub c = subID \<longrightarrow> cn_limit c \<le> limit" and "devices_of subID d \<le> limit"
  shows "calm_wp C (track_all cs) (\<lambda>_ d' _. devices_of subID d' \<le> limit) (\<lambda>_ _ _. False) d ev"
  unfolding track_all_def
proof (rule calm_for_each [where P = "\<lambda>cs d _. (\<forall>c \<in> set cs. cn_sub c = subID \<longrightarrow> cn_limit c \<le> limit) \<and> devices_of subID d \<le> limit",
      THEN calm_mono])
  fix c :: connection and cs and d :: "'m tables_scheme" and ev
  assume a: "(\<forall>c \<in> set (c # cs). cn_sub c = subID \<longrightarrow> cn_limit c \<le> limit) \<and> devices_of subID d \<le> limit"
  have cnt: "devices_of subID d' = devices_of subID d \<or> cn_sub c = subID \<and> devices_of subID d' = devices_of subID d + 1"
    if "map device_key (t_devices d') = map device_key (t_devices d) \<or>
      map device_key (t_devices d') = map device_key (t_devices d) @ [(cn_sub c, cn_hwid c)]" for d' :: "'m tables_scheme"
    using that unfolding devices_of_keys by (elim disjE) (simp_all only:, simp_all add: count_rows_def)
  have bound: "devices_of subID d' \<le> limit"
    if dec: "refused \<longleftrightarrow> \<not> known_device (cn_sub c) (cn_hwid c) d \<and> cn_limit c \<le> devices_of (cn_sub c) d"
      and keep: "refused \<longrightarrow> t_devices d' = t_devices d"
      and step: "device_step (cn_sub c) (cn_hwid c) d ev d' ev'" for refused ev' and d' :: "'m tables_scheme"
  proof (cases "map device_key (t_devices d') = map device_key (t_devices d)")
    case True
    then show ?thesis using a by (simp add: devices_of_keys)
  next
    case False
    then have new: "\<not> known_device (cn_sub c) (cn_hwid c) d"
      "map device_key (t_devices d') = map device_key (t_devices d) @ [(cn_sub c, cn_hwid c)]"
      using step by (auto simp: device_step_def)
    then have "\<not> refused" using keep by auto
    then have "devices_of (cn_sub c) d < cn_limit c" using dec new(1) by simp
    then show ?thesis using a cnt [of d'] new(2) by auto
  qed
  show "calm_wp C (bind (attempt (track c)) (\<lambda>_. ret ()))
      (\<lambda>_ d _. (\<forall>c \<in> set cs. cn_sub c = subID \<longrightarrow> cn_limit c \<le> limit) \<and> devices_of subID d \<le> limit) (\<lambda>_ _ _. False) d ev"
    unfolding track_def
    by (rule calm_bind, rule calm_attempt, rule calm_mono [OF calm_and_wp [OF TrackDevice_calm keeps_wp [OF TrackDevice_step]]],
        rule calm_ret) (use a bound in auto)
qed (use assms in auto)

definition connect :: "string \<Rightarrow> string \<Rightarrow> int \<Rightarrow> connection" where
  "connect subID hwid limit = \<lparr>cn_sub = subID, cn_hwid = hwid, cn_model = ''m'', cn_os = ''o'', cn_agent = ''a'', cn_limit = limit\<rparr>"

definition demo_connections :: "connection list" where
  "demo_connections = [connect ''s1'' ''h1'' 2, connect ''s1'' ''h2'' 2, connect ''s1'' ''h1'' 2, connect ''s1'' ''h3'' 2]"

definition device_world :: "tables world" where
  "device_world = demo_world (\<lambda>_. None) empty_tables"

text \<open>
  C18: On a database that answers, no sequence of connections brings the number of devices of a
  subscription above the limit the connections carry.
\<close>

theorem device_limit_holds:
  assumes "calm C w" and "track_all cs w = (r, w')"
    and "\<forall>c \<in> set cs. cn_sub c = subID \<longrightarrow> cn_limit c \<le> limit" and "devices_of subID (w_db w) \<le> limit"
  shows "devices_of subID (w_db w') \<le> limit"
  using calm_wpD [OF track_within [OF assms(3,4)] assms(1,2)] by (auto split: sum.splits)

theorem device_limit_holds_witness:
  "devices_of ''s1'' (w_db (snd (track_all demo_connections device_world))) \<le> 2"
proof -
  have "calm UNIV device_world" by (simp add: calm_def device_world_def demo_world_def)
  moreover have "\<forall>c \<in> set demo_connections. cn_sub c = ''s1'' \<longrightarrow> cn_limit c \<le> 2" "devices_of ''s1'' (w_db device_world) \<le> 2"
    by code_simp+
  ultimately show ?thesis
    using device_limit_holds [of UNIV device_world demo_connections "fst (track_all demo_connections device_world)"
        "snd (track_all demo_connections device_world)" "''s1''" 2] by simp
qed

text \<open>
  C31: A connection is refused exactly when the device is new and the limit is reached; a refusal records
  nothing, and after an admission the device is recorded.
\<close>

theorem device_decision:
  assumes "calm C w"
  shows "\<exists>refused w'. TrackDevice subID hwid model os ua limit w = (Inr refused, w') \<and>
    (refused \<longleftrightarrow> \<not> known_device subID hwid (w_db w) \<and> limit \<le> devices_of subID (w_db w)) \<and>
    (if refused then t_devices (w_db w') = t_devices (w_db w) else known_device subID hwid (w_db w'))"
proof -
  obtain r w' where run: "TrackDevice subID hwid model os ua limit w = (r, w')" by fastforce
  from calm_wpD [OF TrackDevice_calm assms run] show ?thesis using run by (auto split: sum.splits)
qed

theorem device_decision_witness:
  "\<exists>w'. TrackDevice ''s1'' ''h1'' ''m'' ''o'' ''a'' 0 device_world = (Inr True, w')"
proof -
  have "calm UNIV device_world" by (simp add: calm_def device_world_def demo_world_def)
  moreover have "\<not> known_device ''s1'' ''h1'' (w_db device_world) \<and> 0 \<le> devices_of ''s1'' (w_db device_world)" by code_simp
  ultimately show ?thesis
    using device_decision [of UNIV device_world "''s1''" "''h1''" "''m''" "''o''" "''a''" 0] by auto
qed

text \<open>
  C32: Whichever statements fail, a device of a subscription is never recorded twice.
\<close>

theorem devices_never_twice:
  assumes "distinct (map device_key (t_devices (w_db w)))" and "track_all cs w = (r, w')"
  shows "distinct (map device_key (t_devices (w_db w')))"
  using keepsD [OF track_all_distinct assms(2)] assms(1) by (simp add: devices_distinct_def)

theorem devices_never_twice_witness:
  "distinct (map device_key (t_devices (w_db (snd (track_all demo_connections
     (device_world\<lparr>w_fault := (\<lambda>n. if n mod 3 = 1 then Some (ErrDriver ''busy'') else None)\<rparr>))))))"
proof -
  let ?w = "device_world\<lparr>w_fault := (\<lambda>n. if n mod 3 = 1 then Some (ErrDriver ''busy'') else None)\<rparr>"
  have "distinct (map device_key (t_devices (w_db ?w)))" by code_simp
  then show ?thesis
    using devices_never_twice [of ?w demo_connections "fst (track_all demo_connections ?w)" "snd (track_all demo_connections ?w)"] by simp
qed

text \<open>
  With a database that fails at the right moment the limit does not hold: the error of the count is
  dropped and the count is taken as zero.
\<close>

theorem device_limit_fails_open:
  "devices_of ''s1'' (w_db (snd (TrackDevice ''s1'' ''h2'' ''m'' ''o'' ''a'' 1
     ((snd (TrackDevice ''s1'' ''h1'' ''m'' ''o'' ''a'' 1 device_world))\<lparr>w_stmt := 0,
        w_fault := (\<lambda>n. if n = 3 then Some (ErrDriver ''busy'') else None)\<rparr>)))) = 2"
  by code_simp

end
