(* ===== verification/Engine_Port.thy ===== *)
theory Engine_Port
  imports Database Program_Logic
begin

text \<open>
  The VPN engine as the services see it (\<^verbatim>\<open>internal/domain/engine.go\<close>). An engine is code of another
  component or another process, so it is a record of computations: what it does to its own state is not
  visible here, and what the services rely on is that it leaves the tables and the dispatched events
  alone (\<open>external\<close>).
\<close>

section \<open>The interface\<close>

record VPNUserConfig =
  vu_Email :: string
  vu_UUID :: string
  vu_Auth :: string
  vu_Subfile :: string
  vu_Expire :: string
  vu_MaxDevices :: int
  vu_Flow :: string
  vu_Cipher :: string
  vu_PlanEngineIDs :: "string list"
  vu_SubscriptionEngineIDs :: "string list"

record TrafficStat =
  ts_Email :: string
  ts_Up :: int
  ts_Down :: int

record EngineSyncResult =
  sr_Added :: int
  sr_Removed :: int

record 'd Engine =
  eg_AddUser :: "VPNUserConfig \<Rightarrow> ('d, unit) prog"
  eg_AddUsersBulk :: "VPNUserConfig list \<Rightarrow> ('d, unit) prog"
  eg_RemoveUser :: "string \<Rightarrow> ('d, unit) prog"
  eg_RemoveUsersBulk :: "string list \<Rightarrow> ('d, unit) prog"
  eg_SetExpire :: "string \<Rightarrow> string \<Rightarrow> ('d, unit) prog"
  eg_SetLimit :: "string \<Rightarrow> rat \<Rightarrow> ('d, unit) prog"
  eg_RebuildInbound :: "string \<Rightarrow> ('d, unit) prog"
  eg_QueryStats :: "('d, TrafficStat list) prog"
  eg_BanUser :: "string \<Rightarrow> ('d, unit) prog"
  eg_UnbanUser :: "string \<Rightarrow> ('d, unit) prog"
  eg_RestartLogger :: "('d, unit) prog"
  eg_ListUsers :: "('d, VPNUserConfig list) prog"
  eg_SyncUsers :: "VPNUserConfig list \<Rightarrow> bool \<Rightarrow> ('d, EngineSyncResult) prog"

text \<open>
  \<open>PropagateAll\<close> sends a command to the slave nodes from a goroutine of its own; nobody waits for it or
  looks at its result.
\<close>

type_synonym 'd propagator = "string \<Rightarrow> (string \<times> string) list \<Rightarrow> ('d, unit) prog"

section \<open>Calls that leave the tables alone\<close>

definition external :: "('m tables_scheme, 'a) prog \<Rightarrow> bool" where
  "external m \<longleftrightarrow> (\<forall>w. tables.truncate (w_db (snd (m w))) = tables.truncate (w_db w) \<and>
     w_events (snd (m w)) = w_events w \<and> w_fault (snd (m w)) = w_fault w \<and> w_clock (snd (m w)) = w_clock w)"

locale engine_port =
  fixes eng :: "'m tables_scheme Engine" and propagator :: "'m tables_scheme propagator option"
  assumes external_AddUser: "external (eg_AddUser eng u)"
    and external_AddUsersBulk: "external (eg_AddUsersBulk eng us)"
    and external_RemoveUser: "external (eg_RemoveUser eng e)"
    and external_RemoveUsersBulk: "external (eg_RemoveUsersBulk eng es)"
    and external_SetExpire: "external (eg_SetExpire eng e x)"
    and external_SetLimit: "external (eg_SetLimit eng e l)"
    and external_RebuildInbound: "external (eg_RebuildInbound eng tag)"
    and external_QueryStats: "external (eg_QueryStats eng)"
    and external_BanUser: "external (eg_BanUser eng e)"
    and external_UnbanUser: "external (eg_UnbanUser eng e)"
    and external_RestartLogger: "external (eg_RestartLogger eng)"
    and external_ListUsers: "external (eg_ListUsers eng)"
    and external_SyncUsers: "external (eg_SyncUsers eng us orphans)"
    and external_propagator: "propagator = Some f \<Longrightarrow> external (f command args)"

lemma truncate_fields:
  assumes "tables.truncate d' = tables.truncate d"
  shows "t_dialect d' = t_dialect d" "t_users d' = t_users d" "t_subs d' = t_subs d" "t_devices d' = t_devices d"
    "t_payments d' = t_payments d" "t_plans d' = t_plans d" "t_promos d' = t_promos d" "t_rewards d' = t_rewards d"
    "t_notifs d' = t_notifs d" "t_bans d' = t_bans d"
  using assms by (auto simp: tables.truncate_def)

lemma vc_external:
  assumes "external m"
    and "\<And>x d'. tables.truncate d' = tables.truncate d \<Longrightarrow> Q x d' ev"
    and "\<And>e d'. tables.truncate d' = tables.truncate d \<Longrightarrow> E e d' ev"
  shows "vc faulty C m Q E d ev"
proof (rule vcI)
  fix w r w'
  assume "ambient faulty C w" "w_db w = d" "w_events w = ev" "m w = (r, w')"
  moreover from this assms(1) have "tables.truncate (w_db w') = tables.truncate d" "w_events w' = ev"
    "w_fault w' = w_fault w" "w_clock w' = w_clock w" unfolding external_def by (metis snd_conv)+
  ultimately show "ambient faulty C w' \<and> (case r of Inr x \<Rightarrow> Q x (w_db w') (w_events w') | Inl e \<Rightarrow> E e (w_db w') (w_events w'))"
    using assms(2,3) by (auto simp: ambient_def split: sum.splits)
qed

lemma external_ret: "external (ret x)"
  by (simp add: external_def ret_def)

lemma external_fail: "external (fail e)"
  by (simp add: external_def fail_def)

section \<open>The engine that does nothing\<close>

definition NoopEngine :: "'d Engine" where
  "NoopEngine = \<lparr>eg_AddUser = (\<lambda>_. ret ()), eg_AddUsersBulk = (\<lambda>_. ret ()), eg_RemoveUser = (\<lambda>_. ret ()),
     eg_RemoveUsersBulk = (\<lambda>_. ret ()), eg_SetExpire = (\<lambda>_ _. ret ()), eg_SetLimit = (\<lambda>_ _. ret ()),
     eg_RebuildInbound = (\<lambda>_. ret ()), eg_QueryStats = ret [], eg_BanUser = (\<lambda>_. ret ()), eg_UnbanUser = (\<lambda>_. ret ()),
     eg_RestartLogger = ret (), eg_ListUsers = ret [], eg_SyncUsers = (\<lambda>_ _. ret \<lparr>sr_Added = 0, sr_Removed = 0\<rparr>)\<rparr>"

interpretation noop: engine_port NoopEngine None
  by unfold_locales (simp_all add: NoopEngine_def external_ret)

end
