(* ===== verification/Lifecycle.thy ===== *)
theory Lifecycle
  imports Device_Limit Engine_Port
begin

text \<open>
  The maintenance of subscriptions (\<^verbatim>\<open>internal/plugins/subscription_lifecycle\<close>): one pass of the expiry
  worker, which expires, warns and trims devices, and the extension the payment providers call. The pass
  logs the errors it meets and goes on, so every fallible call is attempted. A pass never expires a
  subscription before its end, announces each expiry once, sends no warning twice, and when the database
  and the engine answer leaves no overdue subscription active and no device above a limit.
\<close>

section \<open>The worker\<close>

record 'd ExpiryWorker =
  ew_ExpirationWarnings :: "string list"
  ew_IsMaster :: bool
  ew_dispatcher :: bool
  ew_engine :: "'d Engine"
  ew_propagator :: "'d propagator option"

text \<open>Reading through a nil pointer ends the pass.\<close>

definition deref :: "'a option \<Rightarrow> ('d, 'a) prog" where
  "deref p = (case p of Some x \<Rightarrow> ret x | None \<Rightarrow> fail (Err ''invalid memory address or nil pointer dereference''))"

definition user_metadata :: "string \<Rightarrow> ('m tables_scheme, json_map) prog" where
  "user_metadata userID = bind (attempt (Users_FindByID userID)) (\<lambda>r.
     ret (case r of Inr user \<Rightarrow> u_Metadata user | Inl _ \<Rightarrow> []))"

fun warn_loop ::
  "string list \<Rightarrow> Subscription \<Rightarrow> duration \<Rightarrow> string \<times> duration \<Rightarrow> ('m tables_scheme, string \<times> duration) prog"
where
  "warn_loop [] sub timeLeft triggered = ret triggered"
| "warn_loop (warnStr # levels) sub timeLeft triggered =
     (case ParseDuration warnStr of
        None \<Rightarrow> warn_loop levels sub timeLeft triggered
      | Some warnDur \<Rightarrow>
          if timeLeft \<le> warnDur then
            bind now (\<lambda>ts.
            bind (attempt (Notifications_CreateIfNotExists
              \<lparr>nt_SubscriptionID = s_ID sub, nt_WarningLevel = warnStr, nt_SentAt = ts\<rparr>)) (\<lambda>r.
            warn_loop levels sub timeLeft
              (if r = Inr True \<and> (fst triggered = '''' \<or> warnDur < snd triggered)
               then (warnStr, warnDur) else triggered)))
          else warn_loop levels sub timeLeft triggered)"

definition handleWarnings :: "'m tables_scheme ExpiryWorker \<Rightarrow> Subscription \<Rightarrow> duration \<Rightarrow> ('m tables_scheme, unit) prog" where
  "handleWarnings ew sub timeLeft =
     bind (warn_loop (ew_ExpirationWarnings ew) sub timeLeft ('''', 0)) (\<lambda>(triggeredWarnStr, _).
     if triggeredWarnStr = '''' then ret ()
     else bind (deref (s_EndsAt sub)) (\<lambda>endsAt.
       bind (user_metadata (s_UserID sub)) (\<lambda>userMetadata.
       if ew_dispatcher ew then
         dispatch ''subscription.expiring''
           [(''user_id'', JStr (s_UserID sub)), (''subscription_id'', JStr (s_ID sub)), (''email'', JStr (s_Email sub)),
            (''warning_level'', JStr triggeredWarnStr), (''time_left_sec'', JReal (Seconds timeLeft)),
            (''ends_at'', JStr (fmt_rfc3339 endsAt))] userMetadata
       else ret ())))"

text \<open>What follows the removal from the engine, the same in \<open>handleExpired\<close> and \<open>handleExpiredBulk\<close>.\<close>

definition expire_one :: "'m tables_scheme ExpiryWorker \<Rightarrow> Subscription \<Rightarrow> ('m tables_scheme, unit) prog" where
  "expire_one ew sub =
     bind (attempt (Subs_UpdateStatusIfActive (s_ID sub) ''expired'')) (\<lambda>updated.
     if updated \<noteq> Inr True then ret ()
     else bind (deref (s_EndsAt sub)) (\<lambda>endsAt.
       bind (user_metadata (s_UserID sub)) (\<lambda>userMetadata.
       bind (if ew_dispatcher ew then
           dispatch ''subscription.expired''
             [(''user_id'', JStr (s_UserID sub)), (''subscription_id'', JStr (s_ID sub)), (''email'', JStr (s_Email sub)),
              (''ends_at'', JStr (fmt_rfc3339 endsAt))] userMetadata
         else ret ()) (\<lambda>_.
       case ew_propagator ew of
         Some propagateAll \<Rightarrow>
           if ew_IsMaster ew
           then bind (attempt (propagateAll ''rmuser'' [(''email'', s_Email sub)])) (\<lambda>_. ret ())
           else ret ()
       | None \<Rightarrow> ret ()))))"

definition handleExpiredBulk :: "'m tables_scheme ExpiryWorker \<Rightarrow> Subscription list \<Rightarrow> ('m tables_scheme, unit) prog" where
  "handleExpiredBulk ew subs =
     bind (attempt (eg_RemoveUsersBulk (ew_engine ew) (map s_Email subs))) (\<lambda>r. case r of
       Inl _ \<Rightarrow> ret ()
     | Inr _ \<Rightarrow> for_each (expire_one ew) subs)"

definition handleExpired :: "'m tables_scheme ExpiryWorker \<Rightarrow> Subscription \<Rightarrow> ('m tables_scheme, unit) prog" where
  "handleExpired ew sub =
     bind (attempt (eg_RemoveUser (ew_engine ew) (s_Email sub))) (\<lambda>r. case r of
       Inl _ \<Rightarrow> ret ()
     | Inr _ \<Rightarrow> expire_one ew sub)"

section \<open>One pass\<close>

definition device_cap :: "Subscription \<Rightarrow> int" where
  "device_cap sub = (if s_MaxDevices sub \<le> 0 then 3 else s_MaxDevices sub)"

definition excess_devices :: "(string \<times> int) list \<Rightarrow> Subscription \<Rightarrow> ('m tables_scheme, int list) prog" where
  "excess_devices counts sub =
     (let limit = device_cap sub;
          deviceCount = (case map_of counts (s_ID sub) of Some n \<Rightarrow> n | None \<Rightarrow> 0)
      in if deviceCount > limit then
           bind (attempt (Devices_FindOldestBySubscription (s_ID sub) (nat (deviceCount - limit)))) (\<lambda>r.
           ret (case r of Inr oldestDevices \<Rightarrow> map d_ID oldestDevices | Inl _ \<Rightarrow> []))
         else ret [])"

fun scan_subs ::
  "'m tables_scheme ExpiryWorker \<Rightarrow> time \<Rightarrow> (string \<times> int) list \<Rightarrow> Subscription list \<Rightarrow> Subscription list \<times> int list
    \<Rightarrow> ('m tables_scheme, Subscription list \<times> int list) prog"
where
  "scan_subs ew ts counts [] acc = ret acc"
| "scan_subs ew ts counts (sub # subs) (expiredSubs, devicesToDelete) =
     (let check_devices = bind (excess_devices counts sub) (\<lambda>ids.
            scan_subs ew ts counts subs (expiredSubs, devicesToDelete @ ids))
      in case s_EndsAt sub of
           Some endsAt \<Rightarrow>
             (let timeLeft = time_sub endsAt ts
              in if timeLeft \<le> 0 then scan_subs ew ts counts subs (expiredSubs @ [sub], devicesToDelete)
                 else bind (handleWarnings ew sub timeLeft) (\<lambda>_. check_devices))
         | None \<Rightarrow> check_devices)"

definition ProcessOnce :: "'m tables_scheme ExpiryWorker \<Rightarrow> ('m tables_scheme, unit) prog" where
  "ProcessOnce ew =
     bind (attempt (Subs_FindByStatus ''active'')) (\<lambda>r. case r of
       Inl _ \<Rightarrow> ret ()
     | Inr subs \<Rightarrow>
         if subs = [] then ret ()
         else bind (attempt (Devices_CountBySubscriptions (map s_ID subs))) (\<lambda>c.
           let counts = (case c of Inr n \<Rightarrow> n | Inl _ \<Rightarrow> [])
           in bind now (\<lambda>ts.
              bind (scan_subs ew ts counts subs ([], [])) (\<lambda>(expiredSubs, devicesToDelete).
              bind (if devicesToDelete = [] then ret ()
                    else bind (attempt (Devices_DeleteByIDs devicesToDelete)) (\<lambda>_. ret ())) (\<lambda>_.
              if expiredSubs = [] then ret () else handleExpiredBulk ew expiredSubs)))))"

section \<open>Extension\<close>

definition ExtendSubscription :: "bool \<Rightarrow> string \<Rightarrow> int \<Rightarrow> ('m tables_scheme, unit) prog" where
  "ExtendSubscription initialised subscriptionID months =
     (if months \<le> 0 then fail (Err ''subscription_lifecycle: extension months must be positive'')
      else if \<not> initialised then fail (Err ''subscription_lifecycle: not initialized'')
      else WithTx (
        bind (Subs_FindByID subscriptionID) (\<lambda>sub.
        bind now (\<lambda>ts.
        let base = (case s_EndsAt sub of Some e \<Rightarrow> if e > ts then e else ts | None \<Rightarrow> ts);
            endsAt = add_months base months
        in bind (Notifications_ResetForEndsAt (s_ID sub) (Some endsAt) []) (\<lambda>_.
           bind (Subs_Update (sub\<lparr>s_EndsAt := Some endsAt, s_Status := ''active''\<rparr>)) (\<lambda>_. ret ()))))))"

section \<open>What a scan does\<close>

definition overdue :: "time \<Rightarrow> Subscription \<Rightarrow> bool" where
  "overdue ts sub \<longleftrightarrow> (\<exists>e. s_EndsAt sub = Some e \<and> e \<le> ts)"

lemma overdue_code [code]: "overdue ts sub = (case s_EndsAt sub of Some e \<Rightarrow> e \<le> ts | None \<Rightarrow> False)"
  by (auto simp: overdue_def split: option.splits)

lemma time_sub_nonpos: "time_sub e ts \<le> 0 \<longleftrightarrow> e \<le> ts"
  by (auto simp: time_sub_def)

text \<open>The subscriptions named by the events of a type.\<close>

definition announced :: "string \<Rightarrow> event list \<Rightarrow> json option list" where
  "announced ty evs = map (\<lambda>e. map_of (ev_Data e) ''subscription_id'') (filter (\<lambda>e. ev_Type e = ty) evs)"

text \<open>Warnings touch the notifications only and announce no expiry.\<close>

definition scan_frame :: "'m tables_scheme state_rel" where
  "scan_frame d ev d' ev' \<longleftrightarrow> t_subs d' = t_subs d \<and> t_devices d' = t_devices d \<and> t_users d' = t_users d \<and>
     announced ''subscription.expired'' ev' = announced ''subscription.expired'' ev"

interpretation scan: state_preorder scan_frame
  by unfold_locales (simp_all add: scan_frame_def)

lemma scan_frame_truncate: "tables.truncate d' = tables.truncate d \<Longrightarrow> scan_frame d ev d' ev"
  unfolding scan_frame_def using truncate_fields by blast

lemma bind_ret: "bind (ret x) f = f x"
  by (simp add: fun_eq_iff bind_def ret_def)

lemma deref_Some [simp]: "deref (Some x) = ret x"
  by (simp add: deref_def)

lemma user_metadata_vc: "(\<And>m. Q m d ev) \<Longrightarrow> vc faulty C (user_metadata uid) Q E d ev"
  unfolding user_metadata_def Users_FindByID_def by (intro vc_rules) auto

text \<open>The warnings of one subscription add records under levels that had none.\<close>

definition grown :: "Subscription \<Rightarrow> SubscriptionNotification list \<Rightarrow> 'm tables_scheme \<Rightarrow> 'm tables_scheme \<Rightarrow> bool" where
  "grown sub ns d d' \<longleftrightarrow> d' = t_notifs_update (\<lambda>rows. rows @ ns) d \<and> (\<forall>n \<in> set ns. nt_SubscriptionID n = s_ID sub) \<and>
     distinct (map nt_WarningLevel ns) \<and> (\<forall>n \<in> set ns. \<forall>m \<in> set (t_notifs d). \<not> notif_clash n m)"

lemma grown_refl: "grown sub [] d d"
  by (simp add: grown_def)

lemma grown_trans: "grown sub ns d d1 \<Longrightarrow> grown sub ms d1 d2 \<Longrightarrow> grown sub (ns @ ms) d d2"
  unfolding grown_def by (auto simp: notif_clash_def o_def, metis UnI2)

lemma grown_one:
  assumes "nt_SubscriptionID n = s_ID sub" and "\<not> list_ex (notif_clash n) (t_notifs d)"
  shows "grown sub [n] d (t_notifs_update (\<lambda>rows. rows @ [n]) d)"
  using assms by (simp add: grown_def list_ex_iff)

lemma CreateIfNotExists_vc:
  assumes "nt_SubscriptionID n = s_ID sub"
    and "\<And>m. grown sub [m] d (t_notifs_update (\<lambda>rows. rows @ [m]) d) \<Longrightarrow> nt_WarningLevel m = nt_WarningLevel n \<Longrightarrow>
      Q True (t_notifs_update (\<lambda>rows. rows @ [m]) d) ev"
    and "Q False d ev" and "\<And>e. E e d ev"
  shows "vc faulty C (Notifications_CreateIfNotExists n) Q E d ev"
  unfolding Notifications_CreateIfNotExists_def insert_notif_def
  by (rule vc_map_error, rule vc_bind, rule vc_now, rule vc_exec) (use assms grown_one [of _ sub d] in auto)

lemma warn_loop_vc:
  "vc faulty C (warn_loop levels sub left trig) (\<lambda>trig' d' ev'. ev' = ev \<and>
     (\<exists>ns. grown sub ns d d' \<and> (fst trig' = fst trig \<or> fst trig' \<in> nt_WarningLevel ` set ns))) (\<lambda>_ _ _. False) d ev"
proof (induction levels arbitrary: trig d)
  case Nil
  then show ?case by (auto intro: vc_ret grown_refl)
next
  case (Cons l ls)
  have next_level: "vc faulty C (warn_loop ls sub left trig') (\<lambda>trig' d' ev'. ev' = ev \<and>
      (\<exists>ns. grown sub ns d d' \<and> (fst trig' = fst trig \<or> fst trig' \<in> nt_WarningLevel ` set ns))) (\<lambda>_ _ _. False) d1 ev"
    if "grown sub ms d d1" "fst trig' = fst trig \<or> fst trig' \<in> nt_WarningLevel ` set ms" for trig' ms d1
    by (rule vc_mono [OF Cons.IH]) (use grown_trans [OF that(1)] that(2) in fastforce)+
  show ?case
  proof (cases "ParseDuration l")
    case None
    then show ?thesis by (simp add: next_level [OF grown_refl])
  next
    case (Some warnDur)
    show ?thesis unfolding warn_loop.simps Some option.case
      by (intro vc_if vc_bind vc_now vc_attempt CreateIfNotExists_vc [where sub = sub])
        (erule next_level | rule next_level [OF grown_refl] | force)+
  qed
qed

text \<open>A warning that is sent was recorded in the same pass, under a level that had no record.\<close>

definition note_key :: "SubscriptionNotification \<Rightarrow> string \<times> string" where
  "note_key n = (nt_SubscriptionID n, nt_WarningLevel n)"

definition json_key :: "string \<times> string \<Rightarrow> json option \<times> json option" where
  "json_key k = (Some (JStr (fst k)), Some (JStr (snd k)))"

definition warnings :: "event list \<Rightarrow> (json option \<times> json option) list" where
  "warnings evs = map (\<lambda>e. (map_of (ev_Data e) ''subscription_id'', map_of (ev_Data e) ''warning_level''))
     (filter (\<lambda>e. ev_Type e = ''subscription.expiring'') evs)"

definition warned_once :: "'m tables_scheme state_rel" where
  "warned_once d ev d' ev' \<longleftrightarrow> (\<exists>ns ks. t_notifs d' = t_notifs d @ ns \<and> distinct (map note_key ns) \<and>
     note_key ` set ns \<inter> note_key ` set (t_notifs d) = {} \<and>
     warnings ev' = warnings ev @ map json_key ks \<and> distinct ks \<and> set ks \<subseteq> note_key ` set ns)"

lemma warned_onceI:
  assumes "t_notifs d' = t_notifs d @ ns" and "distinct (map note_key ns)"
    and "note_key ` set ns \<inter> note_key ` set (t_notifs d) = {}"
    and "warnings ev' = warnings ev @ map json_key ks" and "distinct ks" and "set ks \<subseteq> note_key ` set ns"
  shows "warned_once d ev d' ev'"
  using assms unfolding warned_once_def by blast

lemma warned_once_same: "t_notifs d' = t_notifs d \<Longrightarrow> warnings ev' = warnings ev \<Longrightarrow> warned_once d ev d' ev'"
  by (rule warned_onceI [where ns = "[]" and ks = "[]"]) simp_all

lemma warned_once_trans:
  assumes "warned_once a ev b ev1" and "warned_once b ev1 c ev2"
  shows "warned_once a ev c ev2"
proof -
  obtain ns ks where 1: "t_notifs b = t_notifs a @ ns" "distinct (map note_key ns)" "note_key ` set ns \<inter> note_key ` set (t_notifs a) = {}"
    "warnings ev1 = warnings ev @ map json_key ks" "distinct ks" "set ks \<subseteq> note_key ` set ns"
    using assms(1) unfolding warned_once_def by blast
  obtain ms ls where 2: "t_notifs c = t_notifs b @ ms" "distinct (map note_key ms)" "note_key ` set ms \<inter> note_key ` set (t_notifs b) = {}"
    "warnings ev2 = warnings ev1 @ map json_key ls" "distinct ls" "set ls \<subseteq> note_key ` set ms"
    using assms(2) unfolding warned_once_def by blast
  have dis: "note_key ` set ns \<inter> note_key ` set ms = {}" using 2(3) 1(1) by auto
  show ?thesis
  proof (rule warned_onceI [where ns = "ns @ ms" and ks = "ks @ ls"])
    show "distinct (map note_key (ns @ ms))" using 1(2) 2(2) dis by simp
    show "note_key ` set (ns @ ms) \<inter> note_key ` set (t_notifs a) = {}" using 1(1,3) 2(3) by auto
    show "distinct (ks @ ls)" using 1(5,6) 2(5,6) dis by (simp, blast)
    show "set (ks @ ls) \<subseteq> note_key ` set (ns @ ms)" using 1(6) 2(6) by auto
  qed (simp_all add: 1(1,4) 2(1,4))
qed

interpretation warned: state_preorder warned_once
  by unfold_locales (rule warned_once_same, simp, simp, rule warned_once_trans)

lemma grown_warned:
  assumes "grown sub ns d d'" and "warnings ev' = warnings ev @ map json_key ks" and "distinct ks"
    and "set ks \<subseteq> (\<lambda>n. (s_ID sub, nt_WarningLevel n)) ` set ns"
  shows "warned_once d ev d' ev'"
proof (rule warned_onceI [where ns = ns and ks = ks])
  have key: "note_key n = (s_ID sub, nt_WarningLevel n)" if "n \<in> set ns" for n
    using assms(1) that by (simp add: grown_def note_key_def)
  show "distinct (map note_key ns)" using assms(1) key by (auto simp: grown_def distinct_map inj_on_def)
  show "note_key ` set ns \<inter> note_key ` set (t_notifs d) = {}"
    using assms(1) by (auto simp: grown_def note_key_def notif_clash_def)
  show "set ks \<subseteq> note_key ` set ns" using assms(4) key by fastforce
qed (use assms in \<open>simp_all add: grown_def\<close>)

lemma handleWarnings_vc:
  assumes "s_EndsAt sub = Some e"
  shows "vc faulty C (handleWarnings ew sub left) (\<lambda>_ d' ev'. scan_frame d ev d' ev' \<and> warned_once d ev d' ev') (\<lambda>_ _ _. False) d ev"
  unfolding handleWarnings_def
proof (rule vc_bind, rule vc_mono [OF warn_loop_vc])
  fix trig d1 ev1
  assume "ev1 = ev \<and> (\<exists>ns. grown sub ns d d1 \<and> (fst trig = fst ('''', 0::int) \<or> fst trig \<in> nt_WarningLevel ` set ns))"
  then obtain ns where ev: "ev1 = ev" and ns: "grown sub ns d d1" and lvl: "fst trig = '''' \<or> fst trig \<in> nt_WarningLevel ` set ns" by auto
  have quiet: "scan_frame d ev d1 ev \<and> warned_once d ev d1 ev"
    using grown_warned [OF ns, of ev ev "[]"] ns by (simp add: scan_frame_def grown_def)
  have loud: "scan_frame d ev d1 (ev @ [e]) \<and> warned_once d ev d1 (ev @ [e])"
    if "fst trig \<noteq> ''''" "ev_Type e = ''subscription.expiring''" "map_of (ev_Data e) ''subscription_id'' = Some (JStr (s_ID sub))"
      "map_of (ev_Data e) ''warning_level'' = Some (JStr (fst trig))" for e
    using grown_warned [OF ns, of "ev @ [e]" ev "[(s_ID sub, fst trig)]"] that lvl ns
    by (auto simp: scan_frame_def grown_def announced_def warnings_def json_key_def)
  show "vc faulty C (case trig of (triggeredWarnStr, uu_) \<Rightarrow>
         if triggeredWarnStr = '''' then ret ()
         else bind (deref (s_EndsAt sub)) (\<lambda>endsAt. bind (user_metadata (s_UserID sub)) (\<lambda>userMetadata.
           if ew_dispatcher ew then dispatch ''subscription.expiring''
             [(''user_id'', JStr (s_UserID sub)), (''subscription_id'', JStr (s_ID sub)), (''email'', JStr (s_Email sub)),
              (''warning_level'', JStr triggeredWarnStr), (''time_left_sec'', JReal (Seconds left)),
              (''ends_at'', JStr (fmt_rfc3339 endsAt))] userMetadata
           else ret ())))
     (\<lambda>_ d' ev'. scan_frame d ev d' ev' \<and> warned_once d ev d' ev') (\<lambda>_ _ _. False) d1 ev1"
    using quiet loud by (cases trig) (auto simp: ev assms intro!: vc_ret vc_bind user_metadata_vc vc_dispatch)
qed simp

text \<open>The devices a scan selects when the database answers: the oldest ones above the limit.\<close>

definition excess_ids :: "(string \<times> int) list \<Rightarrow> Device list \<Rightarrow> Subscription \<Rightarrow> int list" where
  "excess_ids counts devs sub =
     (let n = (case map_of counts (s_ID sub) of Some n \<Rightarrow> n | None \<Rightarrow> 0) - device_cap sub
      in map d_ID (take (nat n) (sort_key d_ID (filter (\<lambda>d. d_SubscriptionID d = s_ID sub) devs))))"

lemma excess_devices_vc:
  assumes "\<And>ids. (\<not> faulty \<Longrightarrow> ids = excess_ids counts (t_devices d) sub) \<Longrightarrow> Q ids d ev"
  shows "vc faulty C (excess_devices counts sub) Q E d ev"
  unfolding excess_devices_def Devices_FindOldestBySubscription_def Let_def
  by (auto intro!: vc_rules assms simp: excess_ids_def split: option.splits)

lemma scan_subs_vc:
  "vc faulty C (scan_subs ew ts counts subs acc) (\<lambda>r d' ev'. scan_frame d ev d' ev' \<and> warned_once d ev d' ev' \<and>
     fst r = fst acc @ filter (overdue ts) subs \<and>
     (\<not> faulty \<longrightarrow> snd r = snd acc @ concat (map (excess_ids counts (t_devices d)) (filter (\<lambda>s. \<not> overdue ts s) subs))))
   (\<lambda>_ _ _. False) d ev"
proof (induction ew ts counts subs acc arbitrary: d ev rule: scan_subs.induct)
  case (1 ew ts counts acc)
  show ?case by (simp add: vc_ret scan.state_refl warned.state_refl)
next
  case (2 ew ts counts sub subs expired dels)
  let ?rest = "bind (excess_devices counts sub) (\<lambda>ids. scan_subs ew ts counts subs (expired, dels @ ids))"
  let ?Q = "\<lambda>r d' ev'. scan_frame d ev d' ev' \<and> warned_once d ev d' ev' \<and>
     fst r = fst (expired, dels) @ filter (overdue ts) (sub # subs) \<and>
     (\<not> faulty \<longrightarrow> snd r = snd (expired, dels) @
        concat (map (excess_ids counts (t_devices d)) (filter (\<lambda>s. \<not> overdue ts s) (sub # subs))))"
  have rest: "vc faulty C ?rest ?Q (\<lambda>_ _ _. False) d1 ev1"
    if "\<not> overdue ts sub" "scan_frame d ev d1 ev1" "warned_once d ev d1 ev1" for d1 ev1
  proof (rule vc_bind, rule excess_devices_vc)
    fix ids assume ids: "\<not> faulty \<Longrightarrow> ids = excess_ids counts (t_devices d1) sub"
    show "vc faulty C (scan_subs ew ts counts subs (expired, dels @ ids)) ?Q (\<lambda>_ _ _. False) d1 ev1"
      by (rule vc_mono [OF "2.IH"(1)])
        (use that ids scan.state_trans [OF that(2)] warned.state_trans [OF that(3)] in \<open>auto simp: scan_frame_def\<close>)
  qed
  show ?case
  proof (cases "s_EndsAt sub")
    case None
    then have "\<not> overdue ts sub" by (simp add: overdue_def)
    then show ?thesis using rest [OF _ scan.state_refl warned.state_refl] None by simp
  next
    case (Some e)
    then have over: "overdue ts sub \<longleftrightarrow> e \<le> ts" by (simp add: overdue_def)
    show ?thesis
    proof (cases "e \<le> ts")
      case True
      then show ?thesis using "2.IH" Some over by (simp add: time_sub_nonpos)
    next
      case False
      then have "vc faulty C (bind (handleWarnings ew sub (time_sub e ts)) (\<lambda>_. ?rest)) ?Q (\<lambda>_ _ _. False) d ev"
        using over by (intro vc_bind [OF vc_mono [OF handleWarnings_vc [OF Some]]] rest) simp_all
      then show ?thesis using Some False by (simp add: time_sub_nonpos)
    qed
  qed
qed

section \<open>What the expiry does\<close>

text \<open>The rows whose id is in the domain are expired, at the moment they were written.\<close>

definition mark :: "(string \<rightharpoonup> time) \<Rightarrow> Subscription \<Rightarrow> Subscription" where
  "mark stamp s = (case stamp (s_ID s) of Some ts \<Rightarrow> s\<lparr>s_Status := ''expired'', s_UpdatedAt := ts\<rparr> | None \<Rightarrow> s)"

definition expiry_state ::
  "bool \<Rightarrow> time set \<Rightarrow> 'm tables_scheme \<Rightarrow> event list \<Rightarrow> (string \<rightharpoonup> time) \<Rightarrow> string list \<Rightarrow> 'm tables_scheme \<Rightarrow> event list \<Rightarrow> bool"
where
  "expiry_state dispatcher C d0 ev0 stamp ids d ev \<longleftrightarrow> t_subs d = map (mark stamp) (t_subs d0) \<and> distinct ids \<and> set ids = dom stamp \<and>
     (\<forall>i \<in> dom stamp. \<exists>s \<in> set (t_subs d0). s_ID s = i \<and> s_Status s = ''active'' \<and> (\<exists>t \<in> C. overdue t s)) \<and>
     t_users d = t_users d0 \<and> t_devices d = t_devices d0 \<and>
     (dispatcher \<longrightarrow> announced ''subscription.expired'' ev = announced ''subscription.expired'' ev0 @ map (Some \<circ> JStr) ids)"

lemma mark_id [simp]: "s_ID (mark stamp s) = s_ID s"
  by (simp add: mark_def split: option.splits)

lemma mark_empty [simp]: "mark Map.empty s = s"
  by (simp add: mark_def)

lemma same_key: "distinct (map f xs) \<Longrightarrow> x \<in> set xs \<Longrightarrow> y \<in> set xs \<Longrightarrow> f x = f y \<Longrightarrow> x = y"
  by (simp add: distinct_map inj_on_def)

lemma expire_row:
  assumes "distinct (map s_ID subs)" and "sub \<in> set subs" and "s_Status sub = ''active''"
  defines "hit \<equiv> (\<lambda>s. s_ID s = s_ID sub \<and> s_Status s = ''active'')"
  shows "(\<exists>s \<in> set (map (mark stamp) subs). hit s) \<longleftrightarrow> stamp (s_ID sub) = None"
    and "stamp (s_ID sub) = None \<Longrightarrow> update_where hit (\<lambda>s. s\<lparr>s_Status := ''expired'', s_UpdatedAt := ts\<rparr>) (map (mark stamp) subs)
      = map (mark (stamp(s_ID sub \<mapsto> ts))) subs"
proof -
  have eq: "s = sub" if "s \<in> set subs" "s_ID s = s_ID sub" for s using same_key [OF assms(1) that(1) assms(2) that(2)] .
  have hit: "hit (mark stamp s) \<longleftrightarrow> s = sub \<and> stamp (s_ID sub) = None" if "s \<in> set subs" for s
    using eq [OF that] assms(3) by (auto simp: hit_def mark_def split: option.splits)
  show "(\<exists>s \<in> set (map (mark stamp) subs). hit s) \<longleftrightarrow> stamp (s_ID sub) = None" using hit assms(2) by auto
  show "update_where hit (\<lambda>s. s\<lparr>s_Status := ''expired'', s_UpdatedAt := ts\<rparr>) (map (mark stamp) subs)
      = map (mark (stamp(s_ID sub \<mapsto> ts))) subs" if "stamp (s_ID sub) = None"
    using hit that eq by (auto simp: update_where_def mark_def fun_upd_apply split: option.splits)
qed

lemma expiry_state_truncate:
  "expiry_state b C d0 ev0 stamp ids d ev \<Longrightarrow> tables.truncate d' = tables.truncate d \<Longrightarrow> expiry_state b C d0 ev0 stamp ids d' ev"
  unfolding expiry_state_def using truncate_fields [of d' d] by simp

lemma expiry_state_update:
  assumes "distinct (map s_ID (t_subs d0))" and "sub \<in> set (t_subs d0)" and "s_Status sub = ''active''"
    and "t \<in> C" and "overdue t sub" and "expiry_state b C d0 ev0 stamp ids d ev" and "stamp (s_ID sub) = None"
    and "b \<longrightarrow> announced ''subscription.expired'' ev' = announced ''subscription.expired'' ev @ [Some (JStr (s_ID sub))]"
  shows "expiry_state b C d0 ev0 (stamp(s_ID sub \<mapsto> ts)) (ids @ [s_ID sub]) (t_subs_update
    (update_where (\<lambda>s. s_ID s = s_ID sub \<and> s_Status s = ''active'') (\<lambda>s. s\<lparr>s_Status := ''expired'', s_UpdatedAt := ts\<rparr>)) d) ev'"
proof -
  have "\<exists>s \<in> set (t_subs d0). s_ID s = s_ID sub \<and> s_Status s = ''active'' \<and> (\<exists>t \<in> C. overdue t s)"
    using assms(2-5) by blast
  then show ?thesis
    using assms(6-8) expire_row(2) [OF assms(1-3), of stamp ts] unfolding expiry_state_def by (auto simp: domIff)
qed

text \<open>The engine takes the removal of any users.\<close>

definition removal_answers :: "'d ExpiryWorker \<Rightarrow> bool" where
  "removal_answers ew \<longleftrightarrow> (\<forall>emails w. \<not> isl (fst (eg_RemoveUsersBulk (ew_engine ew) emails w)))"

lemma vc_external_result:
  assumes "external m"
    and "\<And>r d' w. tables.truncate d' = tables.truncate d \<Longrightarrow> fst (m w) = r \<Longrightarrow> (case r of Inr x \<Rightarrow> Q x d' ev | Inl e \<Rightarrow> E e d' ev)"
  shows "vc faulty C m Q E d ev"
proof (rule vcI)
  fix w r w'
  assume w: "ambient faulty C w" "w_db w = d" "w_events w = ev" "m w = (r, w')"
  moreover from this assms(1) have "tables.truncate (w_db w') = tables.truncate d" "w_events w' = ev"
    "w_fault w' = w_fault w" "w_clock w' = w_clock w" unfolding external_def by (metis snd_conv)+
  ultimately show "ambient faulty C w' \<and> (case r of Inr x \<Rightarrow> Q x (w_db w') (w_events w') | Inl e \<Rightarrow> E e (w_db w') (w_events w'))"
    using assms(2) [of "w_db w'" w r] by (auto simp: ambient_def split: sum.splits)
qed

locale expiry_port = engine_port "ew_engine ew" "ew_propagator ew" for ew :: "'m tables_scheme ExpiryWorker"
begin

lemma expire_one_vc:
  assumes "distinct (map s_ID (t_subs d0))" and "sub \<in> set (t_subs d0)" and "s_Status sub = ''active''"
    and "t \<in> C" and "overdue t sub" and st: "expiry_state (ew_dispatcher ew) C d0 ev0 stamp ids d ev"
  shows "vc faulty C (expire_one ew sub) (\<lambda>_ d' ev'. warned_once d ev d' ev' \<and> (\<exists>stamp' ids'. dom stamp \<subseteq> dom stamp' \<and>
      (\<not> faulty \<longrightarrow> s_ID sub \<in> dom stamp') \<and> expiry_state (ew_dispatcher ew) C d0 ev0 stamp' ids' d' ev')) (\<lambda>_ _ _. False) d ev"
proof -
  define Q where "Q d' ev' \<longleftrightarrow> warned_once d ev d' ev' \<and> (\<exists>stamp' ids'. dom stamp \<subseteq> dom stamp' \<and>
      (\<not> faulty \<longrightarrow> s_ID sub \<in> dom stamp') \<and> expiry_state (ew_dispatcher ew) C d0 ev0 stamp' ids' d' ev')" for d' ev'
  obtain e where e: "s_EndsAt sub = Some e" using assms(5) by (auto simp: overdue_def)
  let ?hit = "\<lambda>s. s_ID s = s_ID sub \<and> s_Status s = ''active''"
  have hits: "0 < count_rows ?hit (t_subs d) \<longleftrightarrow> stamp (s_ID sub) = None"
    using expire_row(1) [OF assms(1-3), of stamp] st by (simp add: count_rows_pos expiry_state_def)
  let ?d = "\<lambda>ts. t_subs_update (update_where ?hit (\<lambda>s. s\<lparr>s_Status := ''expired'', s_UpdatedAt := ts\<rparr>)) d"
  have skip: "Q d ev" if "\<not> faulty \<longrightarrow> stamp (s_ID sub) \<noteq> None" unfolding Q_def using st that warned.state_refl by blast
  have no_row: "Q (?d ts) ev" if "stamp (s_ID sub) \<noteq> None" for ts
  proof -
    have "t_subs (?d ts) = t_subs d" using hits that by (auto simp: count_rows_pos update_where_def intro!: map_idI)
    then show ?thesis using st that unfolding Q_def expiry_state_def by (auto intro!: warned_once_same exI [of _ stamp])
  qed
  have row: "Q d' ev'"
    if "stamp (s_ID sub) = None" "tables.truncate d' = tables.truncate (?d ts)" "warnings ev' = warnings ev"
      "ew_dispatcher ew \<longrightarrow> announced ''subscription.expired'' ev' = announced ''subscription.expired'' ev @ [Some (JStr (s_ID sub))]"
    for d' ev' ts
    using expiry_state_truncate [OF expiry_state_update [OF assms that(1,4)] that(2)] truncate_fields(9) [OF that(2)] that(3)
    unfolding Q_def by (intro conjI exI [of _ "stamp(s_ID sub \<mapsto> ts)"] exI [of _ "ids @ [s_ID sub]"] warned_once_same) auto
  have after: "vc faulty C (bind (user_metadata (s_UserID sub)) (\<lambda>userMetadata.
       bind (if ew_dispatcher ew then dispatch ''subscription.expired''
             [(''user_id'', JStr (s_UserID sub)), (''subscription_id'', JStr (s_ID sub)), (''email'', JStr (s_Email sub)),
              (''ends_at'', JStr (fmt_rfc3339 e))] userMetadata
         else ret ()) (\<lambda>_.
       case ew_propagator ew of
         Some propagateAll \<Rightarrow> if ew_IsMaster ew
           then bind (attempt (propagateAll ''rmuser'' [(''email'', s_Email sub)])) (\<lambda>_. ret ()) else ret ()
       | None \<Rightarrow> ret ()))) (\<lambda>_. Q) (\<lambda>_ _ _. False) (?d ts) ev" if "stamp (s_ID sub) = None" for ts
    by (rule vc_bind, rule user_metadata_vc)
      (auto split: option.splits intro!: vc_bind vc_if vc_dispatch vc_ret vc_attempt vc_external external_propagator row [OF that, of _ ts]
        simp: announced_def warnings_def)
  show ?thesis
    unfolding Q_def [symmetric] expire_one_def Subs_UpdateStatusIfActive_def Let_def e deref_Some
    by (rule vc_bind, rule vc_attempt, rule vc_map_error, rule vc_bind, rule vc_now, rule vc_exec)
      (auto simp: hits bind_ret intro!: vc_ret skip no_row after)
qed

lemma handleExpiredBulk_vc:
  assumes "distinct (map s_ID (t_subs d))" and "t \<in> C"
    and subs: "\<And>s. s \<in> set subs \<Longrightarrow> s \<in> set (t_subs d) \<and> s_Status s = ''active'' \<and> overdue t s"
  shows "vc faulty C (handleExpiredBulk ew subs) (\<lambda>_ d' ev'. warned_once d ev d' ev' \<and>
     (\<exists>stamp ids. expiry_state (ew_dispatcher ew) C d ev stamp ids d' ev' \<and>
        (\<not> faulty \<and> removal_answers ew \<longrightarrow> s_ID ` set subs \<subseteq> dom stamp))) (\<lambda>_ _ _. False) d ev"
    (is "vc _ _ _ (\<lambda>_. ?Q) _ _ _")
proof -
  define P where "P ys d' ev' \<longleftrightarrow> warned_once d ev d' ev' \<and> (\<exists>xs stamp ids. subs = xs @ ys \<and>
    expiry_state (ew_dispatcher ew) C d ev stamp ids d' ev' \<and> (\<not> faulty \<longrightarrow> s_ID ` set xs \<subseteq> dom stamp))" for ys d' ev'
  have start: "expiry_state (ew_dispatcher ew) C d ev Map.empty [] d' ev" "warned_once d ev d' ev"
    if "tables.truncate d' = tables.truncate d" for d'
    using truncate_fields [OF that] by (simp_all add: expiry_state_def warned_once_same cong: map_cong)
  have step: "vc faulty C (expire_one ew y) (\<lambda>_. P ys) (\<lambda>_ _ _. False) d1 ev1" if "P (y # ys) d1 ev1" for y ys d1 ev1
  proof -
    from that obtain xs stamp ids where w: "warned_once d ev d1 ev1" and xs: "subs = xs @ y # ys"
      and st: "expiry_state (ew_dispatcher ew) C d ev stamp ids d1 ev1" and marked: "\<not> faulty \<longrightarrow> s_ID ` set xs \<subseteq> dom stamp"
      unfolding P_def by blast
    have y: "y \<in> set (t_subs d)" "s_Status y = ''active''" "overdue t y" using subs [of y] xs by auto
    show ?thesis
    proof (rule vc_mono [OF expire_one_vc [OF assms(1) y(1,2) assms(2) y(3) st]])
      fix x :: unit and d2 ev2
      assume "warned_once d1 ev1 d2 ev2 \<and> (\<exists>stamp' ids'. dom stamp \<subseteq> dom stamp' \<and> (\<not> faulty \<longrightarrow> s_ID y \<in> dom stamp') \<and>
        expiry_state (ew_dispatcher ew) C d ev stamp' ids' d2 ev2)"
      then obtain stamp' ids' where "warned_once d1 ev1 d2 ev2" "dom stamp \<subseteq> dom stamp'" "\<not> faulty \<longrightarrow> s_ID y \<in> dom stamp'"
        "expiry_state (ew_dispatcher ew) C d ev stamp' ids' d2 ev2" by blast
      moreover from this marked have "\<not> faulty \<longrightarrow> s_ID ` set (xs @ [y]) \<subseteq> dom stamp'" by (simp, blast)
      moreover have "subs = (xs @ [y]) @ ys" using xs by simp
      ultimately show "P ys d2 ev2" unfolding P_def using warned_once_trans [OF w] by blast
    qed simp
  qed
  have loop: "vc faulty C (for_each (expire_one ew) subs) (\<lambda>_. P []) (\<lambda>_ _ _. False) d' ev"
    if "tables.truncate d' = tables.truncate d" for d'
    by (rule vc_for_each [where P = P]) (use start [OF that] step in \<open>auto simp: P_def\<close>)
  show ?thesis
    unfolding handleExpiredBulk_def
  proof (rule vc_bind, rule vc_attempt, rule vc_external_result [OF external_RemoveUsersBulk])
    fix r :: "unit result" and d' :: "'m tables_scheme" and w :: "'m tables_scheme world"
    assume d': "tables.truncate d' = tables.truncate d" and r: "fst (eg_RemoveUsersBulk (ew_engine ew) (map s_Email subs) w) = r"
    show "case r of
        Inr x \<Rightarrow> vc faulty C (case Inr x of Inl _ \<Rightarrow> ret () | Inr _ \<Rightarrow> for_each (expire_one ew) subs) (\<lambda>_. ?Q) (\<lambda>_ _ _. False) d' ev
      | Inl e \<Rightarrow> vc faulty C (case Inl e of Inl _ \<Rightarrow> ret () | Inr _ \<Rightarrow> for_each (expire_one ew) subs) (\<lambda>_. ?Q) (\<lambda>_ _ _. False) d' ev"
    proof (cases r)
      case (Inl e)
      then have "\<not> removal_answers ew" using r by (metis isl_def removal_answers_def)
      then show ?thesis using Inl start [OF d'] by (auto intro!: vc_ret)
    next
      case (Inr x)
      show ?thesis unfolding Inr sum.case
        by (rule vc_mono [OF loop [OF d']]) (auto simp: P_def)
    qed
  qed
qed

end

section \<open>What a pass does\<close>

text \<open>The devices after the deletion of those above a limit.\<close>

definition live_subs :: "time \<Rightarrow> 'm tables_scheme \<Rightarrow> Subscription list" where
  "live_subs ts d = filter (\<lambda>s. \<not> overdue ts s) (filter (\<lambda>s. s_Status s = ''active'') (t_subs d))"

definition device_counts :: "'m tables_scheme \<Rightarrow> (string \<times> int) list" where
  "device_counts d = group_by d_SubscriptionID (\<lambda>rows. int (length rows))
     (filter (\<lambda>dv. d_SubscriptionID dv \<in> set (map s_ID (filter (\<lambda>s. s_Status s = ''active'') (t_subs d)))) (t_devices d))"

definition trimmed :: "time \<Rightarrow> 'm tables_scheme \<Rightarrow> Device list" where
  "trimmed ts d = filter (\<lambda>dv. d_ID dv \<notin> set (concat (map (excess_ids (device_counts d) (t_devices d)) (live_subs ts d)))) (t_devices d)"

lemma map_of_group_by:
  "(case map_of (group_by key (\<lambda>rows. int (length rows)) rows) k of Some n \<Rightarrow> n | None \<Rightarrow> 0) = count_rows (\<lambda>r. key r = k) rows"
proof -
  have "map_of (group_by key (\<lambda>rows. int (length rows)) rows) k =
    (if k \<in> key ` set rows then Some (count_rows (\<lambda>r. key r = k) rows) else None)"
    unfolding group_by_def count_rows_def by (simp add: map_of_map_restrict)
  moreover have "count_rows (\<lambda>r. key r = k) rows = 0" if "k \<notin> key ` set rows"
    using that by (auto simp: count_rows_def filter_empty_conv)
  ultimately show ?thesis by simp
qed

lemma device_counts:
  assumes "s \<in> set (live_subs ts d)"
  shows "(case map_of (device_counts d) (s_ID s) of Some n \<Rightarrow> n | None \<Rightarrow> 0) = devices_of (s_ID s) d"
proof -
  have "s_ID s \<in> set (map s_ID (filter (\<lambda>s. s_Status s = ''active'') (t_subs d)))" using assms by (auto simp: live_subs_def)
  then show ?thesis unfolding device_counts_def map_of_group_by devices_of_def count_rows_def filter_filter
    by (metis (mono_tags, lifting))
qed

lemma length_filter_sort: "length (filter p (sort_key f xs)) = length (filter p xs)"
  by (metis mset_filter mset_sort size_mset)

lemma drop_oldest:
  fixes f :: "'a \<Rightarrow> int"
  assumes "distinct (map f xs)"
  shows "length (filter (\<lambda>x. f x \<notin> f ` set (take k (sort_key f xs))) xs) = length xs - k"
proof -
  let ?s = "sort_key f xs"
  have d: "distinct (map f ?s)" using assms by (metis distinct_map distinct_sort set_sort)
  have "length (filter (\<lambda>x. f x \<notin> f ` set (take k ?s)) xs) = length (filter (\<lambda>x. f x \<notin> f ` set (take k ?s)) (take k ?s @ drop k ?s))"
    by (simp only: append_take_drop_id length_filter_sort)
  also have "\<dots> = length (drop k ?s)"
  proof -
    have "filter (\<lambda>x. f x \<notin> f ` set (take k ?s)) (take k ?s) = []" by (auto simp: filter_empty_conv)
    moreover have "distinct (map f (take k ?s @ drop k ?s))" using d by simp
    then have "filter (\<lambda>x. f x \<notin> f ` set (take k ?s)) (drop k ?s) = drop k ?s"
      unfolding filter_id_conv map_append distinct_append set_map by blast
    ultimately show ?thesis by (simp only: filter_append append_Nil)
  qed
  finally show ?thesis by simp
qed

lemma trimmed_count:
  assumes "distinct (map d_ID (t_devices d))" and "distinct (map s_ID (t_subs d))" and "s \<in> set (live_subs ts d)"
  shows "count_rows (\<lambda>dv. d_SubscriptionID dv = s_ID s) (trimmed ts d) = min (devices_of (s_ID s) d) (device_cap s)"
proof -
  let ?own = "filter (\<lambda>dv. d_SubscriptionID dv = s_ID s) (t_devices d)"
  let ?k = "nat (devices_of (s_ID s) d - device_cap s)"
  have excess: "excess_ids (device_counts d) (t_devices d) r =
      map d_ID (take (nat (devices_of (s_ID r) d - device_cap r)) (sort_key d_ID (filter (\<lambda>dv. d_SubscriptionID dv = s_ID r) (t_devices d))))"
    if "r \<in> set (live_subs ts d)" for r
    unfolding excess_ids_def device_counts [OF that] Let_def ..
  have mine: "d_ID dv \<in> set (concat (map (excess_ids (device_counts d) (t_devices d)) (live_subs ts d))) \<longleftrightarrow>
      d_ID dv \<in> d_ID ` set (take ?k (sort_key d_ID ?own))" if dv: "dv \<in> set ?own" for dv
  proof
    assume "d_ID dv \<in> set (concat (map (excess_ids (device_counts d) (t_devices d)) (live_subs ts d)))"
    then obtain r dv' where r: "r \<in> set (live_subs ts d)"
      and dv': "dv' \<in> set (take (nat (devices_of (s_ID r) d - device_cap r)) (sort_key d_ID (filter (\<lambda>dv. d_SubscriptionID dv = s_ID r) (t_devices d))))"
        "d_ID dv' = d_ID dv"
      using excess by auto
    have in': "dv' \<in> set (t_devices d)" "d_SubscriptionID dv' = s_ID r" using in_set_takeD [OF dv'(1)] by auto
    then have "dv' = dv" using same_key [OF assms(1)] dv dv'(2) by simp
    then have "s_ID r = s_ID s" using in'(2) dv by simp
    then have "r = s" using same_key [OF assms(2)] r assms(3) by (auto simp: live_subs_def)
    then show "d_ID dv \<in> d_ID ` set (take ?k (sort_key d_ID ?own))" using dv' by (metis image_eqI)
  next
    assume "d_ID dv \<in> d_ID ` set (take ?k (sort_key d_ID ?own))"
    then have "d_ID dv \<in> set (excess_ids (device_counts d) (t_devices d) s)" unfolding excess [OF assms(3)] by simp
    then show "d_ID dv \<in> set (concat (map (excess_ids (device_counts d) (t_devices d)) (live_subs ts d)))"
      using assms(3) by auto
  qed
  have "filter (\<lambda>dv. d_SubscriptionID dv = s_ID s) (trimmed ts d) = filter (\<lambda>dv. d_ID dv \<notin> d_ID ` set (take ?k (sort_key d_ID ?own))) ?own"
    unfolding trimmed_def filter_filter using mine by (intro filter_cong) auto
  moreover have "distinct (map d_ID ?own)" using assms(1) by (simp add: distinct_map_filter)
  ultimately have "length (filter (\<lambda>dv. d_SubscriptionID dv = s_ID s) (trimmed ts d)) = length ?own - ?k"
    by (simp only: drop_oldest)
  moreover have "0 < device_cap s" by (simp add: device_cap_def)
  ultimately show ?thesis by (auto simp: count_rows_def devices_of_def)
qed

lemma expiry_state_base:
  assumes "t_subs d1 = t_subs d0" and "t_users d1 = t_users d0"
    and "announced ''subscription.expired'' ev1 = announced ''subscription.expired'' ev0"
  shows "expiry_state b C d1 ev1 stamp ids d ev = expiry_state b C (d0\<lparr>t_devices := t_devices d1\<rparr>) ev0 stamp ids d ev"
  using assms by (simp add: expiry_state_def)

text \<open>The state after a pass: the rows it expired and, when nothing failed, the devices it deleted.\<close>

definition passed ::
  "bool \<Rightarrow> time set \<Rightarrow> 'm tables_scheme ExpiryWorker \<Rightarrow> 'm tables_scheme \<Rightarrow> event list \<Rightarrow> 'm tables_scheme \<Rightarrow> event list \<Rightarrow> bool"
where
  "passed faulty C ew d ev d' ev' \<longleftrightarrow> warned_once d ev d' ev' \<and>
     (\<exists>devs stamp ids. expiry_state (ew_dispatcher ew) C (d\<lparr>t_devices := devs\<rparr>) ev stamp ids d' ev' \<and>
       (\<not> faulty \<longrightarrow> (\<exists>ts \<in> C. devs = trimmed ts d \<and>
          (removal_answers ew \<longrightarrow> (\<forall>s \<in> set (t_subs d). s_Status s = ''active'' \<and> overdue ts s \<longrightarrow> s_ID s \<in> dom stamp)))))"

lemma passedI:
  assumes "warned_once d ev d' ev'" and "expiry_state (ew_dispatcher ew) C (d\<lparr>t_devices := devs\<rparr>) ev stamp ids d' ev'"
    and "\<not> faulty \<Longrightarrow> \<exists>ts \<in> C. devs = trimmed ts d \<and>
      (removal_answers ew \<longrightarrow> (\<forall>s \<in> set (t_subs d). s_Status s = ''active'' \<and> overdue ts s \<longrightarrow> s_ID s \<in> dom stamp))"
  shows "passed faulty C ew d ev d' ev'"
  using assms unfolding passed_def by blast

lemma expiry_state_none:
  assumes "t_subs d' = t_subs d" "t_users d' = t_users d"
    and "announced ''subscription.expired'' ev' = announced ''subscription.expired'' ev"
  shows "expiry_state b C (d\<lparr>t_devices := t_devices d'\<rparr>) ev Map.empty [] d' ev'"
  using assms by (simp add: expiry_state_def cong: map_cong)

lemma passed_idle:
  assumes "faulty \<or> filter (\<lambda>s. s_Status s = ''active'') (t_subs d) = []" and "C \<noteq> {}"
  shows "passed faulty C ew d ev d ev"
proof (rule passedI)
  show "expiry_state (ew_dispatcher ew) C (d\<lparr>t_devices := t_devices d\<rparr>) ev Map.empty [] d ev" by (rule expiry_state_none) simp_all
  show "\<exists>ts \<in> C. t_devices d = trimmed ts d \<and> (removal_answers ew \<longrightarrow>
      (\<forall>s \<in> set (t_subs d). s_Status s = ''active'' \<and> overdue ts s \<longrightarrow> s_ID s \<in> dom Map.empty))" if "\<not> faulty"
    using assms that by (auto simp: trimmed_def live_subs_def filter_empty_conv)
qed (rule warned.state_refl)

context expiry_port
begin

lemma expire_after_scan:
  assumes "distinct (map s_ID (t_subs d))" and "ts \<in> C"
    and scan: "scan_frame d ev d1 ev1" "warned_once d ev d1 ev1"
    and dels: "\<not> faulty \<Longrightarrow> devs = trimmed ts d"
    and subs: "subs = filter (overdue ts) (filter (\<lambda>s. s_Status s = ''active'') (t_subs d))"
  shows "vc faulty C (if subs = [] then ret () else handleExpiredBulk ew subs) (\<lambda>_. passed faulty C ew d ev) (\<lambda>_ _ _. False)
    (d1\<lparr>t_devices := devs\<rparr>) ev1"
proof (rule vc_if)
  assume "subs = []"
  then show "vc faulty C (ret ()) (\<lambda>_. passed faulty C ew d ev) (\<lambda>_ _ _. False) (d1\<lparr>t_devices := devs\<rparr>) ev1"
    using scan dels assms(2) subs expiry_state_none [of "d1\<lparr>t_devices := devs\<rparr>" d ev1 ev "ew_dispatcher ew" C]
    by (intro vc_ret passedI [where devs = devs and stamp = Map.empty and ids = "[]"])
      (auto simp: scan_frame_def filter_empty_conv warned_once_def)
next
  let ?d = "d1\<lparr>t_devices := devs\<rparr>"
  have same: "t_subs ?d = t_subs d" "t_users ?d = t_users d"
    "announced ''subscription.expired'' ev1 = announced ''subscription.expired'' ev"
    using scan(1) by (simp_all add: scan_frame_def)
  have w: "warned_once d ev ?d ev1" using scan(2) by (simp add: warned_once_def)
  have "vc faulty C (handleExpiredBulk ew subs) (\<lambda>_ d' ev'. warned_once ?d ev1 d' ev' \<and>
     (\<exists>stamp ids. expiry_state (ew_dispatcher ew) C ?d ev1 stamp ids d' ev' \<and>
        (\<not> faulty \<and> removal_answers ew \<longrightarrow> s_ID ` set subs \<subseteq> dom stamp))) (\<lambda>_ _ _. False) ?d ev1"
    by (rule handleExpiredBulk_vc [OF _ assms(2)]) (use assms(1) subs same in auto)
  then show "vc faulty C (handleExpiredBulk ew subs) (\<lambda>_. passed faulty C ew d ev) (\<lambda>_ _ _. False) ?d ev1"
  proof (rule vc_mono)
    fix x :: unit and d' ev'
    assume "warned_once ?d ev1 d' ev' \<and> (\<exists>stamp ids. expiry_state (ew_dispatcher ew) C ?d ev1 stamp ids d' ev' \<and>
        (\<not> faulty \<and> removal_answers ew \<longrightarrow> s_ID ` set subs \<subseteq> dom stamp))"
    then obtain stamp ids where "warned_once ?d ev1 d' ev'" "expiry_state (ew_dispatcher ew) C ?d ev1 stamp ids d' ev'"
      and marked: "\<not> faulty \<and> removal_answers ew \<longrightarrow> s_ID ` set subs \<subseteq> dom stamp" by blast
    then have "warned_once d ev d' ev'" "expiry_state (ew_dispatcher ew) C (d\<lparr>t_devices := devs\<rparr>) ev stamp ids d' ev'"
      using warned_once_trans [OF w] expiry_state_base [OF same] by simp_all
    then show "passed faulty C ew d ev d' ev'"
    proof (rule passedI)
      show "\<exists>ts \<in> C. devs = trimmed ts d \<and> (removal_answers ew \<longrightarrow>
        (\<forall>s \<in> set (t_subs d). s_Status s = ''active'' \<and> overdue ts s \<longrightarrow> s_ID s \<in> dom stamp))" if "\<not> faulty"
        using dels [OF that] assms(2) marked that unfolding subs by (intro bexI [of _ ts] conjI impI ballI) auto
    qed
  qed simp
qed

lemma ProcessOnce_vc:
  assumes "distinct (map s_ID (t_subs d))" and "C \<noteq> {}"
  shows "vc faulty C (ProcessOnce ew) (\<lambda>_. passed faulty C ew d ev) (\<lambda>_ _ _. False) d ev"
proof -
  let ?subs = "filter (\<lambda>s. s_Status s = ''active'') (t_subs d)"
  have pass: "vc faulty C (bind (scan_subs ew ts counts ?subs ([], [])) (\<lambda>(expiredSubs, devicesToDelete).
              bind (if devicesToDelete = [] then ret ()
                    else bind (attempt (Devices_DeleteByIDs devicesToDelete)) (\<lambda>_. ret ())) (\<lambda>_.
              if expiredSubs = [] then ret () else handleExpiredBulk ew expiredSubs)))
     (\<lambda>_. passed faulty C ew d ev) (\<lambda>_ _ _. False) d ev"
    if "ts \<in> C" "\<not> faulty \<longrightarrow> counts = device_counts d" for ts counts
  proof (rule vc_bind, rule vc_mono [OF scan_subs_vc])
    fix r :: "Subscription list \<times> int list" and d1 ev1
    assume scanned: "scan_frame d ev d1 ev1 \<and> warned_once d ev d1 ev1 \<and> fst r = fst ([], []) @ filter (overdue ts) ?subs \<and>
      (\<not> faulty \<longrightarrow> snd r = snd ([], []) @ concat (map (excess_ids counts (t_devices d)) (filter (\<lambda>s. \<not> overdue ts s) ?subs)))"
    obtain expired dels where r: "r = (expired, dels)" by (cases r)
    have trim: "\<not> faulty \<Longrightarrow> filter (\<lambda>dv. d_ID dv \<notin> set dels) (t_devices d1) = trimmed ts d"
      using scanned that(2) r by (simp add: trimmed_def live_subs_def scan_frame_def)
    define T where "T = (if expired = [] then ret () else handleExpiredBulk ew expired)"
    have tail: "vc faulty C T (\<lambda>_. passed faulty C ew d ev) (\<lambda>_ _ _. False)
        (d1\<lparr>t_devices := devs\<rparr>) ev1" if "\<not> faulty \<Longrightarrow> devs = trimmed ts d" for devs
      unfolding T_def by (rule expire_after_scan [OF assms(1) \<open>ts \<in> C\<close>]) (use scanned r that in auto)
    have deleted: "vc faulty C T (\<lambda>_. passed faulty C ew d ev) (\<lambda>_ _ _. False)
        (t_devices_update (filter (\<lambda>dv. d_ID dv \<notin> set dels)) d1) ev1"
      using tail [of "filter (\<lambda>dv. d_ID dv \<notin> set dels) (t_devices d1)", OF trim] by (cases d1) simp
    have kept: "vc faulty C T (\<lambda>_. passed faulty C ew d ev) (\<lambda>_ _ _. False) d1 ev1"
      if "faulty \<or> dels = []" using tail [of "t_devices d1"] trim that by (cases d1) auto
    show "vc faulty C (case r of (expiredSubs, devicesToDelete) \<Rightarrow>
              bind (if devicesToDelete = [] then ret ()
                    else bind (attempt (Devices_DeleteByIDs devicesToDelete)) (\<lambda>_. ret ())) (\<lambda>_.
              if expiredSubs = [] then ret () else handleExpiredBulk ew expiredSubs))
     (\<lambda>_. passed faulty C ew d ev) (\<lambda>_ _ _. False) d1 ev1"
      unfolding r prod.case Devices_DeleteByIDs_def T_def [symmetric]
      by (rule vc_bind, rule vc_if) (use kept deleted in \<open>auto intro!: vc_ret vc_bind vc_attempt vc_exec\<close>)
  qed simp
  show ?thesis
    unfolding ProcessOnce_def Subs_FindByStatus_def Devices_CountBySubscriptions_def
    by (rule vc_bind, rule vc_attempt, rule vc_map_error, rule vc_query)
      (use assms(2) in \<open>auto simp: Let_def device_counts_def split: if_splits
        intro!: vc_ret passed_idle pass vc_bind [where m = now] vc_now vc_bind [where m = "attempt _"] vc_attempt vc_map_error vc_query\<close>)
qed

end

section \<open>Properties\<close>

lemma ProcessOnce_passed:
  assumes "expiry_port ew" and "distinct (map s_ID (t_subs (w_db w)))" and "ProcessOnce ew w = (r, w')" and "ambient faulty C w"
  shows "r = Inr () \<and> passed faulty C ew (w_db w) (w_events w) (w_db w') (w_events w')"
proof -
  have "C \<noteq> {}" using assms(4) by (auto simp: ambient_def)
  from vcD [OF expiry_port.ProcessOnce_vc [OF assms(1,2) this] assms(4,3)] show ?thesis by (cases r) auto
qed

lemma passed_keeps_ids:
  assumes "passed faulty C ew d ev d' ev'"
  shows "map s_ID (t_subs d') = map s_ID (t_subs d)"
  using assms by (auto simp: passed_def expiry_state_def)

text \<open>The worker of a node without a VPN process.\<close>

definition noop_worker :: "'m tables_scheme ExpiryWorker" where
  "noop_worker = \<lparr>ew_ExpirationWarnings = [''72h'', ''24h'', ''3h''], ew_IsMaster = True, ew_dispatcher = True,
     ew_engine = NoopEngine, ew_propagator = None\<rparr>"

interpretation noop_expiry: expiry_port noop_worker
  unfolding expiry_port_def noop_worker_def using noop.engine_port_axioms by simp

text \<open>A subscription that is over, one with five hours left and five devices, and one without end.\<close>

definition expiry_tables :: tables where
  "expiry_tables = empty_tables\<lparr>t_users := [demo_user],
     t_subs := [renewal_sub\<lparr>s_Status := ''active''\<rparr>,
       renewal_sub\<lparr>s_ID := ''s2'', s_Email := ''bob@x'', s_UUID := ''uuid2'', s_Status := ''active'', s_EndsAt := Some (5 * Hour)\<rparr>,
       renewal_sub\<lparr>s_ID := ''s3'', s_Email := ''eve@x'', s_UUID := ''uuid3'', s_Status := ''active'', s_EndsAt := None\<rparr>],
     t_devices := map (\<lambda>n. \<lparr>d_ID = n, d_SubscriptionID = ''s2'', d_HWID = [], d_DeviceModel = [], d_DeviceOS = [], d_UserAgent = []\<rparr>) [1, 2, 3, 4, 5]\<rparr>"

definition expiry_world :: "(nat \<Rightarrow> error option) \<Rightarrow> tables world" where
  "expiry_world fault = demo_world fault expiry_tables"

text \<open>
  C4: Whichever statements fail, a pass of the expiry worker ends without an error. It expires only active
  subscriptions that are over at a moment the clock read, changes no other row, and announces every
  subscription it expired exactly once.
\<close>

theorem expiry_never_early:
  assumes "expiry_port ew" and "distinct (map s_ID (t_subs (w_db w)))" and "ProcessOnce ew w = (r, w')"
  shows "r = Inr () \<and> (\<exists>stamp ids. t_subs (w_db w') = map (mark stamp) (t_subs (w_db w)) \<and> t_users (w_db w') = t_users (w_db w) \<and>
    (\<forall>i \<in> dom stamp. \<exists>s \<in> set (t_subs (w_db w)). s_ID s = i \<and> s_Status s = ''active'' \<and> (\<exists>n. overdue (w_clock w n) s)) \<and>
    distinct ids \<and> set ids = dom stamp \<and>
    (ew_dispatcher ew \<longrightarrow> announced ''subscription.expired'' (w_events w') =
       announced ''subscription.expired'' (w_events w) @ map (Some \<circ> JStr) ids))"
proof -
  have "ambient True (range (w_clock w)) w" by (simp add: ambient_def)
  from ProcessOnce_passed [OF assms this] have "r = Inr ()"
    and p: "passed True (range (w_clock w)) ew (w_db w) (w_events w) (w_db w') (w_events w')" by simp_all
  from p obtain devs stamp ids where
    "expiry_state (ew_dispatcher ew) (range (w_clock w)) ((w_db w)\<lparr>t_devices := devs\<rparr>) (w_events w) stamp ids (w_db w') (w_events w')"
    unfolding passed_def by blast
  then show ?thesis using \<open>r = Inr ()\<close> unfolding expiry_state_def
    by (intro conjI exI [of _ stamp] exI [of _ ids]) simp_all
qed

theorem expiry_never_early_witness:
  "fst (ProcessOnce noop_worker (expiry_world (\<lambda>n. if n mod 2 = 1 then Some (ErrDriver ''busy'') else None))) = Inr () \<and>
   (\<exists>stamp ids. t_subs (w_db (snd (ProcessOnce noop_worker (expiry_world (\<lambda>n. if n mod 2 = 1 then Some (ErrDriver ''busy'') else None))))) =
      map (mark stamp) (t_subs expiry_tables) \<and> distinct ids \<and> set ids = dom stamp)"
proof -
  let ?w = "expiry_world (\<lambda>n. if n mod 2 = 1 then Some (ErrDriver ''busy'') else None)"
  have "w_db ?w = expiry_tables" by (simp add: expiry_world_def demo_world_def)
  moreover have "distinct (map s_ID (t_subs (w_db ?w)))" by code_simp
  ultimately show ?thesis
    using expiry_never_early [OF noop_expiry.expiry_port_axioms _ prod.collapse [symmetric], of ?w] by metis
qed

text \<open>
  C16: When the database answers and the engine takes removals, a pass leaves no subscription active that is
  over at every moment the clock can read.
\<close>

theorem expiry_complete:
  assumes "calm C w" and "expiry_port ew" and "distinct (map s_ID (t_subs (w_db w)))" and "removal_answers ew"
  shows "\<exists>w'. ProcessOnce ew w = (Inr (), w') \<and>
    (\<forall>s \<in> set (t_subs (w_db w')). s_Status s = ''active'' \<longrightarrow> (\<exists>t \<in> C. \<not> overdue t s))"
proof -
  obtain r w' where run: "ProcessOnce ew w = (r, w')" by fastforce
  from ProcessOnce_passed [OF assms(2,3) run assms(1)] have r: "r = Inr ()"
    and "passed False C ew (w_db w) (w_events w) (w_db w') (w_events w')" by simp_all
  with assms(4) obtain stamp ts where subs: "t_subs (w_db w') = map (mark stamp) (t_subs (w_db w))" and ts: "ts \<in> C"
    and marked: "\<forall>s \<in> set (t_subs (w_db w)). s_Status s = ''active'' \<and> overdue ts s \<longrightarrow> s_ID s \<in> dom stamp"
    unfolding passed_def expiry_state_def by auto
  have "\<not> overdue ts (mark stamp s)" if "s \<in> set (t_subs (w_db w))" "s_Status (mark stamp s) = ''active''" for s
    using that marked by (auto simp: mark_def overdue_def split: option.splits)
  then have "\<forall>s \<in> set (t_subs (w_db w')). s_Status s = ''active'' \<longrightarrow> (\<exists>t \<in> C. \<not> overdue t s)"
    using ts unfolding subs by auto
  then show ?thesis using run r by simp
qed

theorem expiry_complete_witness:
  "\<exists>w'. ProcessOnce noop_worker (expiry_world (\<lambda>_. None)) = (Inr (), w') \<and>
     (\<forall>s \<in> set (t_subs (w_db w')). s_Status s = ''active'' \<longrightarrow> (\<exists>t \<in> {1000..}. \<not> overdue t s))"
proof -
  have "calm {1000..} (expiry_world (\<lambda>_. None))" by (auto simp: calm_def expiry_world_def demo_world_def)
  moreover have "distinct (map s_ID (t_subs (w_db (expiry_world (\<lambda>_. None)))))" by code_simp
  moreover have "removal_answers (noop_worker :: tables ExpiryWorker)"
    by (simp add: removal_answers_def noop_worker_def NoopEngine_def ret_def)
  ultimately show ?thesis using expiry_complete noop_expiry.expiry_port_axioms by blast
qed

text \<open>
  C17: However many passes run and whichever statements fail, no warning is sent twice: the warnings sent name
  pairwise different pairs of a subscription and a level, none of which had been recorded as sent before.
\<close>

theorem warnings_sent_once:
  assumes "list_all expiry_port ews" and "distinct (map s_ID (t_subs (w_db w)))" and "for_each ProcessOnce ews w = (r, w')"
  shows "\<exists>ks. warnings (w_events w') = warnings (w_events w) @ map json_key ks \<and> distinct ks \<and>
    set ks \<inter> note_key ` set (t_notifs (w_db w)) = {}"
proof -
  have "warned_once (w_db w) (w_events w) (w_db w') (w_events w')"
    using assms
  proof (induction ews arbitrary: w)
    case Nil
    then show ?case by (simp add: ret_def warned.state_refl)
  next
    case (Cons ew ews)
    obtain r1 w1 where run: "ProcessOnce ew w = (r1, w1)" by fastforce
    have "ambient True UNIV w" by (simp add: ambient_def)
    with ProcessOnce_passed [OF _ Cons.prems(2) run this] Cons.prems(1)
    have r1: "r1 = Inr ()" and p: "passed True UNIV ew (w_db w) (w_events w) (w_db w1) (w_events w1)" by simp_all
    have "warned_once (w_db w1) (w_events w1) (w_db w') (w_events w')"
      by (rule Cons.IH) (use Cons.prems run r1 passed_keeps_ids [OF p] in \<open>simp_all add: bind_def\<close>)
    then show ?case using p warned_once_trans by (auto simp: passed_def)
  qed
  then show ?thesis unfolding warned_once_def by blast
qed

theorem warnings_sent_once_witness:
  "\<exists>ks. warnings (w_events (snd (for_each ProcessOnce [noop_worker, noop_worker] (expiry_world (\<lambda>_. None))))) = map json_key ks \<and>
     distinct ks"
proof -
  let ?w = "expiry_world (\<lambda>_. None)" and ?ews = "[noop_worker, noop_worker] :: tables ExpiryWorker list"
  have ok: "list_all expiry_port ?ews" using noop_expiry.expiry_port_axioms by simp
  have "distinct (map s_ID (t_subs (w_db ?w)))" "warnings (w_events ?w) = []" by code_simp+
  then show ?thesis
    using warnings_sent_once [OF ok, of ?w "fst (for_each ProcessOnce ?ews ?w)" "snd (for_each ProcessOnce ?ews ?w)"] by auto
qed

text \<open>
  C33: When the database answers, a pass leaves every active subscription that is not over with as many
  devices as before or as its limit allows, whichever is less.
\<close>

theorem devices_trimmed:
  assumes "calm C w" and "expiry_port ew" and "distinct (map s_ID (t_subs (w_db w)))" and "distinct (map d_ID (t_devices (w_db w)))"
    and "s \<in> set (t_subs (w_db w))" and "s_Status s = ''active''" and "\<forall>t \<in> C. \<not> overdue t s"
  shows "\<exists>w'. ProcessOnce ew w = (Inr (), w') \<and>
    devices_of (s_ID s) (w_db w') = min (devices_of (s_ID s) (w_db w)) (device_cap s)"
proof -
  obtain r w' where run: "ProcessOnce ew w = (r, w')" by fastforce
  from ProcessOnce_passed [OF assms(2,3) run assms(1)] have r: "r = Inr ()"
    and "passed False C ew (w_db w) (w_events w) (w_db w') (w_events w')" by simp_all
  then obtain ts where ts: "ts \<in> C" and devs: "t_devices (w_db w') = trimmed ts (w_db w)"
    unfolding passed_def expiry_state_def by auto
  have "s \<in> set (live_subs ts (w_db w))" using assms(5-7) ts by (simp add: live_subs_def)
  from trimmed_count [OF assms(4,3) this] show ?thesis using run r devs by (simp add: devices_of_def)
qed

theorem devices_trimmed_witness:
  "\<exists>w'. ProcessOnce noop_worker (expiry_world (\<lambda>_. None)\<lparr>w_clock := (\<lambda>_. 1000)\<rparr>) = (Inr (), w') \<and> devices_of ''s2'' (w_db w') = 3"
proof -
  let ?w = "expiry_world (\<lambda>_. None)\<lparr>w_clock := (\<lambda>_. 1000)\<rparr>" and ?s = "t_subs expiry_tables ! 1"
  have c: "calm {1000} ?w" by (auto simp: calm_def expiry_world_def demo_world_def)
  have d: "distinct (map s_ID (t_subs (w_db ?w)))" "distinct (map d_ID (t_devices (w_db ?w)))" by code_simp+
  have s: "?s \<in> set (t_subs (w_db ?w))" "s_Status ?s = ''active''" "\<forall>t \<in> {1000}. \<not> overdue t ?s" by code_simp+
  have n: "s_ID ?s = ''s2''" "devices_of ''s2'' (w_db ?w) = 5" "device_cap ?s = 3" by code_simp+
  show ?thesis using devices_trimmed [OF c noop_expiry.expiry_port_axioms d s] unfolding n by simp
qed

section \<open>The extension\<close>

definition extended :: "string \<Rightarrow> int \<Rightarrow> 'm tables_scheme \<Rightarrow> 'm tables_scheme \<Rightarrow> bool" where
  "extended subID months d d' \<longleftrightarrow> (\<exists>sub sub' e'. sub \<in> set (t_subs d) \<and> s_ID sub = subID \<and>
     sub' \<in> set (t_subs d') \<and> s_ID sub' = subID \<and> s_UserID sub' = s_UserID sub \<and> s_MaxDevices sub' = s_MaxDevices sub \<and>
     s_Status sub' = ''active'' \<and> s_EndsAt sub' = Some e' \<and> (\<forall>e. s_EndsAt sub = Some e \<longrightarrow> e + 28 * months * Day \<le> e')) \<and>
     filter (\<lambda>s. s_ID s \<noteq> subID) (t_subs d') = filter (\<lambda>s. s_ID s \<noteq> subID) (t_subs d) \<and>
     t_users d' = t_users d \<and> t_payments d' = t_payments d"

lemma filter_update_where: "(\<And>x. p x \<Longrightarrow> \<not> q x \<and> \<not> q (f x)) \<Longrightarrow> filter q (update_where p f xs) = filter q xs"
  by (induction xs) (auto simp: update_where_def)

lemma extendedI:
  assumes "0 \<le> months" and "sub \<in> set (t_subs d)" and "s_ID sub = subID" and "t_subs d1 = t_subs d"
    and "t_users d1 = t_users d" and "t_payments d1 = t_payments d"
    and "save_row t_subs t_subs_update (\<lambda>x y. s_ID x = s_ID y) sub_clash
      (sub\<lparr>s_EndsAt := Some (add_months (case s_EndsAt sub of Some e \<Rightarrow> if e > ts then e else ts | None \<Rightarrow> ts) months),
         s_Status := ''active'', s_UpdatedAt := ts'\<rparr>) d1 = (Inr x, d')"
  shows "extended subID months d d'"
proof -
  let ?base = "case s_EndsAt sub of Some e \<Rightarrow> if e > ts then e else ts | None \<Rightarrow> ts"
  let ?sub = "sub\<lparr>s_EndsAt := Some (add_months ?base months), s_Status := ''active'', s_UpdatedAt := ts'\<rparr>"
  have ex: "list_ex (\<lambda>y. s_ID ?sub = s_ID y) (t_subs d1)" using assms(2,4) by (auto simp: list_ex_iff)
  then have d': "d' = t_subs_update (update_where (\<lambda>y. s_ID ?sub = s_ID y) (\<lambda>_. ?sub)) d1"
    using assms(7) by (simp add: save_row_def split: if_splits)
  have "?sub \<in> set (t_subs d')" using ex unfolding d' by (auto simp: update_where_def list_ex_iff image_iff)
  moreover have "e + 28 * months * Day \<le> add_months ?base months" if "s_EndsAt sub = Some e" for e
    using add_months_increases [OF assms(1), of ?base] that by (auto split: if_splits)
  moreover have "filter (\<lambda>s. s_ID s \<noteq> subID) (t_subs d') = filter (\<lambda>s. s_ID s \<noteq> subID) (t_subs d)"
    unfolding d' using assms(3,4) by (simp add: filter_update_where)
  ultimately show ?thesis using assms(2-6) unfolding extended_def d' by fastforce
qed

lemma ExtendSubscription_wp:
  "wp (ExtendSubscription initialised subID months) (\<lambda>_ d' ev'. extended subID months d d' \<and> ev' = ev) (\<lambda>_ d' ev'. d' = d \<and> ev' = ev) d ev"
proof -
  have reset: "wp (Notifications_ResetForEndsAt i e ls) (\<lambda>_ d' ev'. t_subs d' = t_subs d \<and> t_users d' = t_users d \<and> t_payments d' = t_payments d \<and> ev' = ev)
      (\<lambda>_ _ ev'. ev' = ev) d ev" for i e ls
    unfolding Notifications_ResetForEndsAt_def
    by (rule wp_mono [OF keeps_wp [OF notifs.keeps_transaction [OF reset_notifs_only]]]) (auto simp: notifs_only_def)
  have update: "wp (Subs_Update (sub\<lparr>s_EndsAt := Some (add_months (case s_EndsAt sub of Some e \<Rightarrow> if e > ts then e else ts | None \<Rightarrow> ts) months),
        s_Status := ''active''\<rparr>)) (\<lambda>_ d' ev'. extended subID months d d' \<and> ev' = ev) (\<lambda>_ _ ev'. ev' = ev) d1 ev"
    if "0 < months" "sub \<in> set (t_subs d)" "s_ID sub = subID" "t_subs d1 = t_subs d" "t_users d1 = t_users d" "t_payments d1 = t_payments d"
    for sub ts d1
    unfolding Subs_Update_def Let_def
    by (rule wp_map_error, rule wp_bind, rule wp_now, rule wp_bind, rule wp_stmt)
      (use extendedI [of months sub d subID d1] that in \<open>auto intro!: wp_ret\<close>)
  have body: "wp (bind (Notifications_ResetForEndsAt (s_ID sub) e []) (\<lambda>_.
       bind (Subs_Update (sub\<lparr>s_EndsAt := Some (add_months (case s_EndsAt sub of Some e \<Rightarrow> if e > ts then e else ts | None \<Rightarrow> ts) months),
         s_Status := ''active''\<rparr>)) (\<lambda>_. ret ()))) (\<lambda>_ d' ev'. extended subID months d d' \<and> ev' = ev) (\<lambda>_ _ ev'. ev' = ev) d ev"
    if "0 < months" "sub \<in> set (t_subs d)" "s_ID sub = subID" for sub e ts
    by (rule wp_bind, rule wp_mono [OF reset])
      (auto intro!: wp_bind [OF wp_mono [OF update [OF that]]] wp_ret)
  have tx: "wp (WithTx (bind (Subs_FindByID subID) (\<lambda>sub. bind now (\<lambda>ts.
      let base = (case s_EndsAt sub of Some e \<Rightarrow> if e > ts then e else ts | None \<Rightarrow> ts); endsAt = add_months base months
      in bind (Notifications_ResetForEndsAt (s_ID sub) (Some endsAt) []) (\<lambda>_.
         bind (Subs_Update (sub\<lparr>s_EndsAt := Some endsAt, s_Status := ''active''\<rparr>)) (\<lambda>_. ret ()))))))
    (\<lambda>_ d' ev'. extended subID months d d' \<and> ev' = ev) (\<lambda>_ d' ev'. d' = d \<and> ev' = ev) d ev" if "0 < months"
    unfolding WithTx_def Subs_FindByID_def Let_def
    by (rule wp_transaction, simp, rule wp_bind, rule wp_map_error, rule wp_query_first, simp, rule wp_bind, rule wp_now,
        rule wp_mono [OF body [OF that]]) (auto dest!: first_by_Some)
  show ?thesis
    unfolding ExtendSubscription_def using tx by (intro wp_if wp_fail) auto
qed

lemma ExtendSubscription_succeeds:
  assumes "0 < months" and "first_by s_ID (\<lambda>s. s_ID s = subID) (t_subs d) = Some sub"
    and unique: "\<And>y. y \<in> set (t_subs d) \<Longrightarrow> s_ID y \<noteq> subID \<Longrightarrow> s_Email y \<noteq> s_Email sub \<and> s_UUID y \<noteq> s_UUID sub"
  shows "succeeds C (ExtendSubscription True subID months) d ev"
proof -
  have sub: "s_ID sub = subID" using first_by_Some [OF assms(2)] by simp
  have reset: "calm_wp C (Notifications_ResetForEndsAt i e ls) (\<lambda>_ d' _. t_subs d' = t_subs d) (\<lambda>_ _ _. False) d ev" for i e ls ev
    unfolding Notifications_ResetForEndsAt_def
    by (rule calm_transaction, rule calm_mono [OF calm_and_wp [OF reset_succeeds keeps_wp [OF reset_notifs_only]]]) (auto simp: notifs_only_def)
  have save: "succeeds C (Subs_Update (sub\<lparr>s_EndsAt := e, s_Status := st\<rparr>)) d1 ev" if "t_subs d1 = t_subs d" for e st d1 ev
    unfolding Subs_Update_def Let_def
    by (intro calm_map_error calm_bind calm_now calm_stmt)
      (use unique sub that in \<open>auto intro!: calm_ret simp: save_row_def list_ex_iff sub_clash_def split: if_splits, metis+\<close>)
  show ?thesis
    unfolding ExtendSubscription_def WithTx_def Subs_FindByID_def Let_def using assms(1,2)
    by (auto intro!: calm_rules calm_mono [OF reset] calm_mono [OF save])
qed



end
