(* ===== verification/Encoding.thy ===== *)
theory Encoding
  imports Frame_Protocol
begin

text \<open>
  What the program uses of Go's \<^verbatim>\<open>encoding/base64\<close> (the standard encoding), \<^verbatim>\<open>encoding/hex\<close> and
  \<^verbatim>\<open>crypto/sha256\<close>, and that decoding undoes encoding. A string is the list of its bytes.
\<close>

unbundle bit_operations_syntax

definition bytes_of :: "string \<Rightarrow> byte list" where
  "bytes_of s = map (\<lambda>c. of_nat (of_char c)) s"

definition string_of :: "byte list \<Rightarrow> string" where
  "string_of bs = map (\<lambda>b. char_of (unat b)) bs"

lemma unat_byte: "unat (a :: byte) < 256"
  using unsigned_less [of a] by simp

lemma unat_of_char [simp]: "unat (of_nat (of_char c) :: byte) = of_char c"
  using of_char_mod_256 [of c, where ?'a = nat] by (simp add: unsigned_of_nat take_bit_eq_mod)

lemma string_of_bytes_of [simp]: "string_of (bytes_of s) = s"
  by (simp add: string_of_def bytes_of_def comp_def)

section \<open>Base64\<close>

text \<open>The alphabet: the upper-case letters, the lower-case letters, the digits, plus and slash.\<close>

definition b64_char :: "nat \<Rightarrow> char" where
  "b64_char n = char_of (if n < 26 then 65 + n else if n < 52 then 71 + n else if n < 62 then n - 4 else if n = 62 then 43 else 47)"

definition b64_value :: "char \<Rightarrow> nat option" where
  "b64_value c = (let x = of_char c in
     if 65 \<le> x \<and> x \<le> 90 then Some (x - 65) else if 97 \<le> x \<and> x \<le> 122 then Some (x - 71)
     else if 48 \<le> x \<and> x \<le> 57 then Some (x + 4) else if x = 43 then Some 62 else if x = 47 then Some 63 else None)"

definition b64_quad :: "nat \<Rightarrow> string" where
  "b64_quad v = [b64_char (v div 262144), b64_char (v div 4096 mod 64), b64_char (v div 64 mod 64), b64_char (v mod 64)]"

fun b64_encode :: "byte list \<Rightarrow> string" where
  "b64_encode [] = []"
| "b64_encode [a] = take 2 (b64_quad (unat a * 65536)) @ ''==''"
| "b64_encode [a, b] = take 3 (b64_quad (unat a * 65536 + unat b * 256)) @ ''=''"
| "b64_encode (a # b # c # rest) = b64_quad (unat a * 65536 + unat b * 256 + unat c) @ b64_encode rest"

text \<open>
  Four characters give three bytes; padding may stand only at the end. Bits of the last character that
  belong to no byte are ignored, as the non-strict decoder does.
\<close>

fun b64_quanta :: "string \<Rightarrow> byte list option" where
  "b64_quanta [] = Some []"
| "b64_quanta (p # q # r # s # rest) =
     (case (b64_value p, b64_value q) of
        (Some i, Some j) \<Rightarrow>
          (case b64_value r of
             Some k \<Rightarrow>
               (case b64_value s of
                  Some l \<Rightarrow>
                    (let v = i * 262144 + j * 4096 + k * 64 + l
                     in map_option (\<lambda>bs. of_nat (v div 65536) # of_nat (v div 256 mod 256) # of_nat (v mod 256) # bs)
                          (b64_quanta rest))
                | None \<Rightarrow>
                    (if s = CHR ''='' \<and> rest = []
                     then let v = i * 262144 + j * 4096 + k * 64 in Some [of_nat (v div 65536), of_nat (v div 256 mod 256)]
                     else None))
           | None \<Rightarrow>
               (if r = CHR ''='' \<and> s = CHR ''='' \<and> rest = []
                then let v = i * 262144 + j * 4096 in Some [of_nat (v div 65536)]
                else None))
      | _ \<Rightarrow> None)"
| "b64_quanta _ = None"

definition b64_decode :: "string \<Rightarrow> byte list result" where
  "b64_decode s = (case b64_quanta (filter (\<lambda>c. c \<noteq> CHR 13 \<and> c \<noteq> CHR 10) s) of
     Some bs \<Rightarrow> Inr bs | None \<Rightarrow> Inl (Err ''illegal base64 data''))"

lemma of_char_b64_char:
  "n < 64 \<Longrightarrow> of_char (b64_char n) = (if n < 26 then 65 + n else if n < 52 then 71 + n else if n < 62 then n - 4 else if n = 62 then 43 else 47)"
  by (simp add: b64_char_def)

lemma b64_value_char [simp]: "n < 64 \<Longrightarrow> b64_value (b64_char n) = Some n"
  by (auto simp: b64_value_def Let_def of_char_b64_char)

lemma b64_char_plain: "n < 64 \<Longrightarrow> b64_char n \<noteq> CHR 13 \<and> b64_char n \<noteq> CHR 10"
  using of_char_b64_char [of n] by (auto split: if_splits)

lemma b64_value_pad [simp]: "b64_value (CHR ''='') = None"
  by code_simp

lemma b64_sextets:
  "v < 16777216 \<Longrightarrow> v div 262144 < 64" "v div 4096 mod 64 < (64 :: nat)" "v div 64 mod 64 < (64 :: nat)" "v mod 64 < (64 :: nat)"
  by auto

lemma b64_sum:
  fixes v :: nat
  shows "v div 262144 * 262144 + v div 4096 mod 64 * 4096 + v div 64 mod 64 * 64 + v mod 64 = v"
proof -
  have "v div 64 = v div 4096 * 64 + v div 64 mod 64" using div_mult_mod_eq [of "v div 64" 64] by (simp add: div_mult2_eq [symmetric])
  moreover have "v div 4096 = v div 262144 * 64 + v div 4096 mod 64"
    using div_mult_mod_eq [of "v div 4096" 64] by (simp add: div_mult2_eq [symmetric])
  ultimately show ?thesis using div_mult_mod_eq [of v 64] by linarith
qed

lemma base256: "n < 256 \<Longrightarrow> (m * 256 + n) div 256 = (m :: nat)" "n < 256 \<Longrightarrow> (m * 256 + n) mod 256 = (n :: nat)"
  by simp_all

lemma b64_three:
  fixes a b c :: byte
  shows "unat a * 65536 + unat b * 256 + unat c < 16777216"
    and "(unat a * 65536 + unat b * 256 + unat c) div 65536 = unat a"
    and "(unat a * 65536 + unat b * 256 + unat c) div 256 mod 256 = unat b"
    and "(unat a * 65536 + unat b * 256 + unat c) mod 256 = unat c"
proof -
  have v: "unat a * 65536 + unat b * 256 + unat c = (unat a * 256 + unat b) * 256 + unat c" by simp
  have "x div 65536 = x div 256 div 256" for x :: nat by (simp add: div_mult2_eq [symmetric])
  then show "(unat a * 65536 + unat b * 256 + unat c) div 65536 = unat a"
    unfolding v by (simp only: base256 [OF unat_byte])
  show "(unat a * 65536 + unat b * 256 + unat c) div 256 mod 256 = unat b"
    "(unat a * 65536 + unat b * 256 + unat c) mod 256 = unat c" unfolding v by (simp_all only: base256 [OF unat_byte])
  show "unat a * 65536 + unat b * 256 + unat c < 16777216"
    using unat_byte [of a] unat_byte [of b] unat_byte [of c] by linarith
qed

lemmas b64_two = b64_three(1-3) [where c = 0, unfolded unat_0 add_0_right]
lemmas b64_one = b64_two(1,2) [where b = 0, unfolded unat_0 mult_zero_left add_0_right]

lemma b64_quad_plain: "v < 16777216 \<Longrightarrow> c \<in> set (b64_quad v) \<Longrightarrow> c \<noteq> CHR 13 \<and> c \<noteq> CHR 10"
  using b64_char_plain b64_sextets by (auto simp: b64_quad_def)

lemma b64_encode_plain: "c \<in> set (b64_encode bs) \<Longrightarrow> c \<noteq> CHR 13 \<and> c \<noteq> CHR 10"
proof (induction bs rule: b64_encode.induct)
  case (2 a)
  then show ?case using b64_quad_plain [OF b64_one(1)] by (auto dest: in_set_takeD)
next
  case (3 a b)
  then show ?case using b64_quad_plain [OF b64_two(1)] by (auto dest: in_set_takeD)
next
  case (4 a b c rest)
  then show ?case using b64_quad_plain [OF b64_three(1)] by (simp, blast)
qed simp

lemma b64_quanta_four:
  assumes "v < 16777216"
  shows "b64_quanta (b64_quad v @ rest) =
    map_option (\<lambda>bs. of_nat (v div 65536) # of_nat (v div 256 mod 256) # of_nat (v mod 256) # bs) (b64_quanta rest)"
  using b64_sextets [of v] assms by (simp add: b64_quad_def Let_def b64_sum)

lemma b64_quanta_three:
  assumes "v < 16777216" and "v mod 64 = 0"
  shows "b64_quanta (take 3 (b64_quad v) @ ''='') = Some [of_nat (v div 65536), of_nat (v div 256 mod 256)]"
  using b64_sextets [of v] assms b64_sum [of v] by (simp add: b64_quad_def Let_def)

lemma b64_quanta_two:
  assumes "v < 16777216" and "v mod 64 = 0" and "v div 64 mod 64 = 0"
  shows "b64_quanta (take 2 (b64_quad v) @ ''=='') = Some [of_nat (v div 65536)]"
  using b64_sextets [of v] assms b64_sum [of v] by (simp add: b64_quad_def Let_def)

lemma b64_low_zero: "(a * 65536 + b * 256) mod 64 = (0 :: nat)" "(a * 65536) mod 64 = (0 :: nat)" "a * 65536 div 64 mod 64 = (0 :: nat)"
proof -
  have "a * 65536 + b * 256 = (a * 1024 + b * 4) * 64" "a * 65536 = (a * 1024) * 64" "a * 65536 div 64 = (a * 16) * 64" by simp_all
  then show "(a * 65536 + b * 256) mod 64 = 0" "(a * 65536) mod 64 = 0" "a * 65536 div 64 mod 64 = 0"
    by (metis mod_mult_self2_is_0)+
qed

lemma b64_quanta_encode: "b64_quanta (b64_encode bs) = Some bs"
proof (induction bs rule: b64_encode.induct)
  case (2 a)
  show ?case unfolding b64_encode.simps b64_quanta_two [OF b64_one(1) b64_low_zero(2,3)] b64_one(2) by simp
next
  case (3 a b)
  show ?case unfolding b64_encode.simps b64_quanta_three [OF b64_two(1) b64_low_zero(1)] b64_two(2,3) by simp
next
  case (4 a b c rest)
  show ?case unfolding b64_encode.simps b64_quanta_four [OF b64_three(1)] b64_three(2-4) "4.IH" by simp
qed simp

lemma b64_decode_encode [simp]: "b64_decode (b64_encode bs) = Inr bs"
proof -
  have "filter (\<lambda>c. c \<noteq> CHR 13 \<and> c \<noteq> CHR 10) (b64_encode bs) = b64_encode bs"
    using b64_encode_plain by (simp add: filter_id_conv)
  then show ?thesis by (simp add: b64_decode_def b64_quanta_encode)
qed

section \<open>SHA-256\<close>

definition hex_digit :: "nat \<Rightarrow> char" where
  "hex_digit n = ''0123456789abcdef'' ! n"

definition hex_encode :: "byte list \<Rightarrow> string" where
  "hex_encode bs = concat (map (\<lambda>b. [hex_digit (unat b div 16), hex_digit (unat b mod 16)]) bs)"

type_synonym u32 = "32 word"

text \<open>
  The constants are the first 32 bits after the point of the cube roots and the square roots of the first
  primes. \<open>root_bits k n b r\<close> finds the bits below \<open>b\<close> of the \<open>k\<close>-th root of \<open>n\<close>, given those above in \<open>r\<close>.
\<close>

fun root_bits :: "nat \<Rightarrow> nat \<Rightarrow> nat \<Rightarrow> nat \<Rightarrow> nat" where
  "root_bits k n 0 r = r"
| "root_bits k n (Suc b) r = root_bits k n b (if (r + 2 ^ b) ^ k \<le> n then r + 2 ^ b else r)"

definition root_fraction :: "nat \<Rightarrow> nat \<Rightarrow> u32" where
  "root_fraction k p = of_nat (root_bits k (p * 2 ^ (32 * k)) 40 0)"

definition small_primes :: "nat list" where
  "small_primes = filter (\<lambda>n. list_all (\<lambda>d. n mod d \<noteq> 0) [2..<n]) [2..<312]"

definition sha_k :: "u32 list" where
  "sha_k = map (root_fraction 3) small_primes"

definition sha_init :: "u32 list" where
  "sha_init = map (root_fraction 2) (take 8 small_primes)"

definition ror32 :: "nat \<Rightarrow> u32 \<Rightarrow> u32" where
  "ror32 n x = drop_bit n x OR push_bit (32 - n) x"

fun sha_schedule :: "nat \<Rightarrow> u32 list \<Rightarrow> u32 list" where
  "sha_schedule 0 w = w"
| "sha_schedule (Suc n) w =
     (let i = length w; x = w ! (i - 15); y = w ! (i - 2);
          s0 = ror32 7 x XOR ror32 18 x XOR drop_bit 3 x;
          s1 = ror32 17 y XOR ror32 19 y XOR drop_bit 10 y
      in sha_schedule n (w @ [w ! (i - 16) + s0 + w ! (i - 7) + s1]))"

definition sha_round :: "u32 list \<Rightarrow> u32 \<times> u32 \<Rightarrow> u32 list" where
  "sha_round st kw =
     (let a = st ! 0; b = st ! 1; c = st ! 2; d = st ! 3; e = st ! 4; f = st ! 5; g = st ! 6; h = st ! 7;
          t1 = h + (ror32 6 e XOR ror32 11 e XOR ror32 25 e) + ((e AND f) XOR (NOT e AND g)) + fst kw + snd kw;
          t2 = (ror32 2 a XOR ror32 13 a XOR ror32 22 a) + ((a AND b) XOR (a AND c) XOR (b AND c))
      in [t1 + t2, a, b, c, d + t1, e, f, g])"

fun be_words :: "byte list \<Rightarrow> u32 list" where
  "be_words (a # b # c # d # rest) =
     (push_bit 24 (ucast a) OR push_bit 16 (ucast b) OR push_bit 8 (ucast c) OR ucast d) # be_words rest"
| "be_words _ = []"

definition sha_block :: "u32 list \<Rightarrow> byte list \<Rightarrow> u32 list" where
  "sha_block st block = map2 (+) st (foldl sha_round st (zip sha_k (sha_schedule 48 (be_words block))))"

function sha_blocks :: "u32 list \<Rightarrow> byte list \<Rightarrow> u32 list" where
  "sha_blocks st bs = (if bs = [] then st else sha_blocks (sha_block st (take 64 bs)) (drop 64 bs))"
  by pat_completeness auto
termination by (relation "measure (\<lambda>(_, bs). length bs)") auto

declare sha_blocks.simps [simp del]

definition sha_pad :: "byte list \<Rightarrow> byte list" where
  "sha_pad bs = bs @ [0x80] @ replicate ((119 - length bs mod 64) mod 64) 0
     @ map (\<lambda>i. ucast (drop_bit (8 * i) (of_nat (8 * length bs) :: u64))) [7, 6, 5, 4, 3, 2, 1, 0]"

definition sha256 :: "byte list \<Rightarrow> byte list" where
  "sha256 bs = concat (map (\<lambda>w. map (\<lambda>i. ucast (drop_bit (8 * i) w)) [3, 2, 1, 0]) (sha_blocks sha_init (sha_pad bs)))"

end
