(* ===== verification/Safe_IO.thy ===== *)
theory Safe_IO
  imports Program_Logic Encoding
begin

text \<open>
  Paths as Go's \<^verbatim>\<open>path/filepath\<close> treats them on Unix, and the atomic replacement of a file
  (\<^verbatim>\<open>internal/safeio/safeio.go\<close>). A file operation is a statement that may fail like one of the
  database; the files are a part of the state that no database transaction touches.
\<close>

section \<open>Paths\<close>

definition split_on :: "char \<Rightarrow> string \<Rightarrow> string list" where
  "split_on sep s = foldr (\<lambda>c parts. if c = sep then [] # parts else (c # hd parts) # tl parts) s [[]]"

fun join_with :: "string \<Rightarrow> string list \<Rightarrow> string" where
  "join_with sep [] = []"
| "join_with sep [s] = s"
| "join_with sep (s # t # ss) = s @ sep @ join_with sep (t # ss)"

definition IsAbs :: "string \<Rightarrow> bool" where
  "IsAbs p \<longleftrightarrow> (\<exists>q. p = CHR ''/'' # q)"

lemma IsAbs_code [code]: "IsAbs p = (case p of [] \<Rightarrow> False | c # _ \<Rightarrow> c = CHR ''/'')"
  by (auto simp: IsAbs_def split: list.splits)

text \<open>
  The elements that remain after cleaning, innermost last: an empty element and \<open>.\<close> vanish, \<open>..\<close> removes
  the element before it, stays at the start of a relative path and vanishes at the root.
\<close>

definition clean_step :: "bool \<Rightarrow> string list \<Rightarrow> string \<Rightarrow> string list" where
  "clean_step rooted out e =
     (if e = [] \<or> e = ''.'' then out
      else if e = ''..'' then
        (if out \<noteq> [] \<and> List.last out \<noteq> ''..'' then butlast out else if rooted then out else out @ [''..''])
      else out @ [e])"

definition elements :: "string \<Rightarrow> string list" where
  "elements p = foldl (clean_step (IsAbs p)) [] (split_on (CHR ''/'') p)"

definition render :: "bool \<Rightarrow> string list \<Rightarrow> string" where
  "render rooted es = (if rooted then CHR ''/'' # join_with ''/'' es else if es = [] then ''.'' else join_with ''/'' es)"

definition Clean :: "string \<Rightarrow> string" where
  "Clean p = render (IsAbs p) (elements p)"

definition Join :: "string \<Rightarrow> string \<Rightarrow> string" where
  "Join a b = (if a = [] then if b = [] then [] else Clean b else Clean (a @ ''/'' @ b))"

lemma Clean_examples:
  "Clean ''a//b/./c/..'' = ''a/b''" "Clean ''/../x'' = ''/x''" "Clean [] = ''.''" "Clean ''../../a/..'' = ''../..''"
  "Join ''/etc/r'' ''out/x.json'' = ''/etc/r/out/x.json''"
  by code_simp+

section \<open>A cleaned relative path stays below the directory it is joined to\<close>

lemma split_on_Nil [simp]: "split_on sep [] = [[]]"
  by (simp add: split_on_def)

lemma split_on_Cons: "split_on sep (c # s) = (if c = sep then [] # split_on sep s else (c # hd (split_on sep s)) # tl (split_on sep s))"
  by (simp add: split_on_def)

lemma split_on_nonempty [simp]: "split_on sep s \<noteq> []"
  by (cases s) (simp_all add: split_on_Cons)

lemma split_on_append: "split_on sep (a @ sep # b) = split_on sep a @ split_on sep b"
  by (induction a) (simp_all add: split_on_Cons)

lemma split_on_one: "sep \<notin> set s \<Longrightarrow> split_on sep s = [s]"
  by (induction s) (auto simp: split_on_Cons)

lemma split_on_free: "e \<in> set (split_on sep s) \<Longrightarrow> sep \<notin> set e"
proof (induction s arbitrary: e)
  case (Cons c s)
  obtain x xs where "split_on sep s = x # xs" by (cases "split_on sep s") simp_all
  then show ?case using Cons by (auto simp: split_on_Cons split: if_splits)
qed simp

lemma split_on_join: "es \<noteq> [] \<Longrightarrow> \<forall>e \<in> set es. sep \<notin> set e \<Longrightarrow> split_on sep (join_with [sep] es) = es"
proof (induction "[sep]" es rule: join_with.induct)
  case (3 s t ss)
  then show ?case by (simp add: split_on_append split_on_one)
qed (auto simp: split_on_one)

text \<open>A name is an element other than the two special ones.\<close>

definition name :: "string \<Rightarrow> bool" where
  "name e \<longleftrightarrow> e \<noteq> [] \<and> e \<noteq> ''.'' \<and> e \<noteq> ''..'' \<and> CHR ''/'' \<notin> set e"

lemma clean_step_name [simp]: "name e \<Longrightarrow> clean_step rooted out e = out @ [e]"
  by (simp add: clean_step_def name_def)

lemma clean_step_skip [simp]: "clean_step rooted out [] = out" "clean_step rooted out ''.'' = out"
  by (simp_all add: clean_step_def)

lemma foldl_names: "list_all name es \<Longrightarrow> foldl (clean_step rooted) out es = out @ es"
  by (induction es arbitrary: out) auto

lemma relative_elements:
  assumes "\<forall>e \<in> set parts. CHR ''/'' \<notin> set e" and "list_all name ms"
  shows "\<exists>k ns. foldl (clean_step False) (replicate j ''..'' @ ms) parts = replicate k ''..'' @ ns \<and> list_all name ns"
  using assms
proof (induction parts arbitrary: j ms)
  case Nil
  then show ?case by auto
next
  case (Cons e parts)
  have rest: "\<exists>k ns. foldl (clean_step False) (replicate j' ''..'' @ ms') parts = replicate k ''..'' @ ns \<and> list_all name ns"
    if "list_all name ms'" for j' ms' using Cons.IH [of ms' j'] Cons.prems(1) that by simp
  consider (skip) "e = [] \<or> e = ''.''" | (up) "e = ''..''" | (name) "name e" using Cons.prems(1) by (auto simp: name_def)
  then show ?case
  proof cases
    case skip
    then show ?thesis using rest [OF Cons.prems(2)] by auto
  next
    case name
    then show ?thesis using rest [of "ms @ [e]" j] Cons.prems(2) by simp
  next
    case up
    show ?thesis
    proof (cases ms rule: rev_cases)
      case Nil
      then have "clean_step False (replicate j ''..'' @ ms) e = replicate (Suc j) ''..'' @ []"
        using up by (auto simp: clean_step_def replicate_append_same)
      then show ?thesis using rest [of "[]" "Suc j"] by simp
    next
      case (snoc ns n)
      then have "clean_step False (replicate j ''..'' @ ms) e = replicate j ''..'' @ ns"
        using up Cons.prems(2) by (simp add: clean_step_def name_def butlast_append)
      then show ?thesis using rest [of ns j] Cons.prems(2) snoc by simp
    qed
  qed
qed

lemma elements_relative:
  assumes "\<not> IsAbs p" and "\<not> prefix ''..'' (Clean p)"
  shows "list_all name (elements p)"
proof -
  obtain k ns where e: "elements p = replicate k ''..'' @ ns" and ns: "list_all name ns"
    using relative_elements [of "split_on (CHR ''/'') p" "[]" 0] split_on_free assms(1) unfolding elements_def by fastforce
  have "k = 0"
  proof (rule ccontr)
    assume "k \<noteq> 0"
    then obtain m where k: "k = Suc m" by (cases k) auto
    then obtain es where es: "elements p = ''..'' # es" using e by simp
    have "prefix ''..'' (join_with ''/'' (''..'' # es))" by (cases es) auto
    then show False using assms by (simp add: Clean_def render_def es)
  qed
  then show ?thesis using e ns by simp
qed

lemma Join_inside:
  assumes "dir \<noteq> []" and "\<not> IsAbs rel" and "\<not> prefix ''..'' (Clean rel)"
  shows "Join dir (Clean rel) = render (IsAbs dir) (elements dir @ elements rel) \<and> list_all name (elements rel)"
proof -
  have names: "list_all name (elements rel)" by (rule elements_relative [OF assms(2,3)])
  have free: "\<forall>e \<in> set (elements rel). CHR ''/'' \<notin> set e" using names by (auto simp: list_all_iff name_def)
  have abs: "IsAbs (dir @ ''/'' @ Clean rel) = IsAbs dir" using assms(1) by (cases dir) (auto simp: IsAbs_def)
  have parts: "foldl (clean_step (IsAbs dir)) out (split_on (CHR ''/'') (Clean rel)) = out @ elements rel" for out
  proof (cases "elements rel = []")
    case True
    then have "Clean rel = ''.''" using assms(2) by (simp add: Clean_def render_def)
    then show ?thesis using True by (simp add: split_on_one)
  next
    case False
    then have "split_on (CHR ''/'') (Clean rel) = elements rel"
      using assms(2) split_on_join [OF False free] by (simp add: Clean_def render_def)
    then show ?thesis using foldl_names [OF names] by simp
  qed
  have "elements (dir @ ''/'' @ Clean rel) = elements dir @ elements rel"
    unfolding elements_def [of "dir @ ''/'' @ Clean rel"] abs
    using split_on_append [of "CHR ''/''" dir "Clean rel"] parts by (simp add: elements_def)
  then show ?thesis using assms(1) names abs Clean_def [of "dir @ ''/'' @ Clean rel"] by (simp add: Join_def)
qed

section \<open>Replacing a file\<close>

record stored =
  fl_data :: "byte list"
  fl_perm :: nat

type_synonym files = "string \<rightharpoonup> stored"

text \<open>\<open>defer\<close>: the clean-up runs when the body fails; its own errors are dropped.\<close>

definition on_error :: "('d, unit) prog \<Rightarrow> ('d, 'a) prog \<Rightarrow> ('d, 'a) prog" where
  "on_error cleanup body = bind (attempt body) (\<lambda>r. case r of
     Inr x \<Rightarrow> ret x
   | Inl e \<Rightarrow> bind (attempt cleanup) (\<lambda>_. fail e))"

definition fs_step :: "((files \<Rightarrow> files) \<Rightarrow> 'd \<Rightarrow> 'd) \<Rightarrow> string \<Rightarrow> (files \<Rightarrow> files) \<Rightarrow> ('d, unit) prog" where
  "fs_step upd what f = map_error (ErrWrap what) (exec (\<lambda>d. ((), upd f d)))"

text \<open>
  \<open>WriteToFile\<close>. The state has its files under \<open>get\<close> and \<open>upd\<close>; \<open>tmp\<close> is the name \<open>CreateTemp\<close> chose. The
  owner of a file is not modelled, so copying it is a step without effect whose error is dropped.
\<close>

definition replace_file ::
  "((files \<Rightarrow> files) \<Rightarrow> 'd \<Rightarrow> 'd) \<Rightarrow> string \<Rightarrow> string \<Rightarrow> byte list \<Rightarrow> nat \<Rightarrow> bool \<Rightarrow> ('d, unit) prog"
where
  "replace_file upd tmp path data perm exists =
     (let remove = fs_step upd [] (\<lambda>fs. fs(tmp := None))
      in bind (fs_step upd ''create tmp: '' (\<lambda>fs. fs(tmp \<mapsto> \<lparr>fl_data = [], fl_perm = 384\<rparr>))) (\<lambda>_.
        on_error remove (
          bind (fs_step upd ''write tmp: '' (\<lambda>fs. fs(tmp := map_option (\<lambda>f. f\<lparr>fl_data := data\<rparr>) (fs tmp)))) (\<lambda>_.
          bind (fs_step upd ''sync tmp: '' id) (\<lambda>_.
          bind (fs_step upd ''close tmp: '' id) (\<lambda>_.
          bind (fs_step upd ''chmod tmp: '' (\<lambda>fs. fs(tmp := map_option (\<lambda>f. f\<lparr>fl_perm := perm\<rparr>) (fs tmp)))) (\<lambda>_.
          bind (if exists then bind (attempt (fs_step upd [] id)) (\<lambda>_. ret ()) else ret ()) (\<lambda>_.
          on_error remove
            (fs_step upd (''atomic rename '' @ go_quote tmp @ '' '' @ [CHR 0xE2, CHR 0x86, CHR 0x92] @ '' '' @ go_quote path @ '': '')
              (\<lambda>fs. fs(path := fs tmp, tmp := None)))))))))))"

definition WriteToFile ::
  "('d \<Rightarrow> files) \<Rightarrow> ((files \<Rightarrow> files) \<Rightarrow> 'd \<Rightarrow> 'd) \<Rightarrow> string \<Rightarrow> string \<Rightarrow> byte list \<Rightarrow> nat \<Rightarrow> ('d, unit) prog"
where
  "WriteToFile get upd tmp path data defaultPerm =
     bind (fs_step upd ''mkdir: '' id) (\<lambda>_.
     bind (attempt (query (\<lambda>d. get d path))) (\<lambda>st.
     case st of
       Inr (Some f) \<Rightarrow> replace_file upd tmp path data (fl_perm f) True
     | _ \<Rightarrow> replace_file upd tmp path data defaultPerm False))"

section \<open>The file is replaced whole\<close>

text \<open>
  The state has its files behind a lens. Whatever fails, the target keeps its content and mode or has the
  new content with the old mode, and no other file but the temporary one is touched.
\<close>

locale file_store =
  fixes get :: "'d \<Rightarrow> files" and upd :: "(files \<Rightarrow> files) \<Rightarrow> 'd \<Rightarrow> 'd"
  assumes get_upd: "get (upd f d) = f (get d)" and upd_upd: "upd f (upd g d) = upd (\<lambda>x. f (g x)) d"
    and upd_get: "upd (\<lambda>_. get d) d = d"
begin

lemma upd_eq: "upd f d = upd (\<lambda>_. f (get d)) d"
proof -
  have "upd f d = upd f (upd (\<lambda>_. get d) d)" by (simp only: upd_get)
  then show ?thesis by (simp only: upd_upd)
qed

lemma upd_cong: "f (get d) = g (get d) \<Longrightarrow> upd f d = upd g d"
  using upd_eq [of f d] upd_eq [of g d] by simp

text \<open>The files after an attempt: those before, but for the temporary one.\<close>

definition kept :: "string \<Rightarrow> 'd \<Rightarrow> 'd \<Rightarrow> bool" where
  "kept tmp d d' \<longleftrightarrow> (\<exists>t. d' = upd (\<lambda>fs. fs(tmp := t)) d)"

lemma kept_refl: "kept tmp d d"
  unfolding kept_def using upd_eq [of "\<lambda>fs. fs(tmp := get d tmp)" d] upd_get [of d] by (intro exI [of _ "get d tmp"]) simp

lemma kept_step: "kept tmp d d' \<Longrightarrow> (\<And>fs. \<exists>t. f fs = fs(tmp := t)) \<Longrightarrow> kept tmp d (upd f d')"
proof -
  assume "kept tmp d d'" and f: "\<And>fs. \<exists>t. f fs = fs(tmp := t)"
  then obtain t where d': "d' = upd (\<lambda>fs. fs(tmp := t)) d" by (auto simp: kept_def)
  obtain t' where "f ((get d)(tmp := t)) = ((get d)(tmp := t))(tmp := t')" using f by blast
  then have "upd f d' = upd (\<lambda>fs. fs(tmp := t')) d" unfolding d' upd_upd by (intro upd_cong) simp
  then show ?thesis by (auto simp: kept_def)
qed

lemma fs_step_wp:
  "(\<And>e. E e d ev) \<Longrightarrow> Q () (upd f d) ev \<Longrightarrow> wp (fs_step upd what f) Q E d ev"
  unfolding fs_step_def by (rule wp_map_error, rule wp_exec) auto

lemma on_error_wp:
  assumes "wp body Q (\<lambda>e d ev. wp cleanup (\<lambda>_. E e) (\<lambda>_. E e) d ev) d ev"
  shows "wp (on_error cleanup body) Q E d ev"
  unfolding on_error_def
  by (rule wp_bind, rule wp_attempt, rule wp_mono [OF assms])
    (auto intro!: wp_ret wp_bind wp_attempt wp_fail elim!: wp_mono)

lemma upd_id: "upd (\<lambda>fs. fs) d = d"
  using upd_eq [of "\<lambda>fs. fs" d] upd_get by simp

lemma keptI: "kept tmp d (upd (\<lambda>fs. fs(tmp := t)) d)"
  unfolding kept_def by blast

lemma replace_file_wp:
  "wp (replace_file upd tmp path data perm exists)
    (\<lambda>_ d' ev'. d' = upd (\<lambda>fs. fs(path \<mapsto> \<lparr>fl_data = data, fl_perm = perm\<rparr>, tmp := None)) d \<and> ev' = ev)
    (\<lambda>_ d' ev'. kept tmp d d' \<and> ev' = ev) d ev"
  unfolding replace_file_def Let_def
  by (auto intro!: wp_bind on_error_wp fs_step_wp wp_attempt wp_ret kept_refl keptI simp: upd_upd upd_id id_def)

definition replaced :: "string \<Rightarrow> string \<Rightarrow> byte list \<Rightarrow> nat \<Rightarrow> 'd \<Rightarrow> 'd \<Rightarrow> bool" where
  "replaced tmp path data defaultPerm d d' \<longleftrightarrow> (\<exists>p. d' = upd (\<lambda>fs. fs(path \<mapsto> \<lparr>fl_data = data, fl_perm = p\<rparr>, tmp := None)) d \<and>
     (p = defaultPerm \<or> (\<exists>f. get d path = Some f \<and> p = fl_perm f)))"

lemma WriteToFile_wp:
  "wp (WriteToFile get upd tmp path data defaultPerm)
    (\<lambda>_ d' ev'. replaced tmp path data defaultPerm d d' \<and> ev' = ev) (\<lambda>_ d' ev'. kept tmp d d' \<and> ev' = ev) d ev"
proof -
  have new: "wp (replace_file upd tmp path data defaultPerm False)
      (\<lambda>_ d' ev'. replaced tmp path data defaultPerm d d' \<and> ev' = ev) (\<lambda>_ d' ev'. kept tmp d d' \<and> ev' = ev) d ev"
    by (rule wp_mono [OF replace_file_wp]) (auto simp: replaced_def)
  have old: "wp (replace_file upd tmp path data (fl_perm f) True)
      (\<lambda>_ d' ev'. replaced tmp path data defaultPerm d d' \<and> ev' = ev) (\<lambda>_ d' ev'. kept tmp d d' \<and> ev' = ev) d ev"
    if "get d path = Some f" for f
    by (rule wp_mono [OF replace_file_wp]) (use that in \<open>auto simp: replaced_def\<close>)
  show ?thesis
    unfolding WriteToFile_def id_def
    by (rule wp_bind, rule fs_step_wp, simp add: kept_refl, simp only: upd_id, rule wp_bind, rule wp_attempt, rule wp_query)
      (use new old in \<open>auto split: option.splits\<close>)
qed

end

interpretation plain_files: file_store "\<lambda>fs. fs" "\<lambda>f. f"
  by unfold_locales simp_all

text \<open>
  C35: Writing a file replaces it whole or not at all: whichever step fails, the file has its old content and
  mode, or on success the new content; no other file but the temporary one is touched, and after a success
  that one is gone.
\<close>

theorem file_replaced_whole:
  assumes "file_store get upd" and "tmp \<noteq> path" and "WriteToFile get upd tmp path data perm w = (r, w')"
  shows "(\<forall>q. q \<noteq> path \<and> q \<noteq> tmp \<longrightarrow> get (w_db w') q = get (w_db w) q) \<and>
    (case r of
       Inl _ \<Rightarrow> get (w_db w') path = get (w_db w) path
     | Inr _ \<Rightarrow> map_option fl_data (get (w_db w') path) = Some data \<and> get (w_db w') tmp = None)"
  using wpD [OF file_store.WriteToFile_wp [OF assms(1)] assms(3)] assms(1,2)
  by (auto simp: file_store.replaced_def file_store.kept_def file_store.get_upd split: sum.splits)

definition disk :: "(nat \<Rightarrow> error option) \<Rightarrow> files world" where
  "disk fault = \<lparr>w_db = [''/r/a'' \<mapsto> \<lparr>fl_data = [1], fl_perm = 420\<rparr>], w_stmt = 0, w_fault = fault, w_tick = 0,
     w_clock = (\<lambda>_. 0), w_intx = False, w_events = []\<rparr>"

text \<open>A rename that fails, and a run without failures.\<close>

theorem file_replaced_whole_witness:
  "w_db (snd (WriteToFile (\<lambda>fs. fs) (\<lambda>f. f) ''/r/a.tmp'' ''/r/a'' [2, 3] 420 (disk (\<lambda>n. if n = 8 then Some (ErrDriver ''busy'') else None)))) ''/r/a''
     = Some \<lparr>fl_data = [1], fl_perm = 420\<rparr> \<and>
   map_option fl_data (w_db (snd (WriteToFile (\<lambda>fs. fs) (\<lambda>f. f) ''/r/a.tmp'' ''/r/a'' [2, 3] 420 (disk (\<lambda>_. None)))) ''/r/a'') = Some [2, 3]"
proof -
  let ?bad = "WriteToFile (\<lambda>fs. fs) (\<lambda>f. f) ''/r/a.tmp'' ''/r/a'' [2, 3] 420 (disk (\<lambda>n. if n = 8 then Some (ErrDriver ''busy'') else None))"
  let ?good = "WriteToFile (\<lambda>fs. fs) (\<lambda>f. f) ''/r/a.tmp'' ''/r/a'' [2, 3] 420 (disk (\<lambda>_. None))"
  have names: "''/r/a.tmp'' \<noteq> ''/r/a''" by simp
  have "isl (fst ?bad)" by code_simp
  then obtain e where "?bad = (Inl e, snd ?bad)" by (metis isl_def prod.collapse)
  from file_replaced_whole [OF plain_files.file_store_axioms names this]
  have "w_db (snd ?bad) ''/r/a'' = Some \<lparr>fl_data = [1], fl_perm = 420\<rparr>" by (simp add: disk_def)
  moreover have "fst ?good = Inr ()" by code_simp
  then have "?good = (Inr (), snd ?good)" by (simp add: prod_eq_iff)
  from file_replaced_whole [OF plain_files.file_store_axioms names this]
  have "map_option fl_data (w_db (snd ?good) ''/r/a'') = Some [2, 3]" by simp
  ultimately show ?thesis by simp
qed

end
