(* ===== verification/Vpn_Users.thy ===== *)
theory Vpn_Users
  imports Engine_Port Safe_IO
begin

text \<open>
  The VPN user that a subscription stands for (\<^verbatim>\<open>internal/plugins/engine_xray/builder.go\<close>). The uuid package
  is not part of the sources: \<open>isUUID\<close> says which texts its parser accepts.
\<close>

definition BuildDeterministicHy2Pass :: "string \<Rightarrow> string \<Rightarrow> string" where
  "BuildDeterministicHy2Pass uuidVal email = hex_encode (sha256 (bytes_of (uuidVal @ '':'' @ email @ '':hy2'')))"

definition GetMetadataString :: "json_map \<Rightarrow> string \<Rightarrow> string" where
  "GetMetadataString m key = (case map_of m key of Some (JStr s) \<Rightarrow> s | _ \<Rightarrow> [])"

fun json_strings :: "json list \<Rightarrow> string list" where
  "json_strings [] = []"
| "json_strings (JStr s # xs) = s # json_strings xs"
| "json_strings (_ # xs) = json_strings xs"

text \<open>The loop that drops empty values and duplicates and keeps the order.\<close>

definition add_value :: "string \<Rightarrow> string list \<Rightarrow> string list" where
  "add_value value result = (let value = trim_space value in if value = [] \<or> value \<in> set result then result else result @ [value])"

definition clean_values :: "string list \<Rightarrow> string list" where
  "clean_values raw = fold add_value raw []"

definition GetMetadataStringSlice :: "json_map \<Rightarrow> string \<Rightarrow> string list" where
  "GetMetadataStringSlice m key = (case map_of m key of
     Some (JArr xs) \<Rightarrow> clean_values (json_strings xs)
   | Some (JStr s) \<Rightarrow> clean_values (split_on (CHR '','') s)
   | _ \<Rightarrow> [])"

text \<open>\<open>Time.Format("02.01.2006")\<close>.\<close>

definition fmt_date :: "time \<Rightarrow> string" where
  "fmt_date t = (let n = t div Day + epoch_day; k = month_of n
     in pad 2 (n - month_start k + 1) @ ''.'' @ pad 2 (k mod 12 + 1) @ ''.'' @ pad 4 (k div 12))"

definition SubscriptionToVPNUserConfig :: "(string \<Rightarrow> bool) \<Rightarrow> Subscription \<Rightarrow> VPNUserConfig" where
  "SubscriptionToVPNUserConfig isUUID sub =
     (let auth = GetMetadataString (s_Metadata sub) ''auth'';
          auth = (if auth = [] then GetMetadataString (s_Metadata sub) ''password'' else auth);
          auth = (if auth = [] \<or> isUUID auth then BuildDeterministicHy2Pass (s_UUID sub) (s_Email sub) else auth);
          subfile = GetMetadataString (s_Metadata sub) ''subfile'';
          subfile = (if subfile = [] then s_ID sub else subfile);
          expire = GetMetadataString (s_Metadata sub) ''expire'';
          expire = (if expire = [] then (case s_EndsAt sub of Some e \<Rightarrow> fmt_date e | None \<Rightarrow> []) else expire)
      in \<lparr>vu_Email = s_Email sub, vu_UUID = s_UUID sub, vu_Auth = auth, vu_Subfile = subfile, vu_Expire = expire,
          vu_MaxDevices = s_MaxDevices sub, vu_Flow = [], vu_Cipher = [],
          vu_PlanEngineIDs = GetMetadataStringSlice (s_Metadata sub) ''plan_engine_ids'',
          vu_SubscriptionEngineIDs = GetMetadataStringSlice (s_Metadata sub) ''engine_ids''\<rparr>)"

lemma SubscriptionToVPNUserConfig_email [simp]: "vu_Email (SubscriptionToVPNUserConfig isUUID sub) = s_Email sub"
  by (simp add: SubscriptionToVPNUserConfig_def Let_def)

lemma fold_add_value: "distinct acc \<and> [] \<notin> set acc \<Longrightarrow> distinct (fold add_value raw acc) \<and> [] \<notin> set (fold add_value raw acc)"
proof (induction raw arbitrary: acc)
  case (Cons a raw)
  then have "distinct (add_value a acc) \<and> [] \<notin> set (add_value a acc)" by (auto simp: add_value_def Let_def)
  then show ?case using Cons.IH by simp
qed simp

lemma clean_values_distinct: "distinct (clean_values raw) \<and> [] \<notin> set (clean_values raw)"
  unfolding clean_values_def by (rule fold_add_value) simp

end
