(* ===== verification/Replication_Store.thy ===== *)
theory Replication_Store
  imports Encoding Engine_Port
begin

text \<open>
  The tables of the replication plugin and the operations of
  \<^verbatim>\<open>internal/plugins/cluster_replication/store.go\<close> on them: the journal of the master, the projection
  and the inbox of a slave, the acknowledgements of the replicas, their statistics, and the queues of
  anti-fraud observations. They extend the tables of the application, in the same database.
\<close>

section \<open>Rows\<close>

record outboxRow =
  ob_Revision :: int
  ob_Kind :: string
  ob_Payload :: string
  ob_Checksum :: string
  ob_CreatedAt :: time

record desiredUserRow =
  du_Email :: string
  du_Payload :: string
  du_Revision :: int
  du_UpdatedAt :: time

record inboxRow =
  ib_MasterID :: string
  ib_Revision :: int
  ib_Checksum :: string
  ib_AppliedAt :: time

record metaRow =
  mt_Key :: string
  mt_Value :: string
  mt_UpdatedAt :: time

record artifactRow =
  ar_Kind :: string
  ar_Payload :: string
  ar_Checksum :: string
  ar_Revision :: int
  ar_UpdatedAt :: time

record stagingUserRow =
  su_SnapshotID :: string
  su_Email :: string
  su_Payload :: string

record replicaRow =
  rp_NodeID :: string
  rp_AcknowledgedRevision :: int
  rp_ConnectedAt :: time
  rp_LastSeenAt :: time

record replicaStatsRow =
  rs_NodeID :: string
  rs_Email :: string
  rs_Total :: int
  rs_UpdatedAt :: time

record fraudOutboxRow =
  fo_EventID :: string
  fo_Email :: string
  fo_IPHash :: string
  fo_HashKeyID :: string
  fo_OccurredAt :: time
  fo_CreatedAt :: time

record fraudInboxRow =
  fi_NodeID :: string
  fi_EventID :: string
  fi_Email :: string
  fi_IPHash :: string
  fi_HashKeyID :: string
  fi_OccurredAt :: time
  fi_ReceivedAt :: time

record Event =
  re_Revision :: int
  re_Kind :: string
  re_Payload :: "byte list"
  re_Checksum :: string

text \<open>An observation as the anti-fraud plugin hands it over, and as the queues carry it.\<close>

record api_FraudEvent =
  af_Email :: string
  af_IP :: string
  af_OccurredAt :: time
  af_HashKeyID :: string

record FraudEvent =
  fe_ID :: string
  fe_Email :: string
  fe_IP :: string
  fe_OccurredAt :: time
  fe_HashKeyID :: string

record statsPoint =
  sp_Email :: string
  sp_Total :: int

record SlaveUserTotal =
  st_Email :: string
  st_Slave :: int

record SlaveReport =
  sl_Enabled :: bool
  sl_TotalServers :: int
  sl_OKServers :: int
  sl_FailedServers :: int

record repl_tables = tables +
  r_outbox :: "outboxRow list"
  r_seq_outbox :: int
  r_desired :: "desiredUserRow list"
  r_inbox :: "inboxRow list"
  r_meta :: "metaRow list"
  r_artifacts :: "artifactRow list"
  r_staging :: "stagingUserRow list"
  r_replicas :: "replicaRow list"
  r_stats :: "replicaStatsRow list"
  r_fraud_out :: "fraudOutboxRow list"
  r_fraud_in :: "fraudInboxRow list"

section \<open>Statements\<close>

text \<open>\<open>Save\<close> on a table without other unique indices: the row with the key is replaced or added.\<close>

definition put_row :: "('a \<Rightarrow> 'k) \<Rightarrow> 'a \<Rightarrow> 'a list \<Rightarrow> 'a list" where
  "put_row key x rows = (if list_ex (\<lambda>y. key y = key x) rows then update_where (\<lambda>y. key y = key x) (\<lambda>_. x) rows else rows @ [x])"

definition checksum :: "string \<Rightarrow> byte list \<Rightarrow> string" where
  "checksum kind payload = hex_encode (sha256 (bytes_of kind @ [0] @ payload))"

fun contains :: "string \<Rightarrow> string \<Rightarrow> bool" where
  "contains [] needle = (needle = [])"
| "contains (c # v) needle = (take (length needle) (c # v) = needle \<or> contains v needle)"

definition isUniqueConstraint :: "error \<Rightarrow> bool" where
  "isUniqueConstraint e \<longleftrightarrow> contains (error_text e) ''UNIQUE constraint failed'' \<or> contains (error_text e) ''duplicate key''"

definition nonEmptyStrings :: "string list \<Rightarrow> string list" where
  "nonEmptyStrings values = fold (\<lambda>v result. if v = '''' \<or> v \<in> set result then result else result @ [v]) values []"

section \<open>The journal\<close>

definition eventUserUpsert :: string where "eventUserUpsert = ''user.upsert''"
definition eventUserRemove :: string where "eventUserRemove = ''user.remove''"
definition eventResnapshot :: string where "eventResnapshot = ''snapshot.required''"
definition eventArtifact :: string where "eventArtifact = ''artifact.upsert''"

text \<open>The revision is the next value of the autoincrement column.\<close>

definition Append :: "string \<Rightarrow> byte list \<Rightarrow> ('m repl_tables_scheme, Event) prog" where
  "Append kind payload = map_error (ErrWrap ''append replication outbox event: '') (bind now (\<lambda>ts.
     exec (\<lambda>t. let rev = r_seq_outbox t + 1; sum = checksum kind payload
       in (\<lparr>re_Revision = rev, re_Kind = kind, re_Payload = payload, re_Checksum = sum\<rparr>,
           t\<lparr>r_outbox := r_outbox t @ [\<lparr>ob_Revision = rev, ob_Kind = kind, ob_Payload = b64_encode payload,
                ob_Checksum = sum, ob_CreatedAt = ts\<rparr>], r_seq_outbox := rev\<rparr>))))"

fun decode_rows :: "outboxRow list \<Rightarrow> Event list result" where
  "decode_rows [] = Inr []"
| "decode_rows (row # rows) =
     (case b64_decode (ob_Payload row) of
        Inl e \<Rightarrow> Inl (ErrWrap (''decode replication event '' @ fmt_int (ob_Revision row) @ '': '') e)
      | Inr payload \<Rightarrow>
          (case decode_rows rows of
             Inl e \<Rightarrow> Inl e
           | Inr events \<Rightarrow> Inr (\<lparr>re_Revision = ob_Revision row, re_Kind = ob_Kind row, re_Payload = payload,
               re_Checksum = ob_Checksum row\<rparr> # events)))"

text \<open>A computation that only returns a value or an error.\<close>

definition lift_result :: "'a result \<Rightarrow> ('d, 'a) prog" where
  "lift_result r = (case r of Inl e \<Rightarrow> fail e | Inr x \<Rightarrow> ret x)"

definition EventsAfter :: "int \<Rightarrow> int \<Rightarrow> ('m repl_tables_scheme, Event list) prog" where
  "EventsAfter revision limit =
     (let limit = (if limit \<le> 0 then 500 else limit)
      in bind (map_error (ErrWrap ''read replication outbox: '') (query (\<lambda>t.
           take (nat limit) (sort_key ob_Revision (filter (\<lambda>r. ob_Revision r > revision) (r_outbox t)))))) (\<lambda>rows.
         lift_result (decode_rows rows)))"

definition LatestRevision :: "('m repl_tables_scheme, int) prog" where
  "LatestRevision = map_error (ErrWrap ''read latest replication revision: '')
     (query (\<lambda>t. case sort_key (\<lambda>r. - ob_Revision r) (r_outbox t) of [] \<Rightarrow> 0 | row # _ \<Rightarrow> ob_Revision row))"

definition OldestRevision :: "('m repl_tables_scheme, int) prog" where
  "OldestRevision = map_error (ErrWrap ''read oldest replication revision: '') (query (\<lambda>t.
     case sort_key ob_Revision (r_outbox t) of [] \<Rightarrow> 0 | row # _ \<Rightarrow> ob_Revision row))"

section \<open>Metadata\<close>

definition GetMeta :: "string \<Rightarrow> ('m repl_tables_scheme, string option) prog" where
  "GetMeta key = bind (attempt (query_first (\<lambda>t. first_by mt_Key (\<lambda>m. mt_Key m = key) (r_meta t)))) (\<lambda>r. case r of
     Inr row \<Rightarrow> ret (Some (mt_Value row))
   | Inl e \<Rightarrow> if e = gorm_not_found then ret None else fail (ErrWrap ''read replication metadata: '' e))"

definition PutMeta :: "string \<Rightarrow> string \<Rightarrow> ('m repl_tables_scheme, unit) prog" where
  "PutMeta key value = bind now (\<lambda>ts. exec (\<lambda>t. ((),
     t\<lparr>r_meta := put_row mt_Key \<lparr>mt_Key = key, mt_Value = value, mt_UpdatedAt = ts\<rparr> (r_meta t)\<rparr>)))"

definition DeleteMeta :: "string \<Rightarrow> ('m repl_tables_scheme, unit) prog" where
  "DeleteMeta key = exec (\<lambda>t. ((), t\<lparr>r_meta := filter (\<lambda>m. mt_Key m \<noteq> key) (r_meta t)\<rparr>))"

section \<open>The inbox of a slave\<close>

definition AlreadyApplied :: "string \<Rightarrow> int \<Rightarrow> ('m repl_tables_scheme, bool) prog" where
  "AlreadyApplied masterID revision =
     query (\<lambda>t. count_rows (\<lambda>i. ib_MasterID i = masterID \<and> ib_Revision i = revision) (r_inbox t) > 0)"

definition MarkApplied :: "string \<Rightarrow> Event \<Rightarrow> ('m repl_tables_scheme, unit) prog" where
  "MarkApplied masterID ev = transaction (
     bind (attempt (stmt (insert_row r_inbox r_inbox_update
         (\<lambda>x y. ib_MasterID x = ib_MasterID y \<and> ib_Revision x = ib_Revision y)
         \<lparr>ib_MasterID = masterID, ib_Revision = re_Revision ev, ib_Checksum = re_Checksum ev, ib_AppliedAt = zero_time\<rparr>))) (\<lambda>r.
     case r of
       Inl e \<Rightarrow> if isUniqueConstraint e then ret () else fail e
     | Inr _ \<Rightarrow> PutMeta ''applied_revision'' (fmt_int (re_Revision ev))))"

section \<open>The replicas\<close>

definition replica_by_id :: "string \<Rightarrow> 'm repl_tables_scheme \<Rightarrow> replicaRow option" where
  "replica_by_id nodeID t = first_by rp_NodeID (\<lambda>r. rp_NodeID r = nodeID) (r_replicas t)"

definition create_replica :: "replicaRow \<Rightarrow> ('m repl_tables_scheme, unit) prog" where
  "create_replica row = stmt (insert_row r_replicas r_replicas_update (\<lambda>x y. rp_NodeID x = rp_NodeID y) row)"

definition save_replica :: "replicaRow \<Rightarrow> ('m repl_tables_scheme, unit) prog" where
  "save_replica row = exec (\<lambda>t. ((), t\<lparr>r_replicas := put_row rp_NodeID row (r_replicas t)\<rparr>))"

definition MarkReplicaConnected :: "string \<Rightarrow> ('m repl_tables_scheme, unit) prog" where
  "MarkReplicaConnected nodeID =
     bind (attempt (query_first (replica_by_id nodeID))) (\<lambda>r. case r of
       Inl e \<Rightarrow>
         if e = gorm_not_found then bind now (\<lambda>ts. create_replica
           \<lparr>rp_NodeID = nodeID, rp_AcknowledgedRevision = 0, rp_ConnectedAt = ts, rp_LastSeenAt = ts\<rparr>)
         else fail e
     | Inr row \<Rightarrow> bind now (\<lambda>ts. save_replica (row\<lparr>rp_LastSeenAt := ts\<rparr>)))"

definition AcknowledgeReplica :: "string \<Rightarrow> int \<Rightarrow> ('m repl_tables_scheme, unit) prog" where
  "AcknowledgeReplica nodeID revision =
     bind (attempt (query_first (replica_by_id nodeID))) (\<lambda>r. case r of
       Inl e \<Rightarrow>
         if e = gorm_not_found then bind now (\<lambda>ts. create_replica
           \<lparr>rp_NodeID = nodeID, rp_AcknowledgedRevision = revision, rp_ConnectedAt = ts, rp_LastSeenAt = ts\<rparr>)
         else fail e
     | Inr row \<Rightarrow>
         (let row = (if revision > rp_AcknowledgedRevision row then row\<lparr>rp_AcknowledgedRevision := revision\<rparr> else row)
          in bind now (\<lambda>ts. save_replica (row\<lparr>rp_LastSeenAt := ts\<rparr>))))"

text \<open>
  The loop over the allowed nodes: \<open>None\<close> when one of them has no row yet, else the least revision they
  acknowledged, from the minimum so far.
\<close>

fun least_acknowledged :: "string list \<Rightarrow> int \<Rightarrow> ('m repl_tables_scheme, int option) prog" where
  "least_acknowledged [] minimum = ret (Some minimum)"
| "least_acknowledged (nodeID # nodes) minimum =
     bind (attempt (query_first (replica_by_id nodeID))) (\<lambda>r. case r of
       Inl e \<Rightarrow> if e = gorm_not_found then ret None else fail e
     | Inr row \<Rightarrow> least_acknowledged nodes
         (if minimum < 0 \<or> rp_AcknowledgedRevision row < minimum then rp_AcknowledgedRevision row else minimum))"

definition PruneAcknowledged :: "string list \<Rightarrow> ('m repl_tables_scheme, int) prog" where
  "PruneAcknowledged allowedNodes =
     (if allowedNodes = [] then ret 0
      else bind (least_acknowledged allowedNodes (- 1)) (\<lambda>r. case r of
        None \<Rightarrow> ret 0
      | Some minimum \<Rightarrow>
          if minimum \<le> 0 then ret 0
          else exec (\<lambda>t. (count_rows (\<lambda>o'. ob_Revision o' \<le> minimum) (r_outbox t),
            t\<lparr>r_outbox := filter (\<lambda>o'. \<not> ob_Revision o' \<le> minimum) (r_outbox t)\<rparr>))))"

section \<open>Statistics of the replicas\<close>

definition create_stats :: "string \<Rightarrow> statsPoint \<Rightarrow> ('m repl_tables_scheme, unit) prog" where
  "create_stats nodeID point =
     (if sp_Email point = '''' \<or> sp_Total point < 0 then fail (Err ''invalid replicated statistics point'')
      else bind now (\<lambda>ts. stmt (insert_row r_stats r_stats_update
        (\<lambda>x y. rs_NodeID x = rs_NodeID y \<and> rs_Email x = rs_Email y)
        \<lparr>rs_NodeID = nodeID, rs_Email = sp_Email point, rs_Total = sp_Total point, rs_UpdatedAt = ts\<rparr>)))"

definition ReplaceReplicaStats :: "string \<Rightarrow> statsPoint list \<Rightarrow> ('m repl_tables_scheme, unit) prog" where
  "ReplaceReplicaStats nodeID points = transaction (
     bind (exec (\<lambda>t. ((), t\<lparr>r_stats := filter (\<lambda>s. rs_NodeID s \<noteq> nodeID) (r_stats t)\<rparr>))) (\<lambda>_.
     bind (for_each (create_stats nodeID) points) (\<lambda>_.
     bind (attempt (query_first (replica_by_id nodeID))) (\<lambda>r.
     bind now (\<lambda>ts. case r of
       Inl e \<Rightarrow>
         if e = gorm_not_found then create_replica
           \<lparr>rp_NodeID = nodeID, rp_AcknowledgedRevision = 0, rp_ConnectedAt = ts, rp_LastSeenAt = ts\<rparr>
         else fail e
     | Inr row \<Rightarrow> save_replica (row\<lparr>rp_LastSeenAt := ts\<rparr>))))))"

text \<open>
  The totals are a map from emails to sums, here the list of its entries in the order the emails were first
  met; Go returns them in no fixed order.
\<close>

fun add_totals :: "replicaStatsRow list \<Rightarrow> (string \<times> int) list \<Rightarrow> (string \<times> int) list" where
  "add_totals [] combined = combined"
| "add_totals (row # rows) combined = add_totals rows (AList.update (rs_Email row)
     (wrap64 ((case map_of combined (rs_Email row) of Some n \<Rightarrow> n | None \<Rightarrow> 0) + rs_Total row)) combined)"

fun collect_nodes ::
  "time \<Rightarrow> duration \<Rightarrow> string list \<Rightarrow> (string \<times> int) list \<times> SlaveReport \<Rightarrow> ('m repl_tables_scheme, (string \<times> int) list \<times> SlaveReport) prog"
where
  "collect_nodes ts maxAge [] acc = ret acc"
| "collect_nodes ts maxAge (nodeID # nodes) (combined, report) =
     (let failed = report\<lparr>sl_FailedServers := sl_FailedServers report + 1\<rparr>
      in bind (attempt (query_first (replica_by_id nodeID))) (\<lambda>replica.
         if (case replica of Inl e \<Rightarrow> e \<noteq> gorm_not_found | Inr _ \<Rightarrow> False) then collect_nodes ts maxAge nodes (combined, failed)
         else bind (attempt (query (\<lambda>t. filter (\<lambda>s. rs_NodeID s = nodeID) (r_stats t)))) (\<lambda>rows. case rows of
           Inl _ \<Rightarrow> collect_nodes ts maxAge nodes (combined, failed)
         | Inr rows \<Rightarrow> collect_nodes ts maxAge nodes (add_totals rows combined,
             case replica of
               Inr row \<Rightarrow> if maxAge \<le> 0 \<or> time_sub ts (rp_LastSeenAt row) \<le> maxAge
                 then report\<lparr>sl_OKServers := sl_OKServers report + 1\<rparr> else failed
             | Inl _ \<Rightarrow> failed))))"

definition CollectReplicaStats :: "string list \<Rightarrow> duration \<Rightarrow> ('m repl_tables_scheme, SlaveUserTotal list \<times> SlaveReport) prog" where
  "CollectReplicaStats allowedNodes maxAge =
     (let report = \<lparr>sl_Enabled = allowedNodes \<noteq> [], sl_TotalServers = int (length allowedNodes), sl_OKServers = 0, sl_FailedServers = 0\<rparr>
      in if allowedNodes = [] then ret ([], report)
         else bind now (\<lambda>ts. bind (collect_nodes ts maxAge allowedNodes ([], report)) (\<lambda>(combined, report).
           ret (map (\<lambda>(e, n). \<lparr>st_Email = e, st_Slave = n\<rparr>) combined, report))))"

section \<open>Anti-fraud observations\<close>

definition or_now :: "time \<Rightarrow> time \<Rightarrow> time" where
  "or_now ts t = (if t = zero_time then ts else t)"

text \<open>The identifiers come from the uuid package: \<open>newID\<close> gives the one of the event at an index.\<close>

fun enqueue_events ::
  "(nat \<Rightarrow> string) \<Rightarrow> time \<Rightarrow> nat \<Rightarrow> api_FraudEvent list \<Rightarrow> FraudEvent list \<Rightarrow> ('m repl_tables_scheme, FraudEvent list) prog"
where
  "enqueue_events newID ts index [] queued = ret queued"
| "enqueue_events newID ts index (ev # evs) queued =
     (if af_Email ev = '''' \<or> af_IP ev = '''' then fail (Err ''invalid anti-fraud event'')
      else let queuedEvent = \<lparr>fe_ID = newID index, fe_Email = af_Email ev, fe_IP = af_IP ev,
             fe_OccurredAt = or_now ts (af_OccurredAt ev), fe_HashKeyID = af_HashKeyID ev\<rparr>
        in bind (map_error (ErrWrap ''enqueue replication anti-fraud event: '')
             (stmt (insert_row r_fraud_out r_fraud_out_update (\<lambda>x y. fo_EventID x = fo_EventID y)
               \<lparr>fo_EventID = fe_ID queuedEvent, fo_Email = fe_Email queuedEvent, fo_IPHash = fe_IP queuedEvent,
                fo_HashKeyID = fe_HashKeyID queuedEvent, fo_OccurredAt = fe_OccurredAt queuedEvent,
                fo_CreatedAt = ts + int index * 1000\<rparr>))) (\<lambda>_.
           enqueue_events newID ts (Suc index) evs (queued @ [queuedEvent])))"

definition EnqueueFraudEvents :: "(nat \<Rightarrow> string) \<Rightarrow> api_FraudEvent list \<Rightarrow> ('m repl_tables_scheme, FraudEvent list) prog" where
  "EnqueueFraudEvents newID evs =
     (if evs = [] then ret []
      else bind now (\<lambda>ts. transaction (enqueue_events newID ts 0 evs [])))"

definition queued_event :: "fraudOutboxRow \<Rightarrow> FraudEvent" where
  "queued_event row = \<lparr>fe_ID = fo_EventID row, fe_Email = fo_Email row, fe_IP = fo_IPHash row,
     fe_OccurredAt = fo_OccurredAt row, fe_HashKeyID = fo_HashKeyID row\<rparr>"

definition PendingFraudEvents :: "int \<Rightarrow> ('m repl_tables_scheme, FraudEvent list) prog" where
  "PendingFraudEvents limit =
     (let limit = (if limit \<le> 0 then 100 else limit)
      in map_error (ErrWrap ''read replication anti-fraud outbox: '') (query (\<lambda>t.
           map queued_event (take (nat limit) (sort_key (\<lambda>r. (fo_CreatedAt r, fo_EventID r)) (r_fraud_out t))))))"

definition AcknowledgeFraudEvents :: "string list \<Rightarrow> ('m repl_tables_scheme, unit) prog" where
  "AcknowledgeFraudEvents eventIDs =
     (let ids = nonEmptyStrings eventIDs
      in if ids = [] then ret ()
         else map_error (ErrWrap ''acknowledge replication anti-fraud events: '')
           (exec (\<lambda>t. ((), t\<lparr>r_fraud_out := filter (\<lambda>r. fo_EventID r \<notin> set ids) (r_fraud_out t)\<rparr>))))"

definition invalid_fraud_event :: "FraudEvent \<Rightarrow> bool" where
  "invalid_fraud_event ev \<longleftrightarrow> fe_ID ev = '''' \<or> fe_Email ev = '''' \<or> fe_IP ev = ''''"

definition UnreceivedFraudEvents :: "string \<Rightarrow> FraudEvent list \<Rightarrow> ('m repl_tables_scheme, FraudEvent list) prog" where
  "UnreceivedFraudEvents nodeID evs =
     (if nodeID = '''' then fail (Err ''replication anti-fraud source node is required'')
      else if list_ex invalid_fraud_event evs then fail (Err ''invalid replicated anti-fraud event'')
      else if evs = [] then ret []
      else bind (map_error (ErrWrap ''read replication anti-fraud receipts: '') (query (\<lambda>t.
          map fi_EventID (filter (\<lambda>r. fi_NodeID r = nodeID \<and> fi_EventID r \<in> set (map fe_ID evs)) (r_fraud_in t))))) (\<lambda>received.
        ret (filter (\<lambda>ev. fe_ID ev \<notin> set received) evs)))"

definition record_receipt :: "string \<Rightarrow> time \<Rightarrow> FraudEvent \<Rightarrow> ('m repl_tables_scheme, unit) prog" where
  "record_receipt nodeID ts ev =
     (if invalid_fraud_event ev then fail (Err ''invalid replicated anti-fraud event'')
      else map_error (ErrWrap ''record replication anti-fraud receipt: '') (exec (\<lambda>t. ((),
        if list_ex (\<lambda>r. fi_NodeID r = nodeID \<and> fi_EventID r = fe_ID ev) (r_fraud_in t) then t
        else t\<lparr>r_fraud_in := r_fraud_in t @ [\<lparr>fi_NodeID = nodeID, fi_EventID = fe_ID ev, fi_Email = fe_Email ev,
          fi_IPHash = fe_IP ev, fi_HashKeyID = fe_HashKeyID ev, fi_OccurredAt = or_now ts (fe_OccurredAt ev),
          fi_ReceivedAt = ts\<rparr>]\<rparr>))))"

definition MarkFraudReceived :: "string \<Rightarrow> FraudEvent list \<Rightarrow> ('m repl_tables_scheme, unit) prog" where
  "MarkFraudReceived nodeID evs =
     (if nodeID = '''' then fail (Err ''replication anti-fraud source node is required'')
      else bind now (\<lambda>ts. transaction (for_each (record_receipt nodeID ts) evs)))"

section \<open>The projection of a slave\<close>

definition UpsertDesiredUser :: "string \<Rightarrow> byte list \<Rightarrow> int \<Rightarrow> ('m repl_tables_scheme, unit) prog" where
  "UpsertDesiredUser email payload revision = bind now (\<lambda>ts. exec (\<lambda>t. ((), t\<lparr>r_desired := put_row du_Email
     \<lparr>du_Email = email, du_Payload = b64_encode payload, du_Revision = revision, du_UpdatedAt = ts\<rparr> (r_desired t)\<rparr>)))"

definition RemoveDesiredUser :: "string \<Rightarrow> ('m repl_tables_scheme, unit) prog" where
  "RemoveDesiredUser email = exec (\<lambda>t. ((), t\<lparr>r_desired := filter (\<lambda>u. du_Email u \<noteq> email) (r_desired t)\<rparr>))"

fun decode_all :: "string list \<Rightarrow> byte list list result" where
  "decode_all [] = Inr []"
| "decode_all (s # ss) = (case b64_decode s of Inl e \<Rightarrow> Inl e | Inr b \<Rightarrow>
     (case decode_all ss of Inl e \<Rightarrow> Inl e | Inr bs \<Rightarrow> Inr (b # bs)))"

definition Store_DesiredUsers :: "('m repl_tables_scheme, byte list list) prog" where
  "Store_DesiredUsers = bind (query (\<lambda>t. sort_key du_Email (r_desired t))) (\<lambda>rows.
     lift_result (decode_all (map du_Payload rows)))"

definition StageUser :: "string \<Rightarrow> string \<Rightarrow> byte list \<Rightarrow> ('m repl_tables_scheme, unit) prog" where
  "StageUser snapshotID email payload = exec (\<lambda>t. ((), t\<lparr>r_staging := put_row (\<lambda>s. (su_SnapshotID s, su_Email s))
     \<lparr>su_SnapshotID = snapshotID, su_Email = email, su_Payload = b64_encode payload\<rparr> (r_staging t)\<rparr>))"

fun activate_rows :: "int \<Rightarrow> stagingUserRow list \<Rightarrow> byte list list \<Rightarrow> ('m repl_tables_scheme, byte list list) prog" where
  "activate_rows revision [] payloads = ret payloads"
| "activate_rows revision (row # rows) payloads =
     bind (lift_result (b64_decode (su_Payload row))) (\<lambda>payload.
     bind now (\<lambda>ts.
     bind (stmt (insert_row r_desired r_desired_update (\<lambda>x y. du_Email x = du_Email y)
       \<lparr>du_Email = su_Email row, du_Payload = su_Payload row, du_Revision = revision, du_UpdatedAt = ts\<rparr>)) (\<lambda>_.
     activate_rows revision rows (payloads @ [payload]))))"

definition ActivateSnapshot :: "string \<Rightarrow> int \<Rightarrow> ('m repl_tables_scheme, byte list list) prog" where
  "ActivateSnapshot snapshotID revision = transaction (
     bind (query (\<lambda>t. sort_key su_Email (filter (\<lambda>s. su_SnapshotID s = snapshotID) (r_staging t)))) (\<lambda>staged.
     bind (exec (\<lambda>t. ((), t\<lparr>r_desired := []\<rparr>))) (\<lambda>_.
     bind (activate_rows revision staged []) (\<lambda>payloads.
     bind (exec (\<lambda>t. ((), t\<lparr>r_staging := filter (\<lambda>s. su_SnapshotID s \<noteq> snapshotID) (r_staging t)\<rparr>))) (\<lambda>_.
     bind (PutMeta ''applied_revision'' (fmt_int revision)) (\<lambda>_.
     bind (PutMeta ''snapshot_initialized'' ''true'') (\<lambda>_. ret payloads)))))))"

section \<open>Artifacts\<close>

definition PutArtifact :: "string \<Rightarrow> byte list \<Rightarrow> int \<Rightarrow> ('m repl_tables_scheme, unit) prog" where
  "PutArtifact kind payload revision = bind now (\<lambda>ts. exec (\<lambda>t. ((), t\<lparr>r_artifacts := put_row ar_Kind
     \<lparr>ar_Kind = kind, ar_Payload = b64_encode payload, ar_Checksum = checksum kind payload, ar_Revision = revision,
      ar_UpdatedAt = ts\<rparr> (r_artifacts t)\<rparr>)))"

definition DeleteArtifact :: "string \<Rightarrow> ('m repl_tables_scheme, unit) prog" where
  "DeleteArtifact kind = exec (\<lambda>t. ((), t\<lparr>r_artifacts := filter (\<lambda>a. ar_Kind a \<noteq> kind) (r_artifacts t)\<rparr>))"

definition artifact_event :: "artifactRow \<Rightarrow> Event result" where
  "artifact_event row = (case b64_decode (ar_Payload row) of
     Inl e \<Rightarrow> Inl e
   | Inr payload \<Rightarrow> Inr \<lparr>re_Revision = ar_Revision row, re_Kind = ar_Kind row, re_Payload = payload, re_Checksum = ar_Checksum row\<rparr>)"

fun artifact_events :: "artifactRow list \<Rightarrow> Event list result" where
  "artifact_events [] = Inr []"
| "artifact_events (row # rows) = (case artifact_event row of Inl e \<Rightarrow> Inl e | Inr ev \<Rightarrow>
     (case artifact_events rows of Inl e \<Rightarrow> Inl e | Inr evs \<Rightarrow> Inr (ev # evs)))"

definition Artifacts :: "('m repl_tables_scheme, Event list) prog" where
  "Artifacts = bind (query (\<lambda>t. sort_key ar_Kind (r_artifacts t))) (\<lambda>rows. lift_result (artifact_events rows))"

end
