(* ===== verification/Replication_Service.thy ===== *)
theory Replication_Service
  imports Vpn_Users Replication_Store
begin

text \<open>
  The replication service (\<^verbatim>\<open>internal/plugins/cluster_replication/service.go\<close>) and the engine of a master
  that records every change in the journal (\<^verbatim>\<open>publishing_engine.go\<close>). JSON is written and read by a package
  outside the sources, so the codec is a record of functions; what a theorem needs of it is that the
  payloads at hand are read back as they were written.
\<close>

section \<open>State and parameters\<close>

record artifactPayload =
  ap_Kind :: string
  ap_Data :: string

record json_codec =
  enc_user :: "VPNUserConfig \<Rightarrow> byte list result"
  dec_user :: "byte list \<Rightarrow> VPNUserConfig result"
  enc_remove :: "string \<Rightarrow> byte list result"
  dec_remove :: "byte list \<Rightarrow> string result"
  enc_artifact :: "artifactPayload \<Rightarrow> byte list result"
  dec_artifact :: "byte list \<Rightarrow> artifactPayload result"
  enc_users :: "VPNUserConfig list \<Rightarrow> byte list result"

text \<open>
  A node: its database, its files, the directories it has, and the frames it has written to the stream. The
  directories are those of the installation; creating one on the way to a file is not recorded.
\<close>

record node = repl_tables +
  n_files :: files
  n_dirs :: "string list"
  n_sent :: "Frame list"

interpretation node_files: file_store n_files n_files_update
  by unfold_locales simp_all

text \<open>
  The optional capabilities of the engine are options; \<open>sv_tmp\<close> names temporary files. Applying a routing
  file to the local xray process belongs to another component.
\<close>

record 'd Service =
  sv_engine :: "'d Engine"
  sv_TemplateUserSnapshot :: "(VPNUserConfig list \<Rightarrow> ('d, VPNUserConfig list) prog) option"
  sv_ReconcileUsers :: "(VPNUserConfig list \<Rightarrow> ('d, EngineSyncResult) prog) option"
  sv_SyncRealityKeys :: "(byte list \<Rightarrow> ('d, unit) prog) option"
  sv_ApplyLocalServerRouting :: "string \<Rightarrow> string \<Rightarrow> string \<Rightarrow> ('d, unit) prog"
  sv_codec :: json_codec
  sv_isUUID :: "string \<Rightarrow> bool"
  sv_tmp :: "string \<Rightarrow> string"

definition artifactRealityKeys :: string where "artifactRealityKeys = ''reality_keys''"
definition artifactRoutingPrefix :: string where "artifactRoutingPrefix = ''routing_file:''"
definition legacyStaticClientsArtifact :: string where "legacyStaticClientsArtifact = ''static_clients''"
definition legacyStaticClientsDigestKey :: string where "legacyStaticClientsDigestKey = ''master_artifact_digest_static_clients''"

section \<open>The desired state of the master\<close>

text \<open>
  The emails of blocked users' subscriptions and of the active bans. A query that fails adds nothing.
\<close>

definition blocked_users :: "('m repl_tables_scheme, string list) prog" where
  "blocked_users = bind (attempt Users_FindAll) (\<lambda>r. case r of
     Inl _ \<Rightarrow> ret []
   | Inr users \<Rightarrow>
       (let blockedIDs = map u_ID (filter u_IsBlocked users)
        in if blockedIDs = [] then ret []
           else bind (attempt Subs_FindAll) (\<lambda>s. case s of
             Inl _ \<Rightarrow> ret []
           | Inr subs \<Rightarrow> ret (map s_Email (filter (\<lambda>s. s_UserID s \<in> set blockedIDs \<and> s_Email s \<noteq> []) subs)))))"

definition blockedEmails :: "('m repl_tables_scheme, string list) prog" where
  "blockedEmails = bind blocked_users (\<lambda>emails.
     bind (attempt Bans_FindActive) (\<lambda>r.
     ret (emails @ (case r of Inr bans \<Rightarrow> map bn_Email bans | Inl _ \<Rightarrow> []))))"

text \<open>The template users that are not yet in the list, without duplicates.\<close>

fun merge_template :: "VPNUserConfig list \<Rightarrow> VPNUserConfig list \<Rightarrow> VPNUserConfig list" where
  "merge_template users [] = users"
| "merge_template users (u # us) =
     merge_template (if vu_Email u = [] \<or> vu_Email u \<in> vu_Email ` set users then users else users @ [u]) us"

definition BuildSnapshot :: "'m repl_tables_scheme Service \<Rightarrow> ('m repl_tables_scheme, VPNUserConfig list) prog" where
  "BuildSnapshot sv =
     bind (map_error (ErrWrap ''load subscriptions for replication snapshot: '') Subs_FindAll) (\<lambda>subscriptions.
     bind blockedEmails (\<lambda>blocked.
     let users = map (SubscriptionToVPNUserConfig (sv_isUUID sv)) (filter (\<lambda>s. \<not> (s_Email s = [] \<or> s_UUID s = [] \<or>
           s_Status s \<noteq> ''active'' \<or> s_Email s \<in> set blocked)) subscriptions)
     in bind (case sv_TemplateUserSnapshot sv of
          None \<Rightarrow> ret users
        | Some snapshot \<Rightarrow> bind (map_error (ErrWrap ''build template user snapshot: '') (snapshot users)) (\<lambda>templateUsers.
            ret (merge_template users templateUsers))) (\<lambda>users.
        ret (sort_key vu_Email users))))"

section \<open>Publishing\<close>

definition PublishUser :: "'m repl_tables_scheme Service \<Rightarrow> VPNUserConfig \<Rightarrow> ('m repl_tables_scheme, Event) prog" where
  "PublishUser sv user =
     bind (map_error (ErrWrap ''marshal user replication event: '') (lift_result (enc_user (sv_codec sv) user))) (\<lambda>payload.
     Append eventUserUpsert payload)"

definition PublishRemove :: "'m repl_tables_scheme Service \<Rightarrow> string \<Rightarrow> ('m repl_tables_scheme, Event) prog" where
  "PublishRemove sv email =
     bind (map_error (ErrWrap ''marshal remove replication event: '') (lift_result (enc_remove (sv_codec sv) email))) (\<lambda>payload.
     Append eventUserRemove payload)"

definition PublishCurrentUser :: "'m repl_tables_scheme Service \<Rightarrow> string \<Rightarrow> ('m repl_tables_scheme, unit) prog" where
  "PublishCurrentUser sv email = bind (BuildSnapshot sv) (\<lambda>users.
     case find_first (\<lambda>u. vu_Email u = email) users of
       Some user \<Rightarrow> bind (PublishUser sv user) (\<lambda>_. ret ())
     | None \<Rightarrow> bind (PublishRemove sv email) (\<lambda>_. ret ()))"

definition RequestSnapshot :: "string \<Rightarrow> ('m repl_tables_scheme, unit) prog" where
  "RequestSnapshot reason = bind (Append eventResnapshot (bytes_of (trim_space reason))) (\<lambda>_. ret ())"

definition desiredDigest :: "json_codec \<Rightarrow> VPNUserConfig list \<Rightarrow> string result" where
  "desiredDigest codec users = (case enc_users codec users of Inl e \<Rightarrow> Inl e | Inr payload \<Rightarrow> Inr (hex_encode (sha256 payload)))"

definition DetectDesiredState :: "'m repl_tables_scheme Service \<Rightarrow> ('m repl_tables_scheme, bool) prog" where
  "DetectDesiredState sv = bind (BuildSnapshot sv) (\<lambda>users.
     bind (lift_result (desiredDigest (sv_codec sv) users)) (\<lambda>digest.
     bind (GetMeta ''master_desired_digest'') (\<lambda>previous.
     if previous = Some digest then ret False
     else bind (Append eventResnapshot (bytes_of digest)) (\<lambda>_.
       bind (PutMeta ''master_desired_digest'' digest) (\<lambda>_. ret True)))))"

text \<open>\<open>os.Stat\<close> and \<open>os.ReadFile\<close>; the latter gives nothing for a file that does not exist.\<close>

definition stat_ok :: "string \<Rightarrow> ('m node_scheme, bool) prog" where
  "stat_ok p = bind (attempt (query (\<lambda>d. p \<in> set (n_dirs d) \<or> n_files d p \<noteq> None))) (\<lambda>r. ret (r = Inr True))"

definition ReadFile :: "string \<Rightarrow> ('m node_scheme, byte list option) prog" where
  "ReadFile p = query (\<lambda>d. map_option fl_data (n_files d p))"

text \<open>
  Reading the artifacts. \<open>list_dir\<close> is what \<open>os.ReadDir\<close> returns: the entries of a directory, each with a
  flag for directories, or nothing when it cannot be read. The map from kinds to contents is a list in the
  order of insertion, each kind once.
\<close>

type_synonym listing = "string \<Rightarrow> (string \<times> bool) list option"

fun read_entries ::
  "string \<Rightarrow> string \<Rightarrow> (string \<times> bool) list \<Rightarrow> (string \<times> byte list) list \<Rightarrow> ('m node_scheme, (string \<times> byte list) list) prog"
where
  "read_entries dir kindPrefix [] artifacts = ret artifacts"
| "read_entries dir kindPrefix ((file, isDir) # entries) artifacts =
     (if \<not> isDir \<and> suffix ''.json'' file
      then bind (attempt (ReadFile (Join dir file))) (\<lambda>r.
        read_entries dir kindPrefix entries
          (case r of Inr (Some data) \<Rightarrow> AList.update (kindPrefix @ file) data artifacts | _ \<Rightarrow> artifacts))
      else read_entries dir kindPrefix entries artifacts)"

definition read_dir ::
  "listing \<Rightarrow> string \<Rightarrow> string \<Rightarrow> (string \<times> byte list) list \<Rightarrow> ('m node_scheme, (string \<times> byte list) list) prog"
where
  "read_dir list_dir dir kindPrefix artifacts =
     (case list_dir dir of None \<Rightarrow> ret artifacts | Some entries \<Rightarrow> read_entries dir kindPrefix entries artifacts)"

definition reality_artifact :: "string \<Rightarrow> ('m node_scheme, (string \<times> byte list) list) prog" where
  "reality_artifact realityKeysPath =
     (let path = trim_space realityKeysPath
      in if path = [] then ret []
         else bind (map_error (ErrWrap ''read reality key artifact: '') (ReadFile path)) (\<lambda>r.
           ret (case r of None \<Rightarrow> [] | Some payload \<Rightarrow> [(artifactRealityKeys, payload)])))"

definition publish_dir :: "string \<Rightarrow> ('m node_scheme, string) prog" where
  "publish_dir configured =
     (let rDir = trim_space configured
      in if rDir \<noteq> [] then ret rDir
         else bind (stat_ok ''/etc/xraytool/routing'') (\<lambda>a.
           if a then ret ''/etc/xraytool/routing''
           else bind (stat_ok ''/etc/xraytool'') (\<lambda>b.
             if b then ret ''/etc/xraytool/routing''
             else bind (stat_ok ''/root/xraytool/data/routing'') (\<lambda>c.
               ret (if c then ''/root/xraytool/data/routing'' else [])))))"

definition read_artifacts :: "listing \<Rightarrow> string \<Rightarrow> string \<Rightarrow> ('m node_scheme, (string \<times> byte list) list) prog" where
  "read_artifacts list_dir realityKeysPath routingDir =
     bind (reality_artifact realityKeysPath) (\<lambda>artifacts.
     bind (publish_dir routingDir) (\<lambda>rDir.
     if rDir = [] then ret artifacts
     else bind (read_dir list_dir rDir artifactRoutingPrefix artifacts) (\<lambda>artifacts.
       read_dir list_dir (Join rDir ''outbounds'') (artifactRoutingPrefix @ ''outbounds/'') artifacts)))"

text \<open>Publishing those that changed, in the order in which the loop visits the map.\<close>

fun publish_artifacts :: "json_codec \<Rightarrow> (string \<times> byte list) list \<Rightarrow> int \<Rightarrow> ('m repl_tables_scheme, int) prog" where
  "publish_artifacts codec [] published = ret published"
| "publish_artifacts codec ((kind, data) # artifacts) published =
     (let key = ''master_artifact_digest_'' @ kind; digest = checksum kind data
      in bind (GetMeta key) (\<lambda>previous.
         if previous = Some digest then publish_artifacts codec artifacts published
         else bind (lift_result (enc_artifact codec \<lparr>ap_Kind = kind, ap_Data = b64_encode data\<rparr>)) (\<lambda>payload.
           bind (Append eventArtifact payload) (\<lambda>ev.
           bind (PutArtifact kind data (re_Revision ev)) (\<lambda>_.
           bind (PutMeta key digest) (\<lambda>_.
           publish_artifacts codec artifacts (published + 1)))))))"

text \<open>Go visits a map in no fixed order: \<open>visit\<close> is the order of this run.\<close>

definition PublishArtifacts ::
  "'m node_scheme Service \<Rightarrow> listing \<Rightarrow> ((string \<times> byte list) list \<Rightarrow> (string \<times> byte list) list) \<Rightarrow> string \<Rightarrow> string \<Rightarrow> ('m node_scheme, int) prog"
where
  "PublishArtifacts sv list_dir visit realityKeysPath routingDir =
     bind (map_error (ErrWrap ''remove obsolete static client artifact: '') (DeleteArtifact legacyStaticClientsArtifact)) (\<lambda>_.
     bind (map_error (ErrWrap ''remove obsolete static client digest: '') (DeleteMeta legacyStaticClientsDigestKey)) (\<lambda>_.
     bind (read_artifacts list_dir realityKeysPath routingDir) (\<lambda>artifacts.
     publish_artifacts (sv_codec sv) (visit artifacts) 0)))"

section \<open>Applying events on a slave\<close>

record slave_paths =
  pa_realityKeysPath :: string
  pa_routingDir :: string
  pa_nodeID :: string
  pa_xrayConfigPath :: string

definition routing_dir :: "string \<Rightarrow> ('m node_scheme, string) prog" where
  "routing_dir configured =
     (let rDir = trim_space configured
      in if rDir \<noteq> [] then ret rDir
         else bind (stat_ok ''/etc/xraytool/routing'') (\<lambda>a.
           if a then ret ''/etc/xraytool/routing''
           else bind (stat_ok ''/etc/xraytool'') (\<lambda>b.
             ret (if b then ''/etc/xraytool/routing'' else ''/root/xraytool/data/routing''))))"

text \<open>A private temporary file in the same directory, renamed over the target, and removed in any case.\<close>

definition on_files :: "(files \<Rightarrow> files) \<Rightarrow> ('m node_scheme, unit) prog" where
  "on_files f = exec (\<lambda>d. ((), n_files_update f d))"

definition writeSensitiveArtifact :: "(string \<Rightarrow> string) \<Rightarrow> string \<Rightarrow> byte list \<Rightarrow> ('m node_scheme, unit) prog" where
  "writeSensitiveArtifact tmpName path data =
     (let tmp = tmpName path
      in bind (on_files id) (\<lambda>_.
         bind (on_files (\<lambda>fs. fs(tmp \<mapsto> \<lparr>fl_data = [], fl_perm = 384\<rparr>))) (\<lambda>_.
         bind (attempt (
           bind (on_files (\<lambda>fs. fs(tmp := map_option (\<lambda>f. f\<lparr>fl_perm := 384\<rparr>) (fs tmp)))) (\<lambda>_.
           bind (on_files (\<lambda>fs. fs(tmp := map_option (\<lambda>f. f\<lparr>fl_data := data\<rparr>) (fs tmp)))) (\<lambda>_.
           bind (on_files id) (\<lambda>_.
           on_files (\<lambda>fs. fs(path := fs tmp, tmp := None))))))) (\<lambda>r.
         bind (attempt (on_files (\<lambda>fs. fs(tmp := None)))) (\<lambda>_. lift_result r)))))"

definition apply_routing_file ::
  "'m node_scheme Service \<Rightarrow> slave_paths \<Rightarrow> string \<Rightarrow> byte list \<Rightarrow> ('m node_scheme, unit) prog"
where
  "apply_routing_file sv pa relPath data =
     (let cleanPath = Clean relPath
      in if prefix ''..'' cleanPath \<or> IsAbs cleanPath
         then fail (Err (''invalid routing artifact path '' @ go_quote relPath @ '': potential path traversal''))
         else bind (routing_dir (pa_routingDir pa)) (\<lambda>rDir.
           let dest = Join rDir cleanPath
           in bind (map_error (ErrWrap (''write routing artifact '' @ dest @ '': ''))
                (WriteToFile n_files n_files_update (sv_tmp sv dest) dest data 420)) (\<lambda>_.
              let targetNode = trim_space (pa_nodeID pa)
              in if targetNode \<noteq> [] \<and> (cleanPath = targetNode @ ''.json'' \<or> prefix ''outbounds/'' cleanPath)
                 then map_error (ErrWrap (''apply slave routing ('' @ cleanPath @ ''): ''))
                   (sv_ApplyLocalServerRouting sv targetNode rDir (pa_xrayConfigPath pa))
                 else ret ())))"

definition applyArtifact :: "'m node_scheme Service \<Rightarrow> slave_paths \<Rightarrow> byte list \<Rightarrow> int \<Rightarrow> ('m node_scheme, unit) prog" where
  "applyArtifact sv pa raw revision =
     bind (map_error (ErrWrap ''decode replication artifact: '') (lift_result (dec_artifact (sv_codec sv) raw))) (\<lambda>payload.
     bind (map_error (ErrWrap ''decode replication artifact body: '') (lift_result (b64_decode (ap_Data payload)))) (\<lambda>data.
     if ap_Kind payload = legacyStaticClientsArtifact then
       map_error (ErrWrap ''remove obsolete static client artifact: '') (DeleteArtifact legacyStaticClientsArtifact)
     else bind
       (if ap_Kind payload = artifactRealityKeys then
          (let path = trim_space (pa_realityKeysPath pa)
           in if path = [] then fail (Err ''received reality key artifact but reality_keys_path is unset'')
              else bind (map_error (ErrWrap ''write reality key artifact: '') (writeSensitiveArtifact (sv_tmp sv) path data)) (\<lambda>_.
                case sv_SyncRealityKeys sv of
                  None \<Rightarrow> ret ()
                | Some syncRealityKeys \<Rightarrow> map_error (ErrWrap ''apply reality key artifact: '') (syncRealityKeys data)))
        else if prefix artifactRoutingPrefix (ap_Kind payload) then
          apply_routing_file sv pa (drop (length artifactRoutingPrefix) (ap_Kind payload)) data
        else fail (Err (''unknown replication artifact '' @ go_quote (ap_Kind payload)))) (\<lambda>_.
     PutArtifact (ap_Kind payload) data revision)))"

definition event_no :: "Event \<Rightarrow> string" where
  "event_no ev = fmt_int (re_Revision ev)"

definition apply_upsert :: "'m node_scheme Service \<Rightarrow> Event \<Rightarrow> ('m node_scheme, unit) prog" where
  "apply_upsert sv ev =
     bind (map_error (ErrWrap (''decode user event '' @ event_no ev @ '': '')) (lift_result (dec_user (sv_codec sv) (re_Payload ev)))) (\<lambda>user.
     if vu_Email user = [] then fail (Err (''replication event '' @ event_no ev @ '' has empty user email''))
     else bind (map_error (ErrWrap (''apply user event '' @ event_no ev @ '': '')) (eg_AddUser (sv_engine sv) user)) (\<lambda>_.
       UpsertDesiredUser (vu_Email user) (re_Payload ev) (re_Revision ev)))"

definition apply_remove :: "'m node_scheme Service \<Rightarrow> Event \<Rightarrow> ('m node_scheme, unit) prog" where
  "apply_remove sv ev =
     bind (map_error (ErrWrap (''decode remove event '' @ event_no ev @ '': '')) (lift_result (dec_remove (sv_codec sv) (re_Payload ev)))) (\<lambda>email.
     if email = [] then fail (Err (''replication event '' @ event_no ev @ '' has empty remove email''))
     else bind (map_error (ErrWrap (''apply remove event '' @ event_no ev @ '': '')) (eg_RemoveUser (sv_engine sv) email)) (\<lambda>_.
       RemoveDesiredUser email))"

definition ApplyEvent :: "'m node_scheme Service \<Rightarrow> slave_paths \<Rightarrow> string \<Rightarrow> Event \<Rightarrow> ('m node_scheme, unit) prog" where
  "ApplyEvent sv pa masterID ev =
     (if checksum (re_Kind ev) (re_Payload ev) \<noteq> re_Checksum ev
      then fail (Err (''replication event '' @ event_no ev @ '' checksum mismatch''))
      else bind (map_error (ErrWrap ''check replication inbox: '') (AlreadyApplied masterID (re_Revision ev))) (\<lambda>alreadyApplied.
        if alreadyApplied then ret ()
        else bind
          (if re_Kind ev = eventUserUpsert then apply_upsert sv ev
           else if re_Kind ev = eventUserRemove then apply_remove sv ev
           else if re_Kind ev = eventArtifact then applyArtifact sv pa (re_Payload ev) (re_Revision ev)
           else if re_Kind ev = eventResnapshot then fail (Err ''received unexpanded replication resnapshot marker'')
           else fail (Err (''unknown replication event kind '' @ go_quote (re_Kind ev)))) (\<lambda>_.
          MarkApplied masterID ev)))"

fun decode_users :: "json_codec \<Rightarrow> byte list list \<Rightarrow> VPNUserConfig list result" where
  "decode_users codec [] = Inr []"
| "decode_users codec (p # ps) = (case dec_user codec p of Inl e \<Rightarrow> Inl e | Inr u \<Rightarrow>
     (case decode_users codec ps of Inl e \<Rightarrow> Inl e | Inr us \<Rightarrow> Inr (u # us)))"

definition DesiredUsers :: "'m repl_tables_scheme Service \<Rightarrow> ('m repl_tables_scheme, VPNUserConfig list) prog" where
  "DesiredUsers sv = bind Store_DesiredUsers (\<lambda>payloads.
     map_error (ErrWrap ''decode desired replicated user: '') (lift_result (decode_users (sv_codec sv) payloads)))"

definition reconcileUsers :: "'d Service \<Rightarrow> VPNUserConfig list \<Rightarrow> ('d, unit) prog" where
  "reconcileUsers sv users = (case sv_ReconcileUsers sv of
     Some reconcile \<Rightarrow> bind (reconcile users) (\<lambda>_. ret ())
   | None \<Rightarrow> bind (eg_SyncUsers (sv_engine sv) users True) (\<lambda>_. ret ()))"

text \<open>\<open>free\<close> tells whether the lock of the reconciliation could be taken.\<close>

definition ReconcileSlave :: "'m repl_tables_scheme Service \<Rightarrow> bool \<Rightarrow> ('m repl_tables_scheme, unit) prog" where
  "ReconcileSlave sv free = (if \<not> free then ret ()
     else bind (DesiredUsers sv) (\<lambda>users. map_error (ErrWrap ''reconcile slave desired state: '') (reconcileUsers sv users)))"

definition ReconcileDesiredState :: "'m repl_tables_scheme Service \<Rightarrow> ('m repl_tables_scheme, unit) prog" where
  "ReconcileDesiredState sv = bind (BuildSnapshot sv) (reconcileUsers sv)"

section \<open>The engine of the master\<close>

text \<open>Every change that succeeds on the wrapped engine is recorded in the journal.\<close>

definition PublishingEngine :: "'m repl_tables_scheme Engine \<Rightarrow> 'm repl_tables_scheme Service \<Rightarrow> 'm repl_tables_scheme Engine" where
  "PublishingEngine eng sv = eng\<lparr>
     eg_AddUser := (\<lambda>user. bind (eg_AddUser eng user) (\<lambda>_.
       bind (map_error (ErrWrap (''record replicated add for '' @ go_quote (vu_Email user) @ '': '')) (PublishUser sv user)) (\<lambda>_. ret ()))),
     eg_AddUsersBulk := (\<lambda>users. bind (eg_AddUsersBulk eng users) (\<lambda>_. for_each (\<lambda>user.
       bind (map_error (ErrWrap (''record replicated bulk add for '' @ go_quote (vu_Email user) @ '': '')) (PublishUser sv user)) (\<lambda>_. ret ())) users)),
     eg_RemoveUser := (\<lambda>email. bind (eg_RemoveUser eng email) (\<lambda>_.
       bind (map_error (ErrWrap (''record replicated removal for '' @ go_quote email @ '': '')) (PublishRemove sv email)) (\<lambda>_. ret ()))),
     eg_RemoveUsersBulk := (\<lambda>emails. bind (eg_RemoveUsersBulk eng emails) (\<lambda>_. for_each (\<lambda>email.
       bind (map_error (ErrWrap (''record replicated bulk removal for '' @ go_quote email @ '': '')) (PublishRemove sv email)) (\<lambda>_. ret ())) emails)),
     eg_SetExpire := (\<lambda>email expire. bind (eg_SetExpire eng email expire) (\<lambda>_. PublishCurrentUser sv email)),
     eg_SetLimit := (\<lambda>email limit. bind (eg_SetLimit eng email limit) (\<lambda>_. PublishCurrentUser sv email)),
     eg_BanUser := (\<lambda>email. bind (eg_BanUser eng email) (\<lambda>_. PublishCurrentUser sv email)),
     eg_UnbanUser := (\<lambda>email. bind (eg_UnbanUser eng email) (\<lambda>_. PublishCurrentUser sv email))\<rparr>"

end
