(* ===== verification/Json.thy ===== *)
theory Json
  imports Encoding
begin

text \<open>
  What the program uses of Go's \<^verbatim>\<open>encoding/json\<close>: the text of a value, and reading it back. A number
  keeps its literal, an object the order of its entries. The reader is a scanner for the tokens and a machine
  with a stack of the open arrays and objects, as the decoder of the library has it.
\<close>

datatype raw =
    RNull
  | RBool bool
  | RNum string
  | RStr string
  | RArr "raw list"
  | RObj "(string \<times> raw) list"

abbreviation quote_char :: char where "quote_char \<equiv> CHR 0x22"
abbreviation backslash :: char where "backslash \<equiv> CHR 0x5C"
abbreviation ord :: "char \<Rightarrow> nat" where "ord c \<equiv> of_char c"

section \<open>UTF-8\<close>

text \<open>
  The length of the rune at the start of a text, as \<open>utf8.DecodeRune\<close> finds it; 0 when there is none.
\<close>

definition continuation :: "nat \<Rightarrow> bool" where
  "continuation x \<longleftrightarrow> 128 \<le> x \<and> x \<le> 191"

definition second_ok :: "nat \<Rightarrow> nat \<Rightarrow> bool" where
  "second_ok a b \<longleftrightarrow> (if a = 224 then 160 else if a = 240 then 144 else 128) \<le> b \<and>
     b \<le> (if a = 237 then 159 else if a = 244 then 143 else 191)"

definition rune_length :: "string \<Rightarrow> nat" where
  "rune_length s = (case map ord s of
     [] \<Rightarrow> 0
   | a # bs \<Rightarrow>
       if a < 128 then 1
       else if 194 \<le> a \<and> a \<le> 223 then (case bs of b # _ \<Rightarrow> if continuation b then 2 else 0 | _ \<Rightarrow> 0)
       else if 224 \<le> a \<and> a \<le> 239 then (case bs of b # c # _ \<Rightarrow> if second_ok a b \<and> continuation c then 3 else 0 | _ \<Rightarrow> 0)
       else if 240 \<le> a \<and> a \<le> 244 then
         (case bs of b # c # d # _ \<Rightarrow> if second_ok a b \<and> continuation c \<and> continuation d then 4 else 0 | _ \<Rightarrow> 0)
       else 0)"

lemma rune_length_le: "rune_length s \<le> length s"
  by (auto simp: rune_length_def split: list.splits)

function valid_utf8 :: "string \<Rightarrow> bool" where
  "valid_utf8 s = (if s = [] then True else if rune_length s = 0 then False else valid_utf8 (drop (rune_length s) s))"
  by pat_completeness auto
termination by (relation "measure length") auto

declare valid_utf8.simps [simp del]

definition rune_error :: string where
  "rune_error = [CHR 0xEF, CHR 0xBF, CHR 0xBD]"

section \<open>Strings\<close>

definition hex4 :: "nat \<Rightarrow> string" where
  "hex4 n = [hex_digit (n div 4096 mod 16), hex_digit (n div 256 mod 16), hex_digit (n div 16 mod 16), hex_digit (n mod 16)]"

definition escape_char :: "char \<Rightarrow> string" where
  "escape_char c =
     (if c = quote_char \<or> c = backslash then [backslash, c]
      else if ord c = 8 then [backslash, CHR ''b'']
      else if ord c = 12 then [backslash, CHR ''f'']
      else if ord c = 10 then [backslash, CHR ''n'']
      else if ord c = 13 then [backslash, CHR ''r'']
      else if ord c = 9 then [backslash, CHR ''t'']
      else if ord c < 32 \<or> c = CHR ''<'' \<or> c = CHR ''>'' \<or> c = CHR ''&'' then [backslash, CHR ''u''] @ hex4 (ord c)
      else [c])"

definition line_separator :: string where "line_separator = [CHR 0xE2, CHR 0x80, CHR 0xA8]"
definition paragraph_separator :: string where "paragraph_separator = [CHR 0xE2, CHR 0x80, CHR 0xA9]"

definition escape_rune :: "string \<Rightarrow> string" where
  "escape_rune r =
     (case r of
        [c] \<Rightarrow> escape_char c
      | _ \<Rightarrow> if r = line_separator then [backslash, CHR ''u''] @ ''2028''
             else if r = paragraph_separator then [backslash, CHR ''u''] @ ''2029'' else r)"

function escape :: "string \<Rightarrow> string" where
  "escape s =
     (if s = [] then []
      else if rune_length s = 0 then [backslash, CHR ''u''] @ ''fffd'' @ escape (tl s)
      else escape_rune (take (rune_length s) s) @ escape (drop (rune_length s) s))"
  by pat_completeness auto
termination by (relation "measure length") auto

declare escape.simps [simp del]

definition quoted :: "string \<Rightarrow> string" where
  "quoted s = quote_char # escape s @ [quote_char]"

definition hex_value :: "char \<Rightarrow> nat option" where
  "hex_value c = (let x = ord c in
     if 48 \<le> x \<and> x \<le> 57 then Some (x - 48) else if 97 \<le> x \<and> x \<le> 102 then Some (x - 87)
     else if 65 \<le> x \<and> x \<le> 70 then Some (x - 55) else None)"

definition read_hex4 :: "string \<Rightarrow> nat option" where
  "read_hex4 s = (case map hex_value (take 4 s) of
     [Some a, Some b, Some c, Some d] \<Rightarrow> Some (((a * 16 + b) * 16 + c) * 16 + d)
   | _ \<Rightarrow> None)"

text \<open>The UTF-8 text of a ord point; a surrogate has none and becomes the replacement character.\<close>

definition utf8_encode :: "nat \<Rightarrow> string" where
  "utf8_encode n =
     (if n < 128 then [char_of n]
      else if n < 2048 then map char_of [192 + n div 64, 128 + n mod 64]
      else if (55296 \<le> n \<and> n \<le> 57343) \<or> 1114111 < n then rune_error
      else if n < 65536 then map char_of [224 + n div 4096, 128 + n div 64 mod 64, 128 + n mod 64]
      else map char_of [240 + n div 262144, 128 + n div 4096 mod 64, 128 + n div 64 mod 64, 128 + n mod 64])"

definition simple_escape :: "char \<Rightarrow> char option" where
  "simple_escape c =
     (if c = quote_char \<or> c = backslash \<or> c = CHR ''/'' then Some c
      else if c = CHR ''b'' then Some (CHR 8) else if c = CHR ''f'' then Some (CHR 12)
      else if c = CHR ''n'' then Some (CHR 10) else if c = CHR ''r'' then Some (CHR 13)
      else if c = CHR ''t'' then Some (CHR 9) else None)"

text \<open>A pair of surrogate escapes: the ord point it stands for.\<close>

definition surrogate_pair :: "nat \<Rightarrow> string \<Rightarrow> nat option" where
  "surrogate_pair hi rest =
     (if take 2 rest = [backslash, CHR ''u''] \<and> 55296 \<le> hi \<and> hi \<le> 56319
      then (case read_hex4 (drop 2 rest) of
              Some lo \<Rightarrow> if 56320 \<le> lo \<and> lo \<le> 57343 then Some ((hi - 55296) * 1024 + (lo - 56320) + 65536) else None
            | None \<Rightarrow> None)
      else None)"

function unescape :: "string \<Rightarrow> string option" where
  "unescape s =
     (case s of
        [] \<Rightarrow> Some []
      | c # t \<Rightarrow>
          if c = backslash then
            (case t of
               [] \<Rightarrow> None
             | e # u \<Rightarrow>
                 if e = CHR ''u'' then
                   (case read_hex4 u of
                      None \<Rightarrow> None
                    | Some n \<Rightarrow>
                        (case surrogate_pair n (drop 4 u) of
                           Some p \<Rightarrow> map_option ((@) (utf8_encode p)) (unescape (drop 10 u))
                         | None \<Rightarrow> map_option ((@) (utf8_encode n)) (unescape (drop 4 u))))
                 else (case simple_escape e of
                         None \<Rightarrow> None
                       | Some d \<Rightarrow> map_option ((#) d) (unescape u)))
          else if ord c < 32 \<or> c = quote_char then None
          else if rune_length s = 0 then map_option ((@) rune_error) (unescape t)
          else map_option ((@) (take (rune_length s) s)) (unescape (drop (rune_length s) s)))"
  by pat_completeness auto
termination by (relation "measure length") auto

declare unescape.simps [simp del]

section \<open>Reading back a string\<close>

lemma append_one: "(@) [c] = (#) c"
  by auto

lemma append_fun: "(@) (x # xs) = (\<lambda>ys. x # xs @ ys)"
  by auto

lemma hex_value_digit: "n < 16 \<Longrightarrow> hex_value (hex_digit n) = Some n"
proof -
  have "list_all (\<lambda>n. hex_value (hex_digit n) = Some n) [0..<16]" by code_simp
  then show "n < 16 \<Longrightarrow> ?thesis" by (simp only: list_all_iff set_upt atLeastLessThan_iff le0 simp_thms)
qed

lemma read_hex4_hex4: "n < 128 \<Longrightarrow> read_hex4 (hex4 n @ s) = Some n"
  by (simp add: read_hex4_def hex4_def hex_value_digit)

lemma surrogate_pair_low: "n < 55296 \<Longrightarrow> surrogate_pair n s = None"
  by (simp add: surrogate_pair_def)

lemma unescape_u: "read_hex4 u = Some n \<Longrightarrow> n < 55296 \<Longrightarrow>
    unescape (backslash # CHR ''u'' # u) = map_option ((@) (utf8_encode n)) (unescape (drop 4 u))"
  by (subst unescape.simps) (simp add: surrogate_pair_low)

lemma unescape_simple: "simple_escape e = Some d \<Longrightarrow> e \<noteq> CHR ''u'' \<Longrightarrow> unescape (backslash # e # u) = map_option ((#) d) (unescape u)"
  by (subst unescape.simps) simp

lemma unescape_ascii:
  "c \<noteq> backslash \<Longrightarrow> c \<noteq> quote_char \<Longrightarrow> 32 \<le> ord c \<Longrightarrow> ord c < 128 \<Longrightarrow> unescape (c # u) = map_option ((#) c) (unescape u)"
  by (subst unescape.simps) (simp add: rune_length_def append_one)

lemma unescape_escape_char:
  assumes "ord c < 128"
  shows "unescape (escape_char c @ s) = map_option ((#) c) (unescape s)"
proof -
  have u: "unescape ([backslash, CHR ''u''] @ hex4 (ord c) @ s) = map_option ((#) c) (unescape s)"
    using unescape_u [OF read_hex4_hex4 [OF assms, of s]] assms by (simp add: hex4_def utf8_encode_def append_one)
  have simple: "unescape (backslash # e # s) = map_option ((#) c) (unescape s)" if "simple_escape e = Some c" "e \<noteq> CHR ''u''" for e
    using unescape_simple [OF that] .
  consider "c = quote_char \<or> c = backslash" | "ord c \<in> {8, 12, 10, 13, 9}"
    | "c \<noteq> quote_char" "c \<noteq> backslash" "ord c \<notin> {8, 12, 10, 13, 9}" "ord c < 32 \<or> c = CHR ''<'' \<or> c = CHR ''>'' \<or> c = CHR ''&''"
    | "c \<noteq> quote_char" "c \<noteq> backslash" "\<not> (ord c < 32 \<or> c = CHR ''<'' \<or> c = CHR ''>'' \<or> c = CHR ''&'')" by blast
  then show ?thesis
  proof cases
    case 1
    then show ?thesis using simple [of c] by (auto simp: escape_char_def simple_escape_def)
  next
    case 2
    then have "ord c = ord (CHR 8) \<or> ord c = ord (CHR 12) \<or> ord c = ord (CHR 10) \<or> ord c = ord (CHR 13) \<or> ord c = ord (CHR 9)"
      by simp
    then have "c = CHR 8 \<or> c = CHR 12 \<or> c = CHR 10 \<or> c = CHR 13 \<or> c = CHR 9" by (simp only: of_char_eq_iff)
    then show ?thesis
      using simple [of "CHR ''b''"] simple [of "CHR ''f''"] simple [of "CHR ''n''"] simple [of "CHR ''r''"] simple [of "CHR ''t''"]
      by (elim disjE) (simp_all add: escape_char_def simple_escape_def)
  next
    case 3
    then have "escape_char c = [backslash, CHR ''u''] @ hex4 (ord c)" by (simp add: escape_char_def)
    then show ?thesis using u by simp
  next
    case 4
    then have "escape_char c = [c]" by (auto simp: escape_char_def)
    then show ?thesis using 4 unescape_ascii [of c s] assms by simp
  qed
qed

lemma rune_length_Nil [simp]: "rune_length [] = 0"
  by (simp add: rune_length_def)

lemma rune_length_ascii [simp]: "ord c < 128 \<Longrightarrow> rune_length (c # t) = 1"
  by (simp add: rune_length_def)

lemma rune_length_two: "194 \<le> ord a \<Longrightarrow> ord a \<le> 223 \<Longrightarrow> rune_length (a # t) =
    (case t of b # _ \<Rightarrow> if continuation (ord b) then 2 else 0 | _ \<Rightarrow> 0)"
  by (simp add: rune_length_def split: list.splits)

lemma rune_length_three: "224 \<le> ord a \<Longrightarrow> ord a \<le> 239 \<Longrightarrow> rune_length (a # t) =
    (case t of b # c # _ \<Rightarrow> if second_ok (ord a) (ord b) \<and> continuation (ord c) then 3 else 0 | _ \<Rightarrow> 0)"
  by (simp add: rune_length_def split: list.splits)

lemma rune_length_four: "240 \<le> ord a \<Longrightarrow> ord a \<le> 244 \<Longrightarrow> rune_length (a # t) =
    (case t of b # c # d # _ \<Rightarrow> if second_ok (ord a) (ord b) \<and> continuation (ord c) \<and> continuation (ord d) then 4 else 0 | _ \<Rightarrow> 0)"
  by (simp add: rune_length_def split: list.splits)

lemma rune_length_none: "128 \<le> ord a \<Longrightarrow> ord a < 194 \<or> 244 < ord a \<Longrightarrow> rune_length (a # t) = 0"
  by (auto simp: rune_length_def)

lemma rune_length_append: "rune_length s \<noteq> 0 \<Longrightarrow> rune_length (take (rune_length s) s @ t) = rune_length s"
proof (cases s)
  case (Cons a u)
  assume nz: "rune_length s \<noteq> 0"
  consider "ord a < 128" | "194 \<le> ord a" "ord a \<le> 223" | "224 \<le> ord a" "ord a \<le> 239" | "240 \<le> ord a" "ord a \<le> 244"
    | "128 \<le> ord a" "ord a < 194 \<or> 244 < ord a" by linarith
  then show ?thesis
  proof cases
    case 1
    then show ?thesis using Cons by simp
  next
    case 2
    show ?thesis using nz unfolding Cons rune_length_two [OF 2] by (simp add: rune_length_two [OF 2] split: list.splits if_splits)
  next
    case 3
    show ?thesis using nz unfolding Cons rune_length_three [OF 3] by (simp add: rune_length_three [OF 3] split: list.splits if_splits)
  next
    case 4
    show ?thesis using nz unfolding Cons rune_length_four [OF 4] by (simp add: rune_length_four [OF 4] split: list.splits if_splits)
  next
    case 5
    then show ?thesis using nz rune_length_none [OF 5] Cons by simp
  qed
qed simp

lemma rune_length_high: "128 \<le> ord a \<Longrightarrow> rune_length (a # u) \<noteq> 0 \<Longrightarrow> 2 \<le> rune_length (a # u)"
proof -
  assume "128 \<le> ord a" and nz: "rune_length (a # u) \<noteq> 0"
  then consider "194 \<le> ord a" "ord a \<le> 223" | "224 \<le> ord a" "ord a \<le> 239" | "240 \<le> ord a" "ord a \<le> 244"
    | "128 \<le> ord a" "ord a < 194 \<or> 244 < ord a" by linarith
  then show ?thesis
    by cases (use nz in \<open>auto simp: rune_length_two rune_length_three rune_length_four rune_length_none split: list.splits if_splits\<close>)
qed

lemma unescape_rune:
  assumes "rune_length s \<noteq> 0" and "128 \<le> ord (hd s)"
  shows "unescape (take (rune_length s) s @ t) = map_option ((@) (take (rune_length s) s)) (unescape t)"
proof -
  define n r where "n = rune_length s" and "r = take n s"
  obtain c u where s: "s = c # u" using assms(1) by (cases s) auto
  have n: "0 < n" "n \<le> length s" using assms(1) rune_length_le [of s] by (simp_all add: n_def)
  have r: "r = c # take (n - 1) u" using n s by (cases n) (simp_all add: r_def)
  have len: "length r = n" using n by (simp add: r_def)
  have rl: "rune_length (r @ t) = n" using rune_length_append [OF assms(1), of t] by (simp add: n_def r_def)
  have c: "c \<noteq> backslash" "c \<noteq> quote_char" "\<not> ord c < 32" using assms(2) s by auto
  have "unescape (r @ t) = map_option ((@) (take n (r @ t))) (unescape (drop n (r @ t)))"
    using c n rl by (subst unescape.simps) (simp add: r)
  then show ?thesis using len by (simp add: n_def [symmetric] r_def [symmetric])
qed

lemma read_hex4_separators: "read_hex4 (''2028'' @ t) = Some 8232" "read_hex4 (''2029'' @ t) = Some 8233"
  by (simp_all add: read_hex4_def hex_value_def)

lemma char_of_code: "ord c = n \<Longrightarrow> char_of n = c"
  by auto

lemma utf8_separators: "utf8_encode 8232 = line_separator" "utf8_encode 8233 = paragraph_separator"
proof -
  have "char_of (226 :: nat) = CHR 0xE2" "char_of (128 :: nat) = CHR 0x80" "char_of (168 :: nat) = CHR 0xA8" "char_of (169 :: nat) = CHR 0xA9"
    by (rule char_of_code; simp)+
  then show "utf8_encode 8232 = line_separator" "utf8_encode 8233 = paragraph_separator"
    by (simp_all add: utf8_encode_def line_separator_def paragraph_separator_def)
qed

lemma unescape_escape_rune:
  assumes "rune_length s \<noteq> 0"
  shows "unescape (escape_rune (take (rune_length s) s) @ t) = map_option ((@) (take (rune_length s) s)) (unescape t)"
proof -
  obtain c u where s: "s = c # u" using assms by (cases s) auto
  show ?thesis
  proof (cases "ord c < 128")
    case True
    then have "take (rune_length s) s = [c]" using s by simp
    then show ?thesis using unescape_escape_char [OF True, of t] by (simp add: escape_rune_def append_one)
  next
    case False
    define r where "r = take (rune_length s) s"
    have "2 \<le> rune_length s" using rune_length_high [of c u] False assms s by simp
    then have "2 \<le> length r" using rune_length_le [of s] by (simp add: r_def)
    then obtain a b v where r: "r = a # b # v" by (cases r; cases "tl r") auto
    then have "escape_rune r = (if r = line_separator then [backslash, CHR ''u''] @ ''2028''
        else if r = paragraph_separator then [backslash, CHR ''u''] @ ''2029'' else r)" by (simp add: escape_rune_def)
    moreover have "unescape (r @ t) = map_option ((@) r) (unescape t)"
      using unescape_rune [OF assms, of t] False s by (simp add: r_def)
    moreover have "unescape ([backslash, CHR ''u''] @ ''2028'' @ t) = map_option ((@) line_separator) (unescape t)"
      using unescape_u [OF read_hex4_separators(1) [of t]] by (simp add: utf8_separators)
    moreover have "unescape ([backslash, CHR ''u''] @ ''2029'' @ t) = map_option ((@) paragraph_separator) (unescape t)"
      using unescape_u [OF read_hex4_separators(2) [of t]] by (simp add: utf8_separators)
    ultimately show ?thesis by (auto simp: r_def [symmetric])
  qed
qed

lemma unescape_Nil [simp]: "unescape [] = Some []"
  by (subst unescape.simps) simp

lemma unescape_escape: "valid_utf8 s \<Longrightarrow> unescape (escape s) = Some s"
proof (induction s rule: valid_utf8.induct)
  case (1 s)
  show ?case
  proof (cases "s = []")
    case False
    then have nz: "rune_length s \<noteq> 0" and v: "valid_utf8 (drop (rune_length s) s)"
      using "1.prems" by (subst (asm) valid_utf8.simps, simp split: if_splits)+
    have "escape s = escape_rune (take (rune_length s) s) @ escape (drop (rune_length s) s)"
      using False nz by (subst escape.simps) simp
    then show ?thesis using unescape_escape_rune [OF nz] "1.IH" [OF False nz v] by simp
  qed (simp add: escape.simps)
qed

section \<open>Tokens\<close>

datatype token = TLBrace | TRBrace | TLBrack | TRBrack | TColon | TComma | TStr string | TNum string | TWord raw

definition json_space :: "char \<Rightarrow> bool" where
  "json_space c \<longleftrightarrow> ord c \<in> {32, 9, 10, 13}"

definition num_char :: "char \<Rightarrow> bool" where
  "num_char c \<longleftrightarrow> is_digit c \<or> c \<in> {CHR ''-'', CHR ''+'', CHR ''.'', CHR ''e'', CHR ''E''}"

definition word_char :: "char \<Rightarrow> bool" where
  "word_char c \<longleftrightarrow> 97 \<le> ord c \<and> ord c \<le> 122"

definition valid_exponent :: "string \<Rightarrow> bool" where
  "valid_exponent s = (case s of
     [] \<Rightarrow> True
   | c # t \<Rightarrow> (c = CHR ''e'' \<or> c = CHR ''E'') \<and>
       (case t of
          [] \<Rightarrow> False
        | d # u \<Rightarrow> if d = CHR ''+'' \<or> d = CHR ''-'' then u \<noteq> [] \<and> list_all is_digit u else list_all is_digit t))"

definition valid_fraction :: "string \<Rightarrow> bool" where
  "valid_fraction s = (case s of
     c # t \<Rightarrow> if c = CHR ''.'' then takeWhile is_digit t \<noteq> [] \<and> valid_exponent (dropWhile is_digit t) else valid_exponent s
   | [] \<Rightarrow> True)"

definition valid_number :: "string \<Rightarrow> bool" where
  "valid_number s =
     (let s = (case s of c # t \<Rightarrow> if c = CHR ''-'' then t else s | [] \<Rightarrow> []); digits = takeWhile is_digit s
      in digits \<noteq> [] \<and> (hd digits = CHR ''0'' \<longrightarrow> length digits = 1) \<and> valid_fraction (dropWhile is_digit s))"

definition keyword :: "string \<Rightarrow> raw option" where
  "keyword w = (if w = ''null'' then Some RNull else if w = ''true'' then Some (RBool True)
     else if w = ''false'' then Some (RBool False) else None)"

definition punctuation :: "char \<Rightarrow> token option" where
  "punctuation c =
     (if c = CHR ''{'' then Some TLBrace else if c = CHR ''}'' then Some TRBrace
      else if c = CHR ''['' then Some TLBrack else if c = CHR '']'' then Some TRBrack
      else if c = CHR '':'' then Some TColon else if c = CHR '','' then Some TComma else None)"

text \<open>The body of a string literal up to the closing quote, and the text after it.\<close>

fun scan_string :: "string \<Rightarrow> (string \<times> string) option" where
  "scan_string [] = None"
| "scan_string (c # s) =
     (if c = quote_char then Some ([], s)
      else if c = backslash then (case s of [] \<Rightarrow> None | d # t \<Rightarrow> map_option (\<lambda>(b, r). (c # d # b, r)) (scan_string t))
      else map_option (\<lambda>(b, r). (c # b, r)) (scan_string s))"

lemma scan_string_shorter: "scan_string s = Some (b, r) \<Longrightarrow> length r < length s"
  by (induction s arbitrary: b r rule: scan_string.induct) (fastforce split: if_splits list.splits)+

function json_tokens :: "string \<Rightarrow> token list option" where
  "json_tokens s =
     (case s of
        [] \<Rightarrow> Some []
      | c # t \<Rightarrow>
          if json_space c then json_tokens t
          else if c = quote_char then
            (case scan_string t of
               None \<Rightarrow> None
             | Some (body, rest) \<Rightarrow>
                 (case unescape body of None \<Rightarrow> None | Some str \<Rightarrow> map_option ((#) (TStr str)) (json_tokens rest)))
          else if num_char c \<and> \<not> word_char c then
            (if valid_number (takeWhile num_char s) then map_option ((#) (TNum (takeWhile num_char s))) (json_tokens (dropWhile num_char t)) else None)
          else if word_char c then
            (case keyword (takeWhile word_char s) of
               None \<Rightarrow> None | Some v \<Rightarrow> map_option ((#) (TWord v)) (json_tokens (dropWhile word_char t)))
          else (case punctuation c of None \<Rightarrow> None | Some p \<Rightarrow> map_option ((#) p) (json_tokens t)))"
  by pat_completeness auto
termination
  by (relation "measure length") (auto dest: scan_string_shorter intro: le_imp_less_Suc length_dropWhile_le)

declare json_tokens.simps [simp del]

section \<open>The machine\<close>

text \<open>An open array with its elements, an open object with its entries, an entry whose value is being read; innermost first.\<close>

datatype open_value = FArr "raw list" | FObj "(string \<times> raw) list" | FEntry "(string \<times> raw) list" string

text \<open>What may come next; \<open>PDone\<close> holds the value just read.\<close>

datatype expect = PVal | PArr | PObj | PKey | PColon string | PDone raw

definition max_depth :: nat where "max_depth = 10000"

definition start_value :: "open_value list \<Rightarrow> token \<Rightarrow> (open_value list \<times> expect) option" where
  "start_value st t = (case t of
     TStr s \<Rightarrow> Some (st, PDone (RStr s))
   | TNum n \<Rightarrow> Some (st, PDone (RNum n))
   | TWord v \<Rightarrow> Some (st, PDone v)
   | TLBrack \<Rightarrow> if max_depth < Suc (length st) then None else Some (FArr [] # st, PArr)
   | TLBrace \<Rightarrow> if max_depth < Suc (length st) then None else Some (FObj [] # st, PObj)
   | _ \<Rightarrow> None)"

definition end_value :: "open_value list \<Rightarrow> raw \<Rightarrow> token \<Rightarrow> (open_value list \<times> expect) option" where
  "end_value st v t = (case st of
     FArr vs # s \<Rightarrow>
       if t = TComma then Some (FArr (vs @ [v]) # s, PVal)
       else if t = TRBrack then Some (s, PDone (RArr (vs @ [v]))) else None
   | FEntry es k # s \<Rightarrow>
       if t = TComma then Some (FObj (es @ [(k, v)]) # s, PKey)
       else if t = TRBrace then Some (s, PDone (RObj (es @ [(k, v)]))) else None
   | _ \<Rightarrow> None)"

definition read_key :: "open_value list \<Rightarrow> token \<Rightarrow> (open_value list \<times> expect) option" where
  "read_key st t = (case t of TStr k \<Rightarrow> Some (st, PColon k) | _ \<Rightarrow> None)"

definition json_step :: "open_value list \<Rightarrow> expect \<Rightarrow> token \<Rightarrow> (open_value list \<times> expect) option" where
  "json_step st p t = (case p of
     PVal \<Rightarrow> start_value st t
   | PArr \<Rightarrow> if t = TRBrack then Some (tl st, PDone (RArr [])) else start_value st t
   | PObj \<Rightarrow> if t = TRBrace then Some (tl st, PDone (RObj [])) else read_key st t
   | PKey \<Rightarrow> read_key st t
   | PColon k \<Rightarrow> (case st of FObj es # s \<Rightarrow> if t = TColon then Some (FEntry es k # s, PVal) else None | _ \<Rightarrow> None)
   | PDone v \<Rightarrow> end_value st v t)"

fun json_run :: "open_value list \<Rightarrow> expect \<Rightarrow> token list \<Rightarrow> raw option" where
  "json_run st p [] = (case p of PDone v \<Rightarrow> if st = [] then Some v else None | _ \<Rightarrow> None)"
| "json_run st p (t # ts) = (case json_step st p t of None \<Rightarrow> None | Some (st', p') \<Rightarrow> json_run st' p' ts)"

definition read_json :: "string \<Rightarrow> raw option" where
  "read_json s = (case json_tokens s of None \<Rightarrow> None | Some ts \<Rightarrow> json_run [] PVal ts)"

section \<open>Printing\<close>

fun print_json :: "raw \<Rightarrow> string" and print_elements :: "raw list \<Rightarrow> string" and print_entries :: "(string \<times> raw) list \<Rightarrow> string" where
  "print_json RNull = ''null''"
| "print_json (RBool b) = (if b then ''true'' else ''false'')"
| "print_json (RNum n) = n"
| "print_json (RStr s) = quoted s"
| "print_json (RArr []) = ''[]''"
| "print_json (RArr (v # vs)) = CHR ''['' # print_json v @ print_elements vs"
| "print_json (RObj []) = ''{}''"
| "print_json (RObj ((k, v) # es)) = CHR ''{'' # quoted k @ CHR '':'' # print_json v @ print_entries es"
| "print_elements [] = '']''"
| "print_elements (v # vs) = CHR '','' # print_json v @ print_elements vs"
| "print_entries [] = ''}''"
| "print_entries ((k, v) # es) = CHR '','' # quoted k @ CHR '':'' # print_json v @ print_entries es"

section \<open>Reading back a printed value\<close>

fun tokens :: "raw \<Rightarrow> token list" and element_tokens :: "raw list \<Rightarrow> token list" and entry_tokens :: "(string \<times> raw) list \<Rightarrow> token list" where
  "tokens RNull = [TWord RNull]"
| "tokens (RBool b) = [TWord (RBool b)]"
| "tokens (RNum n) = [TNum n]"
| "tokens (RStr s) = [TStr s]"
| "tokens (RArr []) = [TLBrack, TRBrack]"
| "tokens (RArr (v # vs)) = TLBrack # tokens v @ element_tokens vs"
| "tokens (RObj []) = [TLBrace, TRBrace]"
| "tokens (RObj ((k, v) # es)) = TLBrace # TStr k # TColon # tokens v @ entry_tokens es"
| "element_tokens [] = [TRBrack]"
| "element_tokens (v # vs) = TComma # tokens v @ element_tokens vs"
| "entry_tokens [] = [TRBrace]"
| "entry_tokens ((k, v) # es) = TComma # TStr k # TColon # tokens v @ entry_tokens es"

text \<open>A value that has a faithful text: valid strings and number literals, nested no deeper than the limit.\<close>

fun depth :: "raw \<Rightarrow> nat" and depth_elements :: "raw list \<Rightarrow> nat" and depth_entries :: "(string \<times> raw) list \<Rightarrow> nat" where
  "depth (RArr vs) = Suc (depth_elements vs)"
| "depth (RObj es) = Suc (depth_entries es)"
| "depth _ = 0"
| "depth_elements [] = 0"
| "depth_elements (v # vs) = max (depth v) (depth_elements vs)"
| "depth_entries [] = 0"
| "depth_entries ((k, v) # es) = max (depth v) (depth_entries es)"

fun literal :: "raw \<Rightarrow> bool" and literal_elements :: "raw list \<Rightarrow> bool" and literal_entries :: "(string \<times> raw) list \<Rightarrow> bool" where
  "literal (RNum n) = (valid_number n \<and> list_all num_char n)"
| "literal (RStr s) = valid_utf8 s"
| "literal (RArr vs) = literal_elements vs"
| "literal (RObj es) = literal_entries es"
| "literal _ = True"
| "literal_elements [] = True"
| "literal_elements (v # vs) = (literal v \<and> literal_elements vs)"
| "literal_entries [] = True"
| "literal_entries ((k, v) # es) = (valid_utf8 k \<and> literal v \<and> literal_entries es)"

lemma run_tokens:
  "length st + depth v \<le> max_depth \<Longrightarrow> p = PVal \<or> p = PArr \<Longrightarrow> json_run st p (tokens v @ ts) = json_run st (PDone v) ts"
  "Suc (length st) + depth_elements ws \<le> max_depth \<Longrightarrow>
     json_run (FArr vs # st) (PDone v) (element_tokens ws @ ts) = json_run st (PDone (RArr (vs @ v # ws))) ts"
  "Suc (length st) + depth_entries fs \<le> max_depth \<Longrightarrow>
     json_run (FEntry es k # st) (PDone v) (entry_tokens fs @ ts) = json_run st (PDone (RObj (es @ (k, v) # fs))) ts"
proof (induction v and ws and fs arbitrary: st p ts and st vs v ts and st es k v ts rule: tokens_element_tokens_entry_tokens.induct)
  case (6 v vs)
  then show ?case using "6.IH"(2) [of st "[]" v ts] by (auto simp: json_step_def start_value_def)
next
  case (8 k v es)
  then show ?case using "8.IH"(2) [of st "[]" k v ts] by (auto simp: json_step_def start_value_def read_key_def)
next
  case (10 w ws)
  then show ?case using "10.IH"(2) [of st "vs @ [v]" w ts] by (simp add: json_step_def end_value_def)
next
  case (12 k' w fs)
  then show ?case using "12.IH"(2) [of st "es @ [(k, v)]" k' w ts] by (simp add: json_step_def end_value_def read_key_def)
qed (auto simp: json_step_def start_value_def end_value_def)

lemma scan_plain: "list_all (\<lambda>c. c \<noteq> quote_char \<and> c \<noteq> backslash) r \<Longrightarrow> scan_string (r @ s) = map_option (\<lambda>(b, t). (r @ b, t)) (scan_string s)"
  by (induction r) (auto simp: option.map_comp comp_def case_prod_unfold option.map_ident)

lemma hex_digit_plain: "n < 16 \<Longrightarrow> hex_digit n \<noteq> quote_char \<and> hex_digit n \<noteq> backslash"
proof -
  have "hex_value quote_char = None" "hex_value backslash = None" by (simp_all add: hex_value_def)
  moreover assume "n < 16"
  ultimately show ?thesis using hex_value_digit [of n] by auto
qed

lemma scan_escape: "list_all (\<lambda>c. c \<noteq> quote_char \<and> c \<noteq> backslash) r \<Longrightarrow>
    scan_string (backslash # d # r @ s) = map_option (\<lambda>(b, t). (backslash # d # r @ b, t)) (scan_string s)"
  by (simp add: scan_plain option.map_comp comp_def case_prod_unfold)

lemma scan_escape_char: "scan_string (escape_char c @ s) = map_option (\<lambda>(b, t). (escape_char c @ b, t)) (scan_string s)"
proof -
  have hex: "list_all (\<lambda>c. c \<noteq> quote_char \<and> c \<noteq> backslash) (hex4 n)" for n by (simp add: hex4_def hex_digit_plain)
  have simple: "scan_string ([backslash, d] @ s) = map_option (\<lambda>(b, t). ([backslash, d] @ b, t)) (scan_string s)" for d
    using scan_escape [of "[]" d s] by simp
  have long: "scan_string (([backslash, CHR ''u''] @ hex4 n) @ s) = map_option (\<lambda>(b, t). (([backslash, CHR ''u''] @ hex4 n) @ b, t)) (scan_string s)" for n
    using scan_escape [OF hex, of "CHR ''u''" n s] by simp
  have "(\<exists>d. escape_char c = [backslash, d]) \<or> escape_char c = [backslash, CHR ''u''] @ hex4 (ord c) \<or>
      (escape_char c = [c] \<and> c \<noteq> quote_char \<and> c \<noteq> backslash)" unfolding escape_char_def by (simp split: if_split)
  then show ?thesis using simple long scan_plain [of "[c]" s] by (elim disjE exE conjE) simp_all
qed

lemma rune_bytes:
  assumes "rune_length s \<noteq> 0" and "128 \<le> ord (hd s)"
  shows "list_all (\<lambda>c. 128 \<le> ord c) (take (rune_length s) s)"
proof -
  obtain a u where s: "s = a # u" using assms(1) by (cases s) auto
  have ok: "second_ok x y \<Longrightarrow> 128 \<le> y" for x y by (auto simp: second_ok_def split: if_splits)
  consider "194 \<le> ord a" "ord a \<le> 223" | "224 \<le> ord a" "ord a \<le> 239" | "240 \<le> ord a" "ord a \<le> 244"
    | "128 \<le> ord a" "ord a < 194 \<or> 244 < ord a" using assms(2) s by fastforce
  then show ?thesis
  proof cases
    case 1
    show ?thesis using assms(1) 1 unfolding s rune_length_two [OF 1] by (auto simp: continuation_def split: list.splits if_splits)
  next
    case 2
    show ?thesis using assms(1) 2 unfolding s rune_length_three [OF 2] by (auto simp: continuation_def ok split: list.splits if_splits)
  next
    case 3
    show ?thesis using assms(1) 3 unfolding s rune_length_four [OF 3] by (auto simp: continuation_def ok split: list.splits if_splits)
  next
    case 4
    then show ?thesis using assms(1) rune_length_none [OF 4] s by simp
  qed
qed

lemma scan_escape_rune:
  assumes "rune_length s \<noteq> 0"
  shows "scan_string (escape_rune (take (rune_length s) s) @ t) =
    map_option (\<lambda>(b, u). (escape_rune (take (rune_length s) s) @ b, u)) (scan_string t)"
proof -
  obtain c u where s: "s = c # u" using assms by (cases s) auto
  show ?thesis
  proof (cases "ord c < 128")
    case True
    then have "take (rune_length s) s = [c]" using s by simp
    then show ?thesis using scan_escape_char [of c t] by (simp add: escape_rune_def)
  next
    case False
    define r where "r = take (rune_length s) s"
    have "list_all (\<lambda>c. 128 \<le> ord c) r" using rune_bytes [OF assms] False s by (simp add: r_def)
    then have plain: "list_all (\<lambda>c. c \<noteq> quote_char \<and> c \<noteq> backslash) r" by (induction r) auto
    have "2 \<le> rune_length s" using rune_length_high [of c u] False assms s by simp
    then have "2 \<le> length r" using rune_length_le [of s] by (simp add: r_def)
    then obtain a b v where r: "r = a # b # v" by (cases r; cases "tl r") auto
    then have "escape_rune r \<in> {[backslash, CHR ''u''] @ ''2028'', [backslash, CHR ''u''] @ ''2029'', r}" by (simp add: escape_rune_def)
    then show ?thesis
      using scan_plain [OF plain, of t] scan_escape [of "''2028''" "CHR ''u''" t] scan_escape [of "''2029''" "CHR ''u''" t]
      by (auto simp: r_def [symmetric])
  qed
qed

lemma scan_string_escape: "valid_utf8 s \<Longrightarrow> scan_string (escape s @ quote_char # t) = Some (escape s, t)"
proof (induction s rule: valid_utf8.induct)
  case (1 s)
  show ?case
  proof (cases "s = []")
    case False
    then have nz: "rune_length s \<noteq> 0" and v: "valid_utf8 (drop (rune_length s) s)"
      using "1.prems" by (subst (asm) valid_utf8.simps, simp split: if_splits)+
    have "escape s = escape_rune (take (rune_length s) s) @ escape (drop (rune_length s) s)"
      using False nz by (subst escape.simps) simp
    then show ?thesis using scan_escape_rune [OF nz] "1.IH" [OF False nz v] by simp
  qed (simp add: escape.simps)
qed

lemma lex_quoted: "valid_utf8 s \<Longrightarrow> json_tokens (quoted s @ t) = map_option ((#) (TStr s)) (json_tokens t)"
  by (subst json_tokens.simps) (simp add: quoted_def json_space_def scan_string_escape unescape_escape)


definition token_end :: "string \<Rightarrow> bool" where
  "token_end t \<longleftrightarrow> (case t of [] \<Rightarrow> True | c # _ \<Rightarrow> \<not> num_char c \<and> \<not> word_char c)"

lemma lex_punctuation: "punctuation c = Some p \<Longrightarrow> json_tokens (c # t) = map_option ((#) p) (json_tokens t)"
  by (subst json_tokens.simps) (auto simp: punctuation_def json_space_def num_char_def word_char_def is_digit_def split: if_splits)

lemma punctuation_chars [simp]:
  "punctuation (CHR ''['') = Some TLBrack" "punctuation (CHR '']'') = Some TRBrack" "punctuation (CHR ''{'') = Some TLBrace"
  "punctuation (CHR ''}'') = Some TRBrace" "punctuation (CHR '':'') = Some TColon" "punctuation (CHR '','') = Some TComma"
  by (simp_all add: punctuation_def)

lemma closed_punctuation: "punctuation c = Some p \<Longrightarrow> token_end (c # t)"
  by (auto simp: token_end_def punctuation_def num_char_def word_char_def is_digit_def split: if_splits)

lemma takeWhile_closed: "list_all P s \<Longrightarrow> (case t of [] \<Rightarrow> True | c # _ \<Rightarrow> \<not> P c) \<Longrightarrow> takeWhile P (s @ t) = s \<and> dropWhile P (s @ t) = t"
  by (induction s) (auto split: list.splits)

lemma lex_number:
  assumes "valid_number n" and "list_all num_char n" and "token_end t"
  shows "json_tokens (n @ t) = map_option ((#) (TNum n)) (json_tokens t)"
proof -
  have n: "n \<noteq> []" using assms(1) by (auto simp: valid_number_def)
  obtain c u where c: "n = c # u" using n by (cases n) auto
  have "\<not> word_char c"
  proof
    assume "word_char c"
    then have "c \<noteq> CHR ''-''" "\<not> is_digit c" by (auto simp: word_char_def is_digit_def)
    then show False using assms(1) by (simp add: valid_number_def c)
  qed
  moreover have "num_char c" using assms(2) c by simp
  then have "\<not> json_space c" "c \<noteq> quote_char" by (auto simp: num_char_def json_space_def is_digit_def)
  moreover have "takeWhile num_char (n @ t) = n" "dropWhile num_char (u @ t) = t"
    using takeWhile_closed [of num_char n t] takeWhile_closed [of num_char u t] assms(2,3) c by (auto simp: token_end_def split: list.splits)
  ultimately show ?thesis using \<open>num_char c\<close> assms(1) c by (subst json_tokens.simps) simp
qed

lemma lex_word:
  assumes "keyword w = Some v" and "token_end t"
  shows "json_tokens (w @ t) = map_option ((#) (TWord v)) (json_tokens t)"
proof -
  have w: "list_all word_char w" "w \<noteq> []" using assms(1) by (auto simp: keyword_def word_char_def split: if_splits)
  obtain c u where c: "w = c # u" using w by (cases w) auto
  have wc: "word_char c" using w c by simp
  then have "\<not> json_space c" "c \<noteq> quote_char" by (auto simp: word_char_def json_space_def)
  moreover have "takeWhile word_char (w @ t) = w" "dropWhile word_char (u @ t) = t"
    using takeWhile_closed [of word_char w t] takeWhile_closed [of word_char u t] w assms(2) c by (auto simp: token_end_def split: list.splits)
  ultimately show ?thesis using wc assms(1) c by (subst json_tokens.simps) simp
qed

lemma lex_print:
  "literal v \<Longrightarrow> token_end t \<Longrightarrow> json_tokens (print_json v @ t) = map_option ((@) (tokens v)) (json_tokens t)"
  "literal_elements vs \<Longrightarrow> json_tokens (print_elements vs @ t) = map_option ((@) (element_tokens vs)) (json_tokens t) \<and> token_end (print_elements vs @ t)"
  "literal_entries es \<Longrightarrow> json_tokens (print_entries es @ t) = map_option ((@) (entry_tokens es)) (json_tokens t) \<and> token_end (print_entries es @ t)"
proof (induction v and vs and es arbitrary: t and t and t rule: tokens_element_tokens_entry_tokens.induct)
  case 1
  then show ?case using lex_word [of "''null''" RNull t] by (simp add: keyword_def append_one)
next
  case (2 b)
  then show ?case using lex_word [of "if b then ''true'' else ''false''" "RBool b" t] by (simp add: keyword_def append_one)
qed (simp_all add: lex_punctuation closed_punctuation lex_quoted lex_number append_fun option.map_comp comp_def)

lemma read_print: "literal v \<Longrightarrow> depth v \<le> max_depth \<Longrightarrow> read_json (print_json v) = Some v"
  using lex_print(1) [of v "[]"] run_tokens(1) [of "[]" v PVal "[]"] by (simp add: read_json_def token_end_def json_tokens.simps [of "[]"])

section \<open>Structs\<close>

text \<open>
  \<open>Marshal\<close> and \<open>Unmarshal\<close> of structs and of slices of them. A key stands for the field whose name it equals up to
  letter case; \<open>null\<close> leaves a field alone, a later value replaces an earlier one, and a value of another type is an error.
\<close>

definition json_marshal :: "raw \<Rightarrow> byte list" where
  "json_marshal v = bytes_of (print_json v)"

definition json_type_error :: error where
  "json_type_error = Err ''json: cannot unmarshal value into Go struct field''"

definition json_syntax_error :: error where
  "json_syntax_error = Err ''invalid JSON text''"

definition matching :: "string \<Rightarrow> (string \<times> raw) list \<Rightarrow> raw list" where
  "matching field es = map snd (filter (\<lambda>(k, v). to_lower k = to_lower field \<and> v \<noteq> RNull) es)"

definition json_field :: "(raw \<Rightarrow> 'a option) \<Rightarrow> 'a \<Rightarrow> string \<Rightarrow> (string \<times> raw) list \<Rightarrow> 'a result" where
  "json_field conv zero field es =
     (case those (map conv (matching field es)) of None \<Rightarrow> Inl json_type_error | Some xs \<Rightarrow> Inr (List.last (zero # xs)))"

fun as_str :: "raw \<Rightarrow> string option" where
  "as_str (RStr s) = Some s"
| "as_str _ = None"

fun as_bool :: "raw \<Rightarrow> bool option" where
  "as_bool (RBool b) = Some b"
| "as_bool _ = None"

fun as_int :: "raw \<Rightarrow> int option" where
  "as_int (RNum n) = (case parse_int n of (i, ok) \<Rightarrow> if ok then Some i else None)"
| "as_int _ = None"

fun as_strs :: "raw \<Rightarrow> string list option" where
  "as_strs (RArr vs) = those (map (\<lambda>v. if v = RNull then Some [] else as_str v) vs)"
| "as_strs _ = None"

fun as_entries :: "raw \<Rightarrow> (string \<times> raw) list option" where
  "as_entries (RObj es) = Some es"
| "as_entries _ = None"

text \<open>A field that is a struct: the values given for it are merged.\<close>

definition json_struct :: "string \<Rightarrow> (string \<times> raw) list \<Rightarrow> (string \<times> raw) list result" where
  "json_struct field es = (case those (map as_entries (matching field es)) of None \<Rightarrow> Inl json_type_error | Some ess \<Rightarrow> Inr (concat ess))"

definition then_result :: "'a result \<Rightarrow> ('a \<Rightarrow> 'b result) \<Rightarrow> 'b result" where
  "then_result r f = (case r of Inl e \<Rightarrow> Inl e | Inr x \<Rightarrow> f x)"

lemma then_result_simps [simp]: "then_result (Inl e) f = Inl e" "then_result (Inr x) f = f x"
  by (simp_all add: then_result_def)

definition json_unmarshal :: "((string \<times> raw) list \<Rightarrow> 'a result) \<Rightarrow> byte list \<Rightarrow> 'a result" where
  "json_unmarshal dec bs = (case read_json (string_of bs) of
     None \<Rightarrow> Inl json_syntax_error
   | Some v \<Rightarrow> (case v of RNull \<Rightarrow> dec [] | RObj es \<Rightarrow> dec es | _ \<Rightarrow> Inl json_type_error))"

fun json_structs :: "((string \<times> raw) list \<Rightarrow> 'a result) \<Rightarrow> raw list \<Rightarrow> 'a list result" where
  "json_structs dec [] = Inr []"
| "json_structs dec (v # vs) =
     then_result (case v of RNull \<Rightarrow> dec [] | RObj es \<Rightarrow> dec es | _ \<Rightarrow> Inl json_type_error) (\<lambda>x.
     then_result (json_structs dec vs) (\<lambda>xs. Inr (x # xs)))"

definition json_unmarshal_list :: "((string \<times> raw) list \<Rightarrow> 'a result) \<Rightarrow> byte list \<Rightarrow> 'a list result" where
  "json_unmarshal_list dec bs = (case read_json (string_of bs) of
     None \<Rightarrow> Inl json_syntax_error
   | Some v \<Rightarrow> (case v of RNull \<Rightarrow> Inr [] | RArr vs \<Rightarrow> json_structs dec vs | _ \<Rightarrow> Inl json_type_error))"

lemma json_unmarshal_marshal:
  "literal (RObj es) \<Longrightarrow> depth (RObj es) \<le> max_depth \<Longrightarrow> json_unmarshal dec (json_marshal (RObj es)) = dec es"
  by (simp add: json_unmarshal_def json_marshal_def read_print)

lemma json_field_one:
  "matching field es = [v] \<Longrightarrow> conv v = Some x \<Longrightarrow> json_field conv zero field es = Inr x"
  by (simp add: json_field_def)

lemma json_field_none: "matching field es = [] \<Longrightarrow> json_field conv zero field es = Inr zero"
  by (simp add: json_field_def)

lemma fmt_nat_hd: "0 < n \<Longrightarrow> hd (fmt_nat n) \<noteq> CHR ''0''"
proof (induction n rule: fmt_nat.induct)
  case (1 n)
  have zero: "digit_char d = CHR ''0'' \<Longrightarrow> d < 10 \<Longrightarrow> d = 0" for d
    using of_char_digit_char [of d] by auto
  show ?case
  proof (cases "n < 10")
    case True
    then show ?thesis using zero [of n] 1 by (auto simp: fmt_nat.simps [of n])
  next
    case False
    then show ?thesis using 1 by (simp add: fmt_nat.simps [of n])
  qed
qed

lemma valid_number_digits:
  assumes "list_all is_digit s" and "s \<noteq> []" and "hd s \<noteq> CHR ''0'' \<or> length s = 1"
  shows "valid_number s \<and> valid_number (CHR ''-'' # s)"
proof -
  have t: "takeWhile is_digit s = s" "dropWhile is_digit s = []" using takeWhile_closed [OF assms(1), of "[]"] by simp_all
  have "(case s of c # t \<Rightarrow> if c = CHR ''-'' then t else s | [] \<Rightarrow> []) = s"
    using assms(1,2) not_digit_sign by (cases s) auto
  then show ?thesis using assms(2,3) by (simp add: valid_number_def valid_fraction_def t Let_def)
qed

lemma valid_number_fmt_int: "valid_number (fmt_int i) \<and> list_all num_char (fmt_int i)"
proof -
  have "hd (fmt_nat n) \<noteq> CHR ''0'' \<or> length (fmt_nat n) = 1" for n
    using fmt_nat_hd [of n] by (cases "n = 0") (auto simp: fmt_nat.simps [of 0])
  then have "valid_number (fmt_nat n) \<and> valid_number (CHR ''-'' # fmt_nat n)" for n
    using valid_number_digits [OF fmt_nat_digits fmt_nat_nonempty] by blast
  moreover have "list_all num_char (fmt_nat n)" for n
    using fmt_nat_digits [of n] by (auto simp: list_all_iff num_char_def)
  ultimately show ?thesis by (simp add: fmt_int_def num_char_def)
qed

lemma literal_int [simp]: "literal (RNum (fmt_int i))"
  by (simp add: valid_number_fmt_int)

lemma as_int_fmt [simp]: "in_int64 i \<Longrightarrow> as_int (RNum (fmt_int i)) = Some i"
  by (simp add: parse_fmt_int)

end
