(* ===== verification/Replication_Transport.thy ===== *)
theory Replication_Transport
  imports Replication_Service Json
begin

text \<open>
  The stream between a master and its slaves (\<^verbatim>\<open>internal/plugins/cluster_replication/transport.go\<close>) and the
  plugin's queue of anti-fraud observations (\<^verbatim>\<open>plugin.go\<close>). gRPC and TLS carry frames in order and unchanged
  until the connection ends; a session is the list of messages that arrived. Sending a frame appends it to
  \<open>n_sent\<close> and may fail. \<open>Marshal\<close> of the payloads cannot fail, so its errors have no branch.
\<close>

section \<open>Configuration\<close>

record Config =
  cf_Mode :: string
  cf_NodeID :: string
  cf_ListenAddress :: string
  cf_MasterAddress :: string
  cf_AllowedNodes :: "string list"
  cf_CAFile :: string
  cf_CertFile :: string
  cf_KeyFile :: string
  cf_ServerName :: string
  cf_ReconnectInterval :: string
  cf_DriftInterval :: string
  cf_MasterScanInterval :: string
  cf_StatsInterval :: string
  cf_RealityKeysPath :: string
  cf_RoutingDir :: string
  cf_XrayConfigPath :: string

definition Config_Validate :: "Config \<Rightarrow> unit result" where
  "Config_Validate c =
     (let mode = to_lower (trim_space (cf_Mode c))
      in if mode \<noteq> ''master'' \<and> mode \<noteq> ''slave'' then Inl (Err ''replication mode must be master or slave'')
         else if trim_space (cf_NodeID c) = [] then Inl (Err ''replication node_id is required'')
         else if trim_space (cf_CAFile c) = [] \<or> trim_space (cf_CertFile c) = [] \<or> trim_space (cf_KeyFile c) = []
           then Inl (Err ''replication requires ca_file, cert_file and key_file for mutual TLS'')
         else if mode = ''master'' then
           (if trim_space (cf_ListenAddress c) = [] then Inl (Err ''master replication listen_address is required'')
            else if cf_AllowedNodes c = [] then Inl (Err ''master replication allowed_nodes must not be empty'')
            else Inr ())
         else if trim_space (cf_MasterAddress c) = [] then Inl (Err ''slave replication master_address is required'')
         else Inr ())"

definition configDuration :: "string \<Rightarrow> duration \<Rightarrow> duration" where
  "configDuration s fallback = (case ParseDuration (trim_space s) of
     Some value \<Rightarrow> if value > 0 then value else fallback
   | None \<Rightarrow> fallback)"

definition reconnectEvery :: "Config \<Rightarrow> duration" where
  "reconnectEvery c = configDuration (cf_ReconnectInterval c) (5 * Second)"

definition driftEvery :: "Config \<Rightarrow> duration" where
  "driftEvery c = configDuration (cf_DriftInterval c) Minute"

definition scanEvery :: "Config \<Rightarrow> duration" where
  "scanEvery c = configDuration (cf_MasterScanInterval c) (30 * Second)"

definition statsEvery :: "Config \<Rightarrow> duration" where
  "statsEvery c = configDuration (cf_StatsInterval c) (30 * Second)"

section \<open>Payloads\<close>

record helloPayload =
  hp_NodeID :: string
  hp_LastRevision :: int
  hp_Initialized :: bool

record wireEvent =
  we_Kind :: string
  we_Checksum :: string
  we_Payload :: string

definition hello_json :: "helloPayload \<Rightarrow> raw" where
  "hello_json h = RObj [(''node_id'', RStr (hp_NodeID h)), (''last_revision'', RNum (fmt_int (hp_LastRevision h))),
     (''initialized'', RBool (hp_Initialized h))]"

definition hello_of :: "(string \<times> raw) list \<Rightarrow> helloPayload result" where
  "hello_of es =
     then_result (json_field as_str [] ''node_id'' es) (\<lambda>n.
     then_result (json_field as_int 0 ''last_revision'' es) (\<lambda>r.
     then_result (json_field as_bool False ''initialized'' es) (\<lambda>i.
     Inr \<lparr>hp_NodeID = n, hp_LastRevision = r, hp_Initialized = i\<rparr>)))"

definition wire_json :: "wireEvent \<Rightarrow> raw" where
  "wire_json e = RObj [(''kind'', RStr (we_Kind e)), (''checksum'', RStr (we_Checksum e)), (''payload'', RStr (we_Payload e))]"

definition wire_of :: "(string \<times> raw) list \<Rightarrow> wireEvent result" where
  "wire_of es =
     then_result (json_field as_str [] ''kind'' es) (\<lambda>k.
     then_result (json_field as_str [] ''checksum'' es) (\<lambda>c.
     then_result (json_field as_str [] ''payload'' es) (\<lambda>p.
     Inr \<lparr>we_Kind = k, we_Checksum = c, we_Payload = p\<rparr>)))"

text \<open>\<open>snapshotPayload\<close> and \<open>fraudAckPayload\<close> have one field each.\<close>

definition snapshot_json :: "string \<Rightarrow> raw" where
  "snapshot_json identifier = RObj [(''id'', RStr identifier)]"

definition snapshot_of :: "(string \<times> raw) list \<Rightarrow> string result" where
  "snapshot_of es = json_field as_str [] ''id'' es"

text \<open>A \<open>nil\<close> slice is written as \<open>null\<close>; the list of the model is \<open>nil\<close> when it is empty.\<close>

definition strings_json :: "string list \<Rightarrow> raw" where
  "strings_json ss = (if ss = [] then RNull else RArr (map RStr ss))"

definition fraud_ack_json :: "string list \<Rightarrow> raw" where
  "fraud_ack_json ids = RObj [(''event_ids'', strings_json ids)]"

definition fraud_ack_of :: "(string \<times> raw) list \<Rightarrow> string list result" where
  "fraud_ack_of es = json_field as_strs [] ''event_ids'' es"

definition artifact_json :: "artifactPayload \<Rightarrow> raw" where
  "artifact_json a = RObj [(''kind'', RStr (ap_Kind a)), (''data'', RStr (ap_Data a))]"

definition stats_point_of :: "(string \<times> raw) list \<Rightarrow> statsPoint result" where
  "stats_point_of es =
     then_result (json_field as_str [] ''email'' es) (\<lambda>e.
     then_result (json_field as_int 0 ''total'' es) (\<lambda>t.
     Inr \<lparr>sp_Email = e, sp_Total = t\<rparr>))"

text \<open>\<open>userPayload\<close>; the fields of \<open>VPNUserConfig\<close> have no tags and keep their Go names.\<close>

definition user_json :: "VPNUserConfig \<Rightarrow> raw" where
  "user_json u = RObj [(''user'', RObj [(''Email'', RStr (vu_Email u)), (''UUID'', RStr (vu_UUID u)), (''Auth'', RStr (vu_Auth u)),
     (''Subfile'', RStr (vu_Subfile u)), (''Expire'', RStr (vu_Expire u)), (''MaxDevices'', RNum (fmt_int (vu_MaxDevices u))),
     (''Flow'', RStr (vu_Flow u)), (''Cipher'', RStr (vu_Cipher u)), (''PlanEngineIDs'', strings_json (vu_PlanEngineIDs u)),
     (''SubscriptionEngineIDs'', strings_json (vu_SubscriptionEngineIDs u))])]"

definition vpn_user_of :: "(string \<times> raw) list \<Rightarrow> VPNUserConfig result" where
  "vpn_user_of es =
     then_result (json_field as_str [] ''Email'' es) (\<lambda>email.
     then_result (json_field as_str [] ''UUID'' es) (\<lambda>uuid.
     then_result (json_field as_str [] ''Auth'' es) (\<lambda>auth.
     then_result (json_field as_str [] ''Subfile'' es) (\<lambda>subfile.
     then_result (json_field as_str [] ''Expire'' es) (\<lambda>expire.
     then_result (json_field as_int 0 ''MaxDevices'' es) (\<lambda>devices.
     then_result (json_field as_str [] ''Flow'' es) (\<lambda>flow.
     then_result (json_field as_str [] ''Cipher'' es) (\<lambda>cipher.
     then_result (json_field as_strs [] ''PlanEngineIDs'' es) (\<lambda>plan.
     then_result (json_field as_strs [] ''SubscriptionEngineIDs'' es) (\<lambda>override.
     Inr \<lparr>vu_Email = email, vu_UUID = uuid, vu_Auth = auth, vu_Subfile = subfile, vu_Expire = expire, vu_MaxDevices = devices,
       vu_Flow = flow, vu_Cipher = cipher, vu_PlanEngineIDs = plan, vu_SubscriptionEngineIDs = override\<rparr>))))))))))"

definition user_of :: "(string \<times> raw) list \<Rightarrow> VPNUserConfig result" where
  "user_of es = then_result (json_struct ''user'' es) vpn_user_of"

text \<open>\<open>time.Time\<close> reads RFC 3339 strictly: two digits each, the day within the month, fractions after a point.\<close>

definition digits_at :: "nat \<Rightarrow> nat \<Rightarrow> string \<Rightarrow> int option" where
  "digits_at i n s = (let t = take n (drop i s) in if length t = n \<and> list_all is_digit t then Some (int (digits_val 0 t)) else None)"

definition parse_zone :: "string \<Rightarrow> duration option" where
  "parse_zone s =
     (if s = ''Z'' then Some 0
      else if length s = 6 \<and> (s ! 0 = CHR ''+'' \<or> s ! 0 = CHR ''-'') \<and> s ! 3 = CHR '':'' then
        (case (digits_at 1 2 s, digits_at 4 2 s) of
           (Some h, Some m) \<Rightarrow> if h < 24 \<and> m < 60 then Some ((if s ! 0 = CHR ''-'' then - 1 else 1) * (h * 60 + m) * Minute) else None
         | _ \<Rightarrow> None)
      else None)"

definition parse_fraction :: "string \<Rightarrow> int \<times> string" where
  "parse_fraction s =
     (case s of
        c # t \<Rightarrow>
          if c = CHR ''.'' \<and> takeWhile is_digit t \<noteq> []
          then (let ds = take 9 (takeWhile is_digit t) in (int (digits_val 0 (ds @ replicate (9 - length ds) (CHR ''0''))), dropWhile is_digit t))
          else (0, s)
      | [] \<Rightarrow> (0, s))"

definition parse_rfc3339 :: "string \<Rightarrow> time option" where
  "parse_rfc3339 s =
     (if length s < 20 \<or> s ! 4 \<noteq> CHR ''-'' \<or> s ! 7 \<noteq> CHR ''-'' \<or> s ! 10 \<noteq> CHR ''T'' \<or> s ! 13 \<noteq> CHR '':'' \<or> s ! 16 \<noteq> CHR '':'' then None
      else (case those (map (\<lambda>(i, n). digits_at i n s) [(0, 4), (5, 2), (8, 2), (11, 2), (14, 2), (17, 2)]) of
        Some fs \<Rightarrow>
          (let y = fs ! 0; mo = fs ! 1; d = fs ! 2; h = fs ! 3; mi = fs ! 4; sec = fs ! 5; k = 12 * y + mo - 1; (nanos, zone) = parse_fraction (drop 19 s)
           in if mo < 1 \<or> 12 < mo \<or> d < 1 \<or> month_start (k + 1) - month_start k < d \<or> 23 < h \<or> 59 < mi \<or> 59 < sec then None
              else map_option (\<lambda>offset. (month_start k + d - 1 - epoch_day) * Day + (h * 3600 + mi * 60 + sec) * Second + nanos - offset)
                (parse_zone zone))
      | None \<Rightarrow> None))"

fun as_time :: "raw \<Rightarrow> time option" where
  "as_time (RStr s) = parse_rfc3339 s"
| "as_time _ = None"

definition fraud_event_of :: "(string \<times> raw) list \<Rightarrow> FraudEvent result" where
  "fraud_event_of es =
     then_result (json_field as_str [] ''id'' es) (\<lambda>i.
     then_result (json_field as_str [] ''email'' es) (\<lambda>email.
     then_result (json_field as_str [] ''ip'' es) (\<lambda>ip.
     then_result (json_field as_time zero_time ''occurred_at'' es) (\<lambda>occurred.
     then_result (json_field as_str [] ''hash_key_id'' es) (\<lambda>key.
     Inr \<lparr>fe_ID = i, fe_Email = email, fe_IP = ip, fe_OccurredAt = occurred, fe_HashKeyID = key\<rparr>)))))"

section \<open>The master\<close>

definition frame_of :: "kind \<Rightarrow> int \<Rightarrow> byte list \<Rightarrow> Frame" where
  "frame_of k revision payload = \<lparr>Kind = kind_byte k, Revision = word_of_int revision, Payload = payload\<rparr>"

definition sendFrame :: "Frame \<Rightarrow> ('m node_scheme, unit) prog" where
  "sendFrame frame = exec (\<lambda>d. ((), d\<lparr>n_sent := n_sent d @ [frame]\<rparr>))"

definition nodeAllowed :: "Config \<Rightarrow> string \<Rightarrow> bool" where
  "nodeAllowed c nodeID \<longleftrightarrow> list_ex (\<lambda>allowed. trim_space allowed = nodeID) (cf_AllowedNodes c)"

definition artifact_frame :: "int \<Rightarrow> Event \<Rightarrow> Frame" where
  "artifact_frame revision artifact = frame_of KindSnapshotArtifact revision
     (json_marshal (artifact_json \<lparr>ap_Kind = re_Kind artifact, ap_Data = b64_encode (re_Payload artifact)\<rparr>))"

definition user_frame :: "int \<Rightarrow> VPNUserConfig \<Rightarrow> Frame" where
  "user_frame revision user = frame_of KindSnapshotUser revision (json_marshal (user_json user))"

text \<open>What the process finds on its disk and in which order it visits a map.\<close>

record environment =
  en_list_dir :: listing
  en_visit :: "(string \<times> byte list) list \<Rightarrow> (string \<times> byte list) list"

definition sendSnapshot :: "'m node_scheme Service \<Rightarrow> Config \<Rightarrow> environment \<Rightarrow> ('m node_scheme, int) prog" where
  "sendSnapshot sv c en =
     bind (map_error (ErrWrap ''refresh replication artifacts for snapshot: '')
       (PublishArtifacts sv (en_list_dir en) (en_visit en) (cf_RealityKeysPath c) (cf_RoutingDir c))) (\<lambda>_.
     bind LatestRevision (\<lambda>revision.
     bind (BuildSnapshot sv) (\<lambda>users.
     bind now (\<lambda>ts.
     let begin = json_marshal (snapshot_json (cf_NodeID c @ ''-'' @ fmt_int ts))
     in bind (sendFrame (frame_of KindSnapshotBegin revision begin)) (\<lambda>_.
        bind (for_each (\<lambda>user. sendFrame (user_frame revision user)) users) (\<lambda>_.
        bind Artifacts (\<lambda>artifacts.
        bind (for_each (\<lambda>artifact. if re_Kind artifact = legacyStaticClientsArtifact then ret ()
               else sendFrame (artifact_frame revision artifact)) artifacts) (\<lambda>_.
        bind (sendFrame (frame_of KindSnapshotEnd revision begin)) (\<lambda>_.
        ret revision)))))))))"

definition event_frame :: "Event \<Rightarrow> Frame" where
  "event_frame ev = frame_of KindEvent (re_Revision ev)
     (json_marshal (wire_json \<lparr>we_Kind = re_Kind ev, we_Checksum = re_Checksum ev, we_Payload = b64_encode (re_Payload ev)\<rparr>))"

fun send_events :: "'m node_scheme Service \<Rightarrow> Config \<Rightarrow> environment \<Rightarrow> Event list \<Rightarrow> int \<Rightarrow> ('m node_scheme, int) prog" where
  "send_events sv c en [] lastSent = ret lastSent"
| "send_events sv c en (ev # evs) lastSent =
     (if re_Kind ev = eventResnapshot then sendSnapshot sv c en
      else bind (sendFrame (event_frame ev)) (\<lambda>_. send_events sv c en evs (re_Revision ev)))"

definition sendEventsAfter :: "'m node_scheme Service \<Rightarrow> Config \<Rightarrow> environment \<Rightarrow> int \<Rightarrow> ('m node_scheme, int) prog" where
  "sendEventsAfter sv c en lastSent = bind (EventsAfter lastSent 500) (\<lambda>evs. send_events sv c en evs lastSent)"

subsection \<open>A connection\<close>

type_synonym 'd fraud_sink = "string \<Rightarrow> api_FraudEvent list \<Rightarrow> ('d, unit) prog"

definition observation :: "FraudEvent \<Rightarrow> api_FraudEvent" where
  "observation ev = \<lparr>af_Email = fe_Email ev, af_IP = fe_IP ev, af_OccurredAt = fe_OccurredAt ev, af_HashKeyID = fe_HashKeyID ev\<rparr>"

definition bad_batch :: "bool \<Rightarrow> FraudEvent \<Rightarrow> bool" where
  "bad_batch legacy ev \<longleftrightarrow> fe_Email ev = [] \<or> fe_IP ev = [] \<or> (legacy \<and> fe_ID ev \<noteq> []) \<or> (\<not> legacy \<and> fe_ID ev = [])"

definition ingest_identified :: "'m repl_tables_scheme fraud_sink option \<Rightarrow> string \<Rightarrow> FraudEvent list \<Rightarrow> ('m repl_tables_scheme, string list) prog" where
  "ingest_identified sink sourceID evs = (case sink of
     None \<Rightarrow> fail (Err ''anti-fraud sink is unavailable'')
   | Some fraudSink \<Rightarrow>
       bind (UnreceivedFraudEvents sourceID evs) (\<lambda>pending.
       bind (if pending = [] then ret ()
             else bind (map_error (ErrWrap ''deliver replication anti-fraud events: '') (fraudSink sourceID (map observation pending))) (\<lambda>_.
               MarkFraudReceived sourceID pending)) (\<lambda>_.
       ret (map fe_ID evs))))"

definition ingestFraudEvents :: "'m repl_tables_scheme fraud_sink option \<Rightarrow> string \<Rightarrow> byte list \<Rightarrow> ('m repl_tables_scheme, string list) prog" where
  "ingestFraudEvents sink sourceID payload =
     bind (map_error (ErrWrap ''decode replication anti-fraud events: '') (lift_result (json_unmarshal_list fraud_event_of payload))) (\<lambda>evs.
     if evs = [] then fail (Err ''replication anti-fraud events are empty'')
     else let legacy = (fe_ID (hd evs) = [])
       in if list_ex (bad_batch legacy) evs then fail (Err ''invalid replication anti-fraud event'')
          else if legacy then (case sink of
            None \<Rightarrow> ret []
          | Some fraudSink \<Rightarrow> bind (attempt (fraudSink sourceID (map observation evs))) (\<lambda>_. ret []))
          else ingest_identified sink sourceID evs)"

text \<open>The first frame; \<open>peer\<close> is the common name of the client's certificate, if there is one.\<close>

definition accept_hello :: "Config \<Rightarrow> string option \<Rightarrow> byte list \<Rightarrow> ('m repl_tables_scheme, helloPayload) prog" where
  "accept_hello c peer message =
     bind (lift_result (Unmarshal message)) (\<lambda>first.
     if Kind first \<noteq> kind_byte KindHello then fail (Err ''first replication frame must be hello'')
     else bind (map_error (ErrWrap ''decode replication hello: '') (lift_result (json_unmarshal hello_of (Payload first)))) (\<lambda>hello.
       if \<not> nodeAllowed c (hp_NodeID hello) then fail (Err (''replication node '' @ go_quote (hp_NodeID hello) @ '' is not allowed''))
       else if (case peer of Some p \<Rightarrow> p \<noteq> hp_NodeID hello | None \<Rightarrow> False) then
         fail (Err (''replication hello node_id '' @ go_quote (hp_NodeID hello) @ '' does not match client certificate '' @ go_quote (the peer)))
       else bind (map_error (ErrWrap ''record replication node connection: '') (MarkReplicaConnected (hp_NodeID hello))) (\<lambda>_.
         ret hello)))"

definition needs_snapshot :: "helloPayload \<Rightarrow> ('m repl_tables_scheme, bool) prog" where
  "needs_snapshot hello =
     (if \<not> hp_Initialized hello then ret True
      else bind OldestRevision (\<lambda>oldest. ret (oldest > 0 \<and> hp_LastRevision hello < oldest - 1)))"

definition open_stream :: "'m node_scheme Service \<Rightarrow> Config \<Rightarrow> environment \<Rightarrow> helloPayload \<Rightarrow> ('m node_scheme, int) prog" where
  "open_stream sv c en hello =
     bind (needs_snapshot hello) (\<lambda>needsSnapshot.
     if needsSnapshot then sendSnapshot sv c en else ret (hp_LastRevision hello))"

text \<open>
  The receiver of the master: the queue of acknowledgements before and after a frame. It holds at most 128; what
  does not fit is dropped.
\<close>

definition offer_ack :: "string list \<Rightarrow> string list list \<Rightarrow> string list list" where
  "offer_ack ack queue = (if ack \<noteq> [] \<and> length queue < 128 then queue @ [ack] else queue)"

definition receive_frame ::
  "'m repl_tables_scheme fraud_sink option \<Rightarrow> ('m repl_tables_scheme, unit) prog option \<Rightarrow> string \<Rightarrow> byte list \<Rightarrow> string list list \<Rightarrow>
     ('m repl_tables_scheme, string list list) prog"
where
  "receive_frame sink onStats nodeID message queue =
     bind (lift_result (Unmarshal message)) (\<lambda>frame.
     if Kind frame = kind_byte KindFraudEvents then
       bind (attempt (ingestFraudEvents sink nodeID (Payload frame))) (\<lambda>r.
       ret (case r of Inl _ \<Rightarrow> queue | Inr ack \<Rightarrow> offer_ack ack queue))
     else if Kind frame = kind_byte KindStats then
       bind (map_error (ErrWrap ''decode replication statistics: '') (lift_result (json_unmarshal_list stats_point_of (Payload frame)))) (\<lambda>points.
       bind (map_error (ErrWrap ''store replication statistics: '') (ReplaceReplicaStats nodeID points)) (\<lambda>_.
       bind (case onStats of None \<Rightarrow> ret () | Some sync \<Rightarrow> bind (attempt sync) (\<lambda>_. ret ())) (\<lambda>_.
       ret queue)))
     else if Kind frame = kind_byte KindAck then
       bind (map_error (ErrWrap ''record replication acknowledgement: '') (AcknowledgeReplica nodeID (sint (Revision frame)))) (\<lambda>_. ret queue)
     else if Kind frame \<noteq> kind_byte KindStatus then
       fail (Err (''unexpected slave replication frame '' @ fmt_int (uint (Kind frame))))
     else ret queue)"

text \<open>One turn of the sending loop when an acknowledgement is waiting.\<close>

definition send_ack :: "string list list \<Rightarrow> ('m node_scheme, string list list) prog" where
  "send_ack queue = (case queue of
     [] \<Rightarrow> ret []
   | ack # rest \<Rightarrow> bind (sendFrame (frame_of KindFraudAck 0 (json_marshal (fraud_ack_json ack)))) (\<lambda>_. ret rest))"

section \<open>The slave\<close>

definition currentRevision :: "('m repl_tables_scheme, int) prog" where
  "currentRevision = bind (attempt (GetMeta ''applied_revision'')) (\<lambda>r. case r of
     Inr (Some s) \<Rightarrow> (case parse_int s of (revision, ok) \<Rightarrow> ret (if ok then revision else 0))
   | _ \<Rightarrow> ret 0)"

definition snapshotInitialized :: "('m repl_tables_scheme, bool) prog" where
  "snapshotInitialized = bind (attempt (GetMeta ''snapshot_initialized'')) (\<lambda>r. ret (r = Inr (Some ''true'')))"

definition paths_of :: "Config \<Rightarrow> slave_paths" where
  "paths_of c = \<lparr>pa_realityKeysPath = cf_RealityKeysPath c, pa_routingDir = cf_RoutingDir c, pa_nodeID = cf_NodeID c,
     pa_xrayConfigPath = cf_XrayConfigPath c\<rparr>"

fun decodeSnapshotUsers :: "byte list list \<Rightarrow> VPNUserConfig list result" where
  "decodeSnapshotUsers [] = Inr []"
| "decodeSnapshotUsers (p # ps) =
     then_result (json_unmarshal user_of p) (\<lambda>u. then_result (decodeSnapshotUsers ps) (\<lambda>us. Inr (u # us)))"

definition slave_event :: "'m node_scheme Service \<Rightarrow> Config \<Rightarrow> Frame \<Rightarrow> ('m node_scheme, unit) prog" where
  "slave_event sv c frame =
     bind (lift_result (json_unmarshal wire_of (Payload frame))) (\<lambda>wire.
     bind (lift_result (b64_decode (we_Payload wire))) (\<lambda>payload.
     bind (ApplyEvent sv (paths_of c) (cf_MasterAddress c)
       \<lparr>re_Revision = sint (Revision frame), re_Kind = we_Kind wire, re_Payload = payload, re_Checksum = we_Checksum wire\<rparr>) (\<lambda>_.
     sendFrame (frame_of KindAck (sint (Revision frame)) []))))"

definition slave_end :: "'m node_scheme Service \<Rightarrow> string \<Rightarrow> Frame \<Rightarrow> ('m node_scheme, unit) prog" where
  "slave_end sv active frame =
     bind (lift_result (json_unmarshal snapshot_of (Payload frame))) (\<lambda>identifier.
     if active = [] \<or> identifier \<noteq> active then fail (Err ''replication snapshot end does not match active snapshot'')
     else bind (ActivateSnapshot active (sint (Revision frame))) (\<lambda>rawUsers.
       bind (lift_result (decodeSnapshotUsers rawUsers)) (\<lambda>users.
       bind (map_error (ErrWrap ''apply replication snapshot: '') (reconcileUsers sv users)) (\<lambda>_.
       sendFrame (frame_of KindAck (sint (Revision frame)) [])))))"

text \<open>One frame: the identifier of the open snapshot before and after.\<close>

definition slave_frame ::
  "'m node_scheme Service \<Rightarrow> Config \<Rightarrow> (string list \<Rightarrow> ('m node_scheme, unit) prog) option \<Rightarrow> string \<Rightarrow> Frame \<Rightarrow> ('m node_scheme, string) prog"
where
  "slave_frame sv c onFraudAck active frame =
     (if Kind frame = kind_byte KindFraudAck then
        bind (map_error (ErrWrap ''decode replication anti-fraud acknowledgement: '') (lift_result (json_unmarshal fraud_ack_of (Payload frame)))) (\<lambda>ids.
        if nonEmptyStrings ids = [] then fail (Err ''replication anti-fraud acknowledgement is empty'')
        else bind (case onFraudAck of None \<Rightarrow> ret ()
               | Some f \<Rightarrow> map_error (ErrWrap ''apply replication anti-fraud acknowledgement: '') (f ids)) (\<lambda>_. ret active))
      else if Kind frame = kind_byte KindEvent then bind (slave_event sv c frame) (\<lambda>_. ret active)
      else if Kind frame = kind_byte KindSnapshotBegin then
        bind (lift_result (json_unmarshal snapshot_of (Payload frame))) (\<lambda>identifier.
        if identifier = [] then fail (Err ''replication snapshot has empty id'') else ret identifier)
      else if Kind frame = kind_byte KindSnapshotUser then
        (if active = [] then fail (Err ''replication snapshot user received without begin'')
         else bind (lift_result (json_unmarshal user_of (Payload frame))) (\<lambda>user.
           if vu_Email user = [] then fail (Err ''replication snapshot contains user without email'')
           else bind (StageUser active (vu_Email user) (Payload frame)) (\<lambda>_. ret active)))
      else if Kind frame = kind_byte KindSnapshotArtifact then
        (if active = [] then fail (Err ''replication snapshot artifact received without begin'')
         else bind (applyArtifact sv (paths_of c) (Payload frame) (sint (Revision frame))) (\<lambda>_. ret active))
      else if Kind frame = kind_byte KindSnapshotEnd then bind (slave_end sv active frame) (\<lambda>_. ret [])
      else if Kind frame = kind_byte KindError then fail (Err (''master replication error: '' @ string_of (Payload frame)))
      else fail (Err (''unexpected master replication frame '' @ fmt_int (uint (Kind frame)))))"

fun receiveSlaveFrames ::
  "'m node_scheme Service \<Rightarrow> Config \<Rightarrow> (string list \<Rightarrow> ('m node_scheme, unit) prog) option \<Rightarrow> string \<Rightarrow> byte list list \<Rightarrow> ('m node_scheme, unit) prog"
where
  "receiveSlaveFrames sv c onFraudAck active [] = fail (Err ''EOF'')"
| "receiveSlaveFrames sv c onFraudAck active (message # messages) =
     bind (lift_result (Unmarshal message)) (\<lambda>frame.
     bind (slave_frame sv c onFraudAck active frame) (\<lambda>active.
     receiveSlaveFrames sv c onFraudAck active messages))"

text \<open>A session: the hello with the position of the slave, then the frames of the master.\<close>

definition runSlaveSession ::
  "'m node_scheme Service \<Rightarrow> Config \<Rightarrow> (string list \<Rightarrow> ('m node_scheme, unit) prog) option \<Rightarrow> byte list list \<Rightarrow> ('m node_scheme, unit) prog"
where
  "runSlaveSession sv c onFraudAck messages =
     bind currentRevision (\<lambda>lastRevision.
     bind snapshotInitialized (\<lambda>initialized.
     bind (sendFrame (frame_of KindHello 0 (json_marshal (hello_json
       \<lparr>hp_NodeID = cf_NodeID c, hp_LastRevision = lastRevision, hp_Initialized = initialized\<rparr>)))) (\<lambda>_.
     receiveSlaveFrames sv c onFraudAck [] messages)))"

section \<open>The observations of a slave\<close>

text \<open>The queue is sent while a session is open. \<open>enc\<close> is the JSON package of the plugin.\<close>

definition flushFraudOutboxLocked :: "(FraudEvent list \<Rightarrow> byte list result) \<Rightarrow> Config \<Rightarrow> bool \<Rightarrow> ('m node_scheme, unit) prog" where
  "flushFraudOutboxLocked enc c online =
     (if cf_Mode c \<noteq> ''slave'' then fail (Err ''anti-fraud events may be reported only by a slave'')
      else if \<not> online then ret ()
      else bind (PendingFraudEvents 100) (\<lambda>evs.
        if evs = [] then ret ()
        else bind (lift_result (enc evs)) (\<lambda>payload. sendFrame (frame_of KindFraudEvents 0 payload))))"

definition ReportFraudEvents ::
  "(FraudEvent list \<Rightarrow> byte list result) \<Rightarrow> (nat \<Rightarrow> string) \<Rightarrow> Config \<Rightarrow> bool \<Rightarrow> api_FraudEvent list \<Rightarrow> ('m node_scheme, unit) prog"
where
  "ReportFraudEvents enc newID c online evs =
     (if evs = [] then ret ()
      else if cf_Mode c \<noteq> ''slave'' then fail (Err ''anti-fraud events may be reported only by a slave'')
      else bind (EnqueueFraudEvents newID evs) (\<lambda>_. flushFraudOutboxLocked enc c online))"

definition acknowledgeFraudEvents ::
  "(FraudEvent list \<Rightarrow> byte list result) \<Rightarrow> Config \<Rightarrow> bool \<Rightarrow> string list \<Rightarrow> ('m node_scheme, unit) prog"
where
  "acknowledgeFraudEvents enc c online eventIDs =
     (if cf_Mode c \<noteq> ''slave'' then fail (Err ''anti-fraud events may be acknowledged only by a slave'')
      else bind (AcknowledgeFraudEvents eventIDs) (\<lambda>_. flushFraudOutboxLocked enc c online))"

definition ReportStatistics :: "(statsPoint list \<Rightarrow> byte list result) \<Rightarrow> Config \<Rightarrow> bool \<Rightarrow> statsPoint list \<Rightarrow> ('m node_scheme, unit) prog" where
  "ReportStatistics enc c online points =
     (if cf_Mode c \<noteq> ''slave'' then fail (Err ''statistics may be reported only by a slave'')
      else if \<not> online then fail (Err ''replication stream is not online'')
      else bind (lift_result (enc points)) (\<lambda>payload. sendFrame (frame_of KindStats 0 payload)))"

text \<open>One turn of the loop of the master; the errors are logged.\<close>

definition master_scan :: "'m node_scheme Service \<Rightarrow> Config \<Rightarrow> environment \<Rightarrow> ('m node_scheme, unit) prog" where
  "master_scan sv c en =
     bind (attempt (DetectDesiredState sv)) (\<lambda>_.
     bind (attempt (PublishArtifacts sv (en_list_dir en) (en_visit en) (cf_RealityKeysPath c) (cf_RoutingDir c))) (\<lambda>_.
     bind (attempt (PruneAcknowledged (cf_AllowedNodes c))) (\<lambda>_. ret ())))"

section \<open>Reading the configuration\<close>

text \<open>\<open>parseConfig\<close>: the raw configuration is a map to decoded values; each text field is looked up by its key.\<close>

definition read_string :: "json_map \<Rightarrow> string \<Rightarrow> string \<Rightarrow> string result" where
  "read_string m key current = (case map_of m key of
     None \<Rightarrow> Inr current
   | Some (JStr s) \<Rightarrow> Inr s
   | Some _ \<Rightarrow> Inl (Err (key @ '' must be a string'')))"

definition config_fields :: "(string \<times> (Config \<Rightarrow> string) \<times> ((string \<Rightarrow> string) \<Rightarrow> Config \<Rightarrow> Config)) list" where
  "config_fields =
     [(''mode'', cf_Mode, cf_Mode_update), (''node_id'', cf_NodeID, cf_NodeID_update), (''listen_address'', cf_ListenAddress, cf_ListenAddress_update),
      (''master_address'', cf_MasterAddress, cf_MasterAddress_update), (''ca_file'', cf_CAFile, cf_CAFile_update),
      (''cert_file'', cf_CertFile, cf_CertFile_update), (''key_file'', cf_KeyFile, cf_KeyFile_update), (''server_name'', cf_ServerName, cf_ServerName_update),
      (''reconnect_interval'', cf_ReconnectInterval, cf_ReconnectInterval_update), (''drift_interval'', cf_DriftInterval, cf_DriftInterval_update),
      (''master_scan_interval'', cf_MasterScanInterval, cf_MasterScanInterval_update), (''stats_interval'', cf_StatsInterval, cf_StatsInterval_update),
      (''reality_keys_path'', cf_RealityKeysPath, cf_RealityKeysPath_update), (''routing_dir'', cf_RoutingDir, cf_RoutingDir_update),
      (''xray_config_path'', cf_XrayConfigPath, cf_XrayConfigPath_update)]"

fun read_fields :: "json_map \<Rightarrow> (string \<times> (Config \<Rightarrow> string) \<times> ((string \<Rightarrow> string) \<Rightarrow> Config \<Rightarrow> Config)) list \<Rightarrow> Config \<Rightarrow> Config result" where
  "read_fields m [] c = Inr c"
| "read_fields m ((key, get, upd) # fs) c =
     then_result (read_string m key (get c)) (\<lambda>s. read_fields m fs (upd (\<lambda>_. s) c))"

definition read_nodes :: "json_map \<Rightarrow> Config \<Rightarrow> Config result" where
  "read_nodes m c = (case map_of m ''allowed_nodes'' of
     None \<Rightarrow> Inr c
   | Some (JArr xs) \<Rightarrow>
       (case those (map (\<lambda>x. case x of JStr s \<Rightarrow> Some s | _ \<Rightarrow> None) xs) of
          None \<Rightarrow> Inl (Err ''allowed_nodes must contain strings'')
        | Some items \<Rightarrow> Inr (c\<lparr>cf_AllowedNodes := items\<rparr>))
   | Some _ \<Rightarrow> Inl (Err ''allowed_nodes must be an array of strings''))"

definition bad_interval :: "string \<Rightarrow> bool" where
  "bad_interval s = (case ParseDuration s of None \<Rightarrow> True | Some d \<Rightarrow> d \<le> 0)"

definition interval_fields :: "(string \<times> (Config \<Rightarrow> string)) list" where
  "interval_fields = [(''reconnect_interval'', cf_ReconnectInterval), (''drift_interval'', cf_DriftInterval),
     (''master_scan_interval'', cf_MasterScanInterval), (''stats_interval'', cf_StatsInterval)]"

definition default_config :: Config where
  "default_config = \<lparr>cf_Mode = [], cf_NodeID = [], cf_ListenAddress = [], cf_MasterAddress = [], cf_AllowedNodes = [], cf_CAFile = [],
     cf_CertFile = [], cf_KeyFile = [], cf_ServerName = [], cf_ReconnectInterval = ''5s'', cf_DriftInterval = ''1m'',
     cf_MasterScanInterval = ''30s'', cf_StatsInterval = ''30s'', cf_RealityKeysPath = [], cf_RoutingDir = [], cf_XrayConfigPath = []\<rparr>"

definition parseConfig :: "json_map option \<Rightarrow> Config result" where
  "parseConfig raw = (case raw of
     None \<Rightarrow> Inr default_config
   | Some m \<Rightarrow>
       then_result (read_fields m config_fields default_config) (\<lambda>c.
       then_result (read_nodes m c) (\<lambda>c.
       case find_first (\<lambda>(n, get). bad_interval (get c)) interval_fields of
         Some (n, _) \<Rightarrow> Inl (Err (n @ '' must be a positive duration''))
       | None \<Rightarrow> Inr (c\<lparr>cf_Mode := to_lower (trim_space (cf_Mode c))\<rparr>))))"

end
