(* ===== verification/Replication_Wire.thy ===== *)
theory Replication_Wire
  imports Replication_Transport
begin

text \<open>
  What the payloads of the replication stream carry is read back as it was written: frames, events and users,
  with bounds on the lengths of their texts.
\<close>

section \<open>Frames and events\<close>

lemma unmarshal_marshal: "length (Payload f) < 2 ^ 63 \<Longrightarrow> Unmarshal (Marshal f) = Inr f"
  by (simp add: Marshal_header Unmarshal_header Let_def)

definition ascii :: "string \<Rightarrow> bool" where
  "ascii s \<longleftrightarrow> list_all (\<lambda>c. ord c < 128) s"

lemma valid_ascii: "ascii s \<Longrightarrow> valid_utf8 s"
proof (induction s)
  case Nil
  then show ?case by (simp add: valid_utf8.simps)
next
  case (Cons c s)
  then have "rune_length (c # s) = 1" "valid_utf8 s" by (auto simp: ascii_def)
  then show ?case by (subst valid_utf8.simps) simp
qed

lemma ascii_b64: "ascii (b64_encode bs)"
proof -
  have char: "ord (b64_char n) < 128" if "n < 64" for n using that by (auto simp: b64_char_def)
  have quad: "list_all (\<lambda>c. ord c < 128) (b64_quad v)" if "v < 16777216" for v
    using that by (auto simp: b64_quad_def intro!: char)
  have cut: "list_all (\<lambda>c. ord c < 128) (take k (b64_quad v))" if "v < 16777216" for k v
    using quad [OF that] by (auto simp: list_all_iff dest: in_set_takeD)
  have bounds: "unat a * 65536 + unat b * 256 + unat c < 16777216" "unat a * 65536 < 16777216" "unat a * 65536 + unat b * 256 < 16777216" for a b c :: byte
    using unat_byte [of a] unat_byte [of b] unat_byte [of c] by linarith+
  have pad: "ord (CHR ''='') < 128" by simp
  show ?thesis unfolding ascii_def
  proof (induction bs rule: b64_encode.induct)
    case (2 a)
    show ?case using cut [OF bounds(2), of 2 a] by (simp only: b64_encode.simps list_all_append list.pred_inject pad simp_thms)
  next
    case (3 a b)
    show ?case using cut [OF bounds(3), of 3 a b] by (simp only: b64_encode.simps list_all_append list.pred_inject pad simp_thms)
  next
    case (4 a b c rest)
    then show ?case using quad [OF bounds(1), of a b c] by (simp only: b64_encode.simps list_all_append simp_thms)
  qed simp
qed

lemma ascii_hex: "ascii (hex_encode bs)"
proof -
  have "ord (hex_digit n) < 128" if "n < 16" for n
    using hex_value_digit [OF that] by (auto simp: hex_value_def Let_def split: if_splits)
  moreover have "unat b div 16 < 16" for b :: byte using unat_byte [of b] by simp
  ultimately show ?thesis by (auto simp: ascii_def hex_encode_def list_all_iff)
qed

lemma wire_keys: "to_lower ''kind'' = ''kind''" "to_lower ''checksum'' = ''checksum''" "to_lower ''payload'' = ''payload''"
  by (simp_all add: to_lower_def)

lemma max_depth_pos: "1 \<le> max_depth" "2 \<le> max_depth" "3 \<le> max_depth"
  by (simp_all add: max_depth_def)

lemma wire_roundtrip:
  assumes "valid_utf8 (we_Kind e)" "valid_utf8 (we_Checksum e)" "valid_utf8 (we_Payload e)"
  shows "json_unmarshal wire_of (json_marshal (wire_json e)) = Inr e"
proof -
  let ?es = "[(''kind'', RStr (we_Kind e)), (''checksum'', RStr (we_Checksum e)), (''payload'', RStr (we_Payload e))]"
  have keys: "valid_utf8 ''kind''" "valid_utf8 ''checksum''" "valid_utf8 ''payload''" by (rule valid_ascii, simp add: ascii_def)+
  have "json_unmarshal wire_of (json_marshal (RObj ?es)) = wire_of ?es"
    by (rule json_unmarshal_marshal) (use assms keys max_depth_pos in simp_all)
  moreover have "wire_of ?es = Inr e"
    by (simp add: wire_of_def json_field_one matching_def wire_keys)
  ultimately show ?thesis by (simp add: wire_json_def)
qed

lemma sint_revision: "in_int64 r \<Longrightarrow> sint (word_of_int r :: u64) = r"
  by (simp add: int_word_sint in_int64_def)

lemma length_escape_char: "length (escape_char c) \<le> 6"
  by (simp add: escape_char_def hex4_def)

lemma length_escape_rune: "length (escape_rune r) \<le> 6 * length r"
  using length_escape_char by (auto simp: escape_rune_def line_separator_def paragraph_separator_def split: list.splits)

lemma length_escape: "length (escape s) \<le> 6 * length s"
proof (induction s rule: escape.induct)
  case (1 s)
  show ?case
  proof (cases "s = []")
    case False
    show ?thesis
    proof (cases "rune_length s = 0")
      case True
      then show ?thesis using "1.IH"(1) [OF False True] False by (subst escape.simps) (cases s, simp_all)
    next
      case nz: False
      have "length (escape_rune (take (rune_length s) s)) \<le> 6 * rune_length s"
        using length_escape_rune [of "take (rune_length s) s"] rune_length_le [of s] by (simp add: min_absorb2)
      then show ?thesis using "1.IH"(2) [OF False nz] False nz rune_length_le [of s] by (subst escape.simps) simp
    qed
  qed (simp add: escape.simps)
qed

lemma length_quoted: "length (quoted s) \<le> 6 * length s + 2"
  using length_escape [of s] by (simp add: quoted_def)

lemma length_b64: "length (b64_encode bs) \<le> 2 * length bs + 4"
  by (induction bs rule: b64_encode.induct) (simp_all add: b64_quad_def)

lemma length_sha_block: "length (sha_block st b) \<le> length st"
  by (simp add: sha_block_def)

lemma length_sha_blocks: "length (sha_blocks st bs) \<le> length st"
proof (induction st bs rule: sha_blocks.induct)
  case (1 st bs)
  then show ?case using length_sha_block [of st "take 64 bs"] by (subst sha_blocks.simps) auto
qed

lemma length_checksum: "length (checksum k p) \<le> 64"
proof -
  have "length sha_init \<le> 8" by (simp add: sha_init_def)
  then have "length (sha_blocks sha_init bs) \<le> 8" for bs using length_sha_blocks le_trans by blast
  moreover have "length (sha256 bs) = 4 * length (sha_blocks sha_init (sha_pad bs))" for bs
    by (simp add: sha256_def length_concat comp_def sum_list_triv)
  moreover have "length (hex_encode bs) = 2 * length bs" for bs
    by (simp add: hex_encode_def length_concat comp_def sum_list_triv)
  ultimately show ?thesis by (simp add: checksum_def)
qed

section \<open>Users on the stream\<close>

text \<open>A user whose texts survive JSON.\<close>

definition user_text_ok :: "VPNUserConfig \<Rightarrow> bool" where
  "user_text_ok u \<longleftrightarrow> list_all valid_utf8 ([vu_Email u, vu_UUID u, vu_Auth u, vu_Subfile u, vu_Expire u, vu_Flow u, vu_Cipher u]
     @ vu_PlanEngineIDs u @ vu_SubscriptionEngineIDs u) \<and> in_int64 (vu_MaxDevices u)"

lemma to_lower_user_keys:
  "to_lower ''Email'' = ''email''" "to_lower ''UUID'' = ''uuid''" "to_lower ''Auth'' = ''auth''" "to_lower ''Subfile'' = ''subfile''"
  "to_lower ''Expire'' = ''expire''" "to_lower ''MaxDevices'' = ''maxdevices''" "to_lower ''Flow'' = ''flow''" "to_lower ''Cipher'' = ''cipher''"
  "to_lower ''PlanEngineIDs'' = ''planengineids''" "to_lower ''SubscriptionEngineIDs'' = ''subscriptionengineids''" "to_lower ''user'' = ''user''"
  by code_simp+

lemma literal_elements_strings: "literal_elements (map RStr ss) = list_all valid_utf8 ss"
  by (induction ss) simp_all

lemma depth_elements_strings: "depth_elements (map RStr ss) = 0"
  by (induction ss) simp_all

lemma strings_json_literal: "list_all valid_utf8 ss \<Longrightarrow> literal (strings_json ss)" "depth (strings_json ss) \<le> 1"
  by (simp_all add: strings_json_def literal_elements_strings depth_elements_strings)

lemma as_strs_strings: "as_strs (RArr (map RStr ss)) = Some ss"
proof -
  have "those (map ((\<lambda>v. if v = RNull then Some [] else as_str v) \<circ> RStr) ss) = Some ss" by (induction ss) simp_all
  then show ?thesis by (simp add: comp_def)
qed

lemma json_field_strings:
  assumes "matching field es = (if ss = [] then [] else [RArr (map RStr ss)])"
  shows "json_field as_strs [] field es = Inr ss"
proof (cases "ss = []")
  case True
  then show ?thesis using assms by (simp add: json_field_none)
next
  case False
  then have "matching field es = [RArr (map RStr ss)]" using assms by simp
  then show ?thesis using as_strs_strings by (rule json_field_one)
qed

lemma user_roundtrip:
  assumes "user_text_ok u"
  shows "json_unmarshal user_of (json_marshal (user_json u)) = Inr u"
proof -
  define es where "es = [(''Email'', RStr (vu_Email u)), (''UUID'', RStr (vu_UUID u)), (''Auth'', RStr (vu_Auth u)),
     (''Subfile'', RStr (vu_Subfile u)), (''Expire'', RStr (vu_Expire u)), (''MaxDevices'', RNum (fmt_int (vu_MaxDevices u))),
     (''Flow'', RStr (vu_Flow u)), (''Cipher'', RStr (vu_Cipher u)), (''PlanEngineIDs'', strings_json (vu_PlanEngineIDs u)),
     (''SubscriptionEngineIDs'', strings_json (vu_SubscriptionEngineIDs u))]"
  have keys: "list_all valid_utf8 (''user'' # map fst es)" unfolding es_def by (simp add: valid_ascii ascii_def)
  have lit: "literal_entries es" using assms keys strings_json_literal(1) literal_int
    by (simp add: es_def user_text_ok_def del: literal.simps(1))
  have dep: "depth_entries es \<le> 1" using strings_json_literal(2) by (simp add: es_def)
  have m: "matching ''Email'' es = [RStr (vu_Email u)]" "matching ''UUID'' es = [RStr (vu_UUID u)]" "matching ''Auth'' es = [RStr (vu_Auth u)]"
    "matching ''Subfile'' es = [RStr (vu_Subfile u)]" "matching ''Expire'' es = [RStr (vu_Expire u)]"
    "matching ''MaxDevices'' es = [RNum (fmt_int (vu_MaxDevices u))]" "matching ''Flow'' es = [RStr (vu_Flow u)]"
    "matching ''Cipher'' es = [RStr (vu_Cipher u)]"
    "matching ''PlanEngineIDs'' es = (if vu_PlanEngineIDs u = [] then [] else [RArr (map RStr (vu_PlanEngineIDs u))])"
    "matching ''SubscriptionEngineIDs'' es = (if vu_SubscriptionEngineIDs u = [] then [] else [RArr (map RStr (vu_SubscriptionEngineIDs u))])"
    unfolding es_def matching_def by (simp_all add: to_lower_user_keys strings_json_def)
  have int: "as_int (RNum (fmt_int (vu_MaxDevices u))) = Some (vu_MaxDevices u)" using assms by (intro as_int_fmt) (simp add: user_text_ok_def)
  have "vpn_user_of es = Inr u"
    unfolding vpn_user_of_def
    by (simp add: json_field_one [OF m(1)] json_field_one [OF m(2)] json_field_one [OF m(3)] json_field_one [OF m(4)] json_field_one [OF m(5)]
      json_field_one [where conv = as_int, OF m(6) int] json_field_one [OF m(7)] json_field_one [OF m(8)] json_field_strings [OF m(9)] json_field_strings [OF m(10)])
  moreover have "json_unmarshal user_of (json_marshal (user_json u)) = user_of [(''user'', RObj es)]"
    unfolding user_json_def es_def [symmetric]
    by (rule json_unmarshal_marshal) (use lit keys dep max_depth_pos in simp_all)
  moreover have "user_of [(''user'', RObj es)] = vpn_user_of es"
    by (simp add: user_of_def json_struct_def matching_def)
  ultimately show ?thesis by simp
qed

lemma escape_plain:
  "list_all (\<lambda>c. 32 \<le> ord c \<and> ord c < 128 \<and> c \<notin> {quote_char, backslash, CHR ''<'', CHR ''>'', CHR ''&''}) s \<Longrightarrow> escape s = s"
proof (induction s)
  case Nil
  then show ?case by (simp add: escape.simps)
next
  case (Cons c s)
  then have c: "32 \<le> ord c" "ord c < 128" "c \<noteq> quote_char" "c \<noteq> backslash" "c \<noteq> CHR ''<''" "c \<noteq> CHR ''>''" "c \<noteq> CHR ''&''" by auto
  then have "escape_char c = [c]" by (auto simp: escape_char_def)
  then show ?case using c Cons by (subst escape.simps) (simp add: escape_rune_def)
qed

end
