(* ===== verification/Replication_Slave.thy ===== *)
theory Replication_Slave
  imports Replication_Wire
begin

text \<open>
  A slave follows the journal of its master: whatever fails, and however often the connection is lost, every
  user of the slave has a state the journal gave that user at or after the revision the slave has recorded, and
  a session whose events were all acknowledged leaves exactly the state of the whole journal.
\<close>

section \<open>What a slave holds\<close>

lemma sort_key_const: "\<forall>x \<in> set xs. key x = k \<Longrightarrow> sort_key key xs = xs"
  by (rule sort_key_id_if_sorted) (auto simp: sorted_map intro: sorted_wrt_mono_rel [OF _ sorted_wrt_true])

lemma hd_filter: "(case filter p xs of [] \<Rightarrow> None | x # _ \<Rightarrow> Some x) = find_first p xs"
  by (induction xs) auto

lemma first_by_key: "first_by key (\<lambda>x. key x = k) rows = find_first (\<lambda>x. key x = k) rows"
  unfolding first_by_def by (subst sort_key_const [of _ key k]) (simp_all add: hd_filter)

lemma find_first_append: "find_first p (xs @ ys) = (case find_first p xs of None \<Rightarrow> find_first p ys | Some x \<Rightarrow> Some x)"
  by (induction xs) auto

lemma find_first_put_row:
  "find_first (\<lambda>y. key y = k) (put_row key x rows) = (if k = key x then Some x else find_first (\<lambda>y. key y = k) rows)"
proof -
  have upd: "find_first (\<lambda>y. key y = k) (update_where (\<lambda>y. key y = key x) (\<lambda>_. x) rows) =
      (if k = key x then if list_ex (\<lambda>y. key y = key x) rows then Some x else None else find_first (\<lambda>y. key y = k) rows)"
    by (induction rows) auto
  have none: "\<not> list_ex (\<lambda>y. key y = key x) rows \<Longrightarrow> find_first (\<lambda>y. key y = key x) rows = None"
    by (auto simp: find_first_None list_ex_iff)
  show ?thesis
    using none upd by (cases "k = key x"; cases "list_ex (\<lambda>y. key y = key x) rows") (auto simp: put_row_def find_first_append split: option.splits)
qed

lemma find_first_filter_ne: "find_first (\<lambda>y. key y = k) (filter (\<lambda>y. key y \<noteq> x) rows) = (if k = x then None else find_first (\<lambda>y. key y = k) rows)"
  by (induction rows) auto

definition desired_of :: "'m repl_tables_scheme \<Rightarrow> string \<rightharpoonup> string" where
  "desired_of d e = map_option du_Payload (find_first (\<lambda>r. du_Email r = e) (r_desired d))"

definition applied_of :: "'m repl_tables_scheme \<Rightarrow> int" where
  "applied_of d = (case first_by mt_Key (\<lambda>m. mt_Key m = ''applied_revision'') (r_meta d) of
     None \<Rightarrow> 0 | Some m \<Rightarrow> (case parse_int (mt_Value m) of (revision, ok) \<Rightarrow> if ok then revision else 0))"

section \<open>What an event does\<close>

definition effect_of :: "json_codec \<Rightarrow> Event \<Rightarrow> (string \<times> string option) option" where
  "effect_of codec ev =
     (if re_Kind ev = eventUserUpsert then
        (case dec_user codec (re_Payload ev) of Inr u \<Rightarrow> Some (vu_Email u, Some (b64_encode (re_Payload ev))) | Inl _ \<Rightarrow> None)
      else if re_Kind ev = eventUserRemove then
        (case dec_remove codec (re_Payload ev) of Inr e \<Rightarrow> Some (e, None) | Inl _ \<Rightarrow> None)
      else None)"

definition apply_effect :: "json_codec \<Rightarrow> Event \<Rightarrow> (string \<rightharpoonup> string) \<Rightarrow> (string \<rightharpoonup> string)" where
  "apply_effect codec ev m = (case effect_of codec ev of None \<Rightarrow> m | Some (e, v) \<Rightarrow> m(e := v))"

text \<open>The state the first \<open>k\<close> events of a journal give, from the state of the last snapshot.\<close>

definition state_after :: "json_codec \<Rightarrow> Event list \<Rightarrow> (string \<rightharpoonup> string) \<Rightarrow> nat \<Rightarrow> (string \<rightharpoonup> string)" where
  "state_after codec J m0 k = fold (apply_effect codec) (take k J) m0"

lemma state_after_Suc: "k < length J \<Longrightarrow> state_after codec J m0 (Suc k) = apply_effect codec (J ! k) (state_after codec J m0 k)"
  by (simp add: state_after_def take_Suc_conv_app_nth)

definition between :: "json_codec \<Rightarrow> Event list \<Rightarrow> (string \<rightharpoonup> string) \<Rightarrow> nat \<Rightarrow> nat \<Rightarrow> (string \<rightharpoonup> string) \<Rightarrow> bool" where
  "between codec J m0 r j m \<longleftrightarrow> (\<forall>e. \<exists>k. r \<le> k \<and> k \<le> j \<and> m e = state_after codec J m0 k e)"

lemma between_mono: "between codec J m0 r j m \<Longrightarrow> r' \<le> r \<Longrightarrow> j \<le> j' \<Longrightarrow> between codec J m0 r' j' m"
  unfolding between_def by (meson le_trans)

lemma between_step:
  assumes "between codec J m0 r j m" and "r < length J"
  shows "between codec J m0 (Suc r) (max j (Suc r)) (apply_effect codec (J ! r) m)"
  unfolding between_def
proof
  fix e
  obtain k where k: "r \<le> k" "k \<le> j" "m e = state_after codec J m0 k e" using assms(1) by (auto simp: between_def)
  show "\<exists>k. Suc r \<le> k \<and> k \<le> max j (Suc r) \<and> apply_effect codec (J ! r) m e = state_after codec J m0 k e"
  proof (cases "\<exists>v. effect_of codec (J ! r) = Some (e, v)")
    case True
    then have "apply_effect codec (J ! r) m e = state_after codec J m0 (Suc r) e"
      using assms(2) by (auto simp: state_after_Suc apply_effect_def)
    then show ?thesis by (intro exI [of _ "Suc r"]) simp
  next
    case False
    then have other: "apply_effect codec (J ! r) f e = f e" for f :: "string \<rightharpoonup> string"
      by (auto simp: apply_effect_def split: option.splits)
    show ?thesis
    proof (cases "k = r")
      case True
      then have "apply_effect codec (J ! r) m e = state_after codec J m0 (Suc r) e"
        using k(3) assms(2) by (simp add: state_after_Suc other)
      then show ?thesis by (intro exI [of _ "Suc r"]) simp
    next
      case False
      then show ?thesis using k other by (intro exI [of _ k]) simp
    qed
  qed
qed

lemma between_end: "between codec J m0 (length J) j m \<Longrightarrow> m = state_after codec J m0 (length J)"
proof
  fix e assume "between codec J m0 (length J) j m"
  then obtain k where "length J \<le> k" "m e = state_after codec J m0 k e" by (auto simp: between_def)
  then show "m e = state_after codec J m0 (length J) e" by (simp add: state_after_def)
qed

section \<open>Calls that leave the slave's tables alone\<close>

definition slave_same :: "'m node_scheme state_rel" where
  "slave_same d ev d' ev' \<longleftrightarrow> r_desired d' = r_desired d \<and> r_inbox d' = r_inbox d \<and> r_meta d' = r_meta d \<and> n_sent d' = n_sent d"

interpretation same: rollback_preorder slave_same
  by unfold_locales (simp_all add: slave_same_def)

locale slave_port =
  fixes sv :: "'m node_scheme Service"
  assumes same_AddUser: "keeps slave_same (eg_AddUser (sv_engine sv) u)"
    and same_RemoveUser: "keeps slave_same (eg_RemoveUser (sv_engine sv) e)"
    and same_SyncUsers: "keeps slave_same (eg_SyncUsers (sv_engine sv) us orphans)"
    and same_ReconcileUsers: "sv_ReconcileUsers sv = Some f \<Longrightarrow> keeps slave_same (f us)"
    and same_SyncRealityKeys: "sv_SyncRealityKeys sv = Some g \<Longrightarrow> keeps slave_same (g data)"
    and same_ApplyLocalServerRouting: "keeps slave_same (sv_ApplyLocalServerRouting sv n dir conf)"
begin

lemma same_lift: "keeps slave_same (lift_result r)"
  by (cases r) (simp_all add: lift_result_def same.keeps_rules)

lemma same_on_files: "keeps slave_same (on_files f)"
  unfolding on_files_def by (rule same.keeps_exec) (simp add: slave_same_def)

lemma same_writeSensitive: "keeps slave_same (writeSensitiveArtifact tmp path data)"
  unfolding writeSensitiveArtifact_def Let_def by (intro same.keeps_rules same_on_files same_lift)

lemma same_WriteToFile: "keeps slave_same (WriteToFile n_files n_files_update tmp path data perm)"
proof (rule wp_keeps)
  show "wp (WriteToFile n_files n_files_update tmp path data perm) (\<lambda>_. slave_same d ev) (\<lambda>_. slave_same d ev) d ev" for d ev
    by (rule wp_mono [OF node_files.WriteToFile_wp])
      (auto simp: node_files.replaced_def node_files.kept_def slave_same_def)
qed

lemma same_stat: "keeps slave_same (stat_ok p)"
  unfolding stat_ok_def by (intro same.keeps_rules)

lemma same_routing_dir: "keeps slave_same (routing_dir s)"
  unfolding routing_dir_def Let_def by (auto intro!: same.keeps_rules same_stat)

lemma same_store: "keeps slave_same (PutArtifact k p r)" "keeps slave_same (DeleteArtifact k)"
  unfolding PutArtifact_def DeleteArtifact_def by (intro same.keeps_rules same.keeps_exec; simp add: slave_same_def)+

lemma same_routing: "keeps slave_same (apply_routing_file sv pa rel data)"
  unfolding apply_routing_file_def Let_def
  by (auto intro!: same.keeps_rules same_routing_dir same_WriteToFile same_ApplyLocalServerRouting)

lemma same_keys: "keeps slave_same (case sv_SyncRealityKeys sv of None \<Rightarrow> ret () | Some g \<Rightarrow> map_error h (g data))"
  by (cases "sv_SyncRealityKeys sv") (simp_all add: same.keeps_ret same.keeps_map_error same_SyncRealityKeys)

lemma same_if: "keeps slave_same m \<Longrightarrow> keeps slave_same n \<Longrightarrow> keeps slave_same (if b then m else n)"
  by simp

lemma same_applyArtifact: "keeps slave_same (applyArtifact sv pa p r)"
  unfolding applyArtifact_def Let_def
  by (intro same_if same_keys same.keeps_rules same_lift same_store same_writeSensitive same_routing)

end

section \<open>One event\<close>

text \<open>The tables of a slave but the users, and what a change of the users leaves.\<close>

definition users_changed :: "(string \<rightharpoonup> string) \<Rightarrow> 'm node_scheme \<Rightarrow> 'm node_scheme \<Rightarrow> bool" where
  "users_changed m d d' \<longleftrightarrow> desired_of d' = m \<and> r_inbox d' = r_inbox d \<and> r_meta d' = r_meta d \<and> n_sent d' = n_sent d"

lemma users_changed_same: "slave_same d ev d' ev' \<Longrightarrow> users_changed (desired_of d) d d'"
  by (auto simp: users_changed_def slave_same_def desired_of_def)

lemma users_changed_trans: "users_changed m d d' \<Longrightarrow> slave_same d' ev d'' ev' \<Longrightarrow> users_changed m d d''"
  by (auto simp: users_changed_def slave_same_def desired_of_def)

lemma UpsertDesiredUser_wp:
  assumes "slave_same d0 ev0 d ev"
  shows "wp (UpsertDesiredUser e p r) (\<lambda>_ d' _. users_changed ((desired_of d0)(e \<mapsto> b64_encode p)) d0 d') (\<lambda>_ d' _. users_changed (desired_of d0) d0 d') d ev"
  unfolding UpsertDesiredUser_def
  using assms users_changed_same [OF assms]
  by (intro wp_rules) (auto simp: users_changed_def slave_same_def desired_of_def find_first_put_row)

lemma RemoveDesiredUser_wp:
  assumes "slave_same d0 ev0 d ev"
  shows "wp (RemoveDesiredUser e) (\<lambda>_ d' _. users_changed ((desired_of d0)(e := None)) d0 d') (\<lambda>_ d' _. users_changed (desired_of d0) d0 d') d ev"
  unfolding RemoveDesiredUser_def
  using assms users_changed_same [OF assms]
  by (intro wp_rules) (auto simp: users_changed_def slave_same_def desired_of_def find_first_filter_ne)

definition marked :: "string \<Rightarrow> int \<Rightarrow> 'm node_scheme \<Rightarrow> 'm node_scheme \<Rightarrow> bool" where
  "marked master revision d d' \<longleftrightarrow> (\<exists>row. r_inbox d' = r_inbox d @ [row] \<and> ib_MasterID row = master \<and> ib_Revision row = revision) \<and>
     applied_of d' = revision \<and> desired_of d' = desired_of d \<and> n_sent d' = n_sent d"

lemma PutMeta_marked:
  assumes "in_int64 (ib_Revision row)"
  shows "marked (ib_MasterID row) (ib_Revision row) d (r_inbox_update (\<lambda>rows. rows @ [row]) d
    \<lparr>r_meta := put_row mt_Key \<lparr>mt_Key = ''applied_revision'', mt_Value = fmt_int (ib_Revision row), mt_UpdatedAt = ts\<rparr> (r_meta d)\<rparr>)"
  using assms by (auto simp: marked_def applied_of_def desired_of_def first_by_key find_first_put_row parse_fmt_int)

lemma MarkApplied_wp:
  assumes "in_int64 (re_Revision ev)"
  shows "wp (MarkApplied master ev) (\<lambda>_ d' _. slave_same d [] d' [] \<or> marked master (re_Revision ev) d d') (\<lambda>_ d' _. slave_same d [] d' []) d es"
  unfolding MarkApplied_def PutMeta_def
  using PutMeta_marked [of "\<lparr>ib_MasterID = master, ib_Revision = re_Revision ev, ib_Checksum = re_Checksum ev, ib_AppliedAt = zero_time\<rparr>" d] assms
  by (intro wp_rules) (auto simp: slave_same_def insert_row_def intro!: wp_rules split: if_splits)

section \<open>Events on the stream\<close>

text \<open>An event of the journal that the master can send and the slave can read.\<close>

definition readable :: "json_codec \<Rightarrow> Event \<Rightarrow> bool" where
  "readable codec ev \<longleftrightarrow> re_Checksum ev = checksum (re_Kind ev) (re_Payload ev) \<and> in_int64 (re_Revision ev) \<and>
     length (re_Payload ev) < 2 ^ 56 \<and>
     (if re_Kind ev = eventUserUpsert then (case dec_user codec (re_Payload ev) of Inr u \<Rightarrow> vu_Email u \<noteq> [] | Inl _ \<Rightarrow> False)
      else if re_Kind ev = eventUserRemove then (case dec_remove codec (re_Payload ev) of Inr e \<Rightarrow> e \<noteq> [] | Inl _ \<Rightarrow> False)
      else re_Kind ev = eventArtifact)"

context slave_port
begin

lemma apply_upsert_wp:
  assumes "dec_user (sv_codec sv) (re_Payload ev) = Inr u" and "vu_Email u \<noteq> []"
  shows "wp (apply_upsert sv ev) (\<lambda>_ d' _. users_changed ((desired_of d)(vu_Email u \<mapsto> b64_encode (re_Payload ev))) d d')
    (\<lambda>_ d' _. users_changed (desired_of d) d d') d es"
  unfolding apply_upsert_def assms(1) lift_result_def
  using assms(2)
  by (auto intro!: wp_rules wp_mono [OF keeps_wp [OF same_AddUser]] wp_mono [OF UpsertDesiredUser_wp] dest: users_changed_same)

lemma apply_remove_wp:
  assumes "dec_remove (sv_codec sv) (re_Payload ev) = Inr e" and "e \<noteq> []"
  shows "wp (apply_remove sv ev) (\<lambda>_ d' _. users_changed ((desired_of d)(e := None)) d d')
    (\<lambda>_ d' _. users_changed (desired_of d) d d') d es"
  unfolding apply_remove_def assms(1) lift_result_def
  using assms(2)
  by (auto intro!: wp_rules wp_mono [OF keeps_wp [OF same_RemoveUser]] wp_mono [OF RemoveDesiredUser_wp] dest: users_changed_same)

text \<open>An event that is new to the slave.\<close>

lemma ApplyEvent_wp:
  assumes ok: "readable (sv_codec sv) ev" and new: "\<forall>i \<in> set (r_inbox d). ib_MasterID i = master \<longrightarrow> ib_Revision i \<noteq> re_Revision ev"
  shows "wp (ApplyEvent sv pa master ev)
    (\<lambda>_ d' _. \<exists>d1. users_changed (apply_effect (sv_codec sv) ev (desired_of d)) d d1 \<and> (slave_same d1 [] d' [] \<or> marked master (re_Revision ev) d1 d'))
    (\<lambda>_ d' _. users_changed (desired_of d) d d' \<or> users_changed (apply_effect (sv_codec sv) ev (desired_of d)) d d') d es"
proof -
  have int: "in_int64 (re_Revision ev)" using ok by (simp add: readable_def)
  define body where "body = (if re_Kind ev = eventUserUpsert then apply_upsert sv ev
     else if re_Kind ev = eventUserRemove then apply_remove sv ev
     else if re_Kind ev = eventArtifact then applyArtifact sv pa (re_Payload ev) (re_Revision ev)
     else if re_Kind ev = eventResnapshot then fail (Err ''received unexpanded replication resnapshot marker'')
     else fail (Err (''unknown replication event kind '' @ go_quote (re_Kind ev))))"
  have kinds: "eventArtifact \<noteq> eventUserUpsert" "eventArtifact \<noteq> eventUserRemove" "eventUserRemove \<noteq> eventUserUpsert"
    by (simp_all add: eventArtifact_def eventUserUpsert_def eventUserRemove_def)
  have body: "wp body (\<lambda>_ d' _. users_changed (apply_effect (sv_codec sv) ev (desired_of d)) d d') (\<lambda>_ d' _. users_changed (desired_of d) d d') d es"
  proof -
    consider u where "re_Kind ev = eventUserUpsert" "dec_user (sv_codec sv) (re_Payload ev) = Inr u" "vu_Email u \<noteq> []"
      | e where "re_Kind ev = eventUserRemove" "dec_remove (sv_codec sv) (re_Payload ev) = Inr e" "e \<noteq> []"
      | "re_Kind ev = eventArtifact" using ok by (auto simp: readable_def split: if_splits sum.splits)
    then show ?thesis
    proof cases
      case 1
      then show ?thesis using apply_upsert_wp [OF 1(2,3)] by (simp add: body_def apply_effect_def effect_of_def)
    next
      case 2
      then show ?thesis using apply_remove_wp [OF 2(2,3)] kinds by (simp add: body_def apply_effect_def effect_of_def)
    next
      case 3
      then have "wp body (\<lambda>_. slave_same d es) (\<lambda>_. slave_same d es) d es"
        using keeps_wp [OF same_applyArtifact] kinds by (simp add: body_def)
      then show ?thesis
        by (rule wp_mono) (use 3 kinds in \<open>auto simp: apply_effect_def effect_of_def dest: users_changed_same\<close>)
    qed
  qed
  have same: "users_changed (desired_of d) d d" by (simp add: users_changed_def)
  have mark: "wp (MarkApplied master ev)
      (\<lambda>_ d' _. \<exists>d1. users_changed (apply_effect (sv_codec sv) ev (desired_of d)) d d1 \<and> (slave_same d1 [] d' [] \<or> marked master (re_Revision ev) d1 d'))
      (\<lambda>_ d' _. users_changed (desired_of d) d d' \<or> users_changed (apply_effect (sv_codec sv) ev (desired_of d)) d d') d1 es1"
    if "users_changed (apply_effect (sv_codec sv) ev (desired_of d)) d d1" for d1 es1
    by (rule wp_mono [OF MarkApplied_wp [OF int]]) (use that in \<open>auto dest: users_changed_trans\<close>)
  have fresh: "\<not> 0 < count_rows (\<lambda>i. ib_MasterID i = master \<and> ib_Revision i = re_Revision ev) (r_inbox d)"
    using new by (auto simp: count_rows_pos)
  have sum: "checksum (re_Kind ev) (re_Payload ev) = re_Checksum ev" using ok by (simp add: readable_def)
  show ?thesis
    unfolding ApplyEvent_def body_def [symmetric] AlreadyApplied_def
    by (simp only: sum simp_thms if_False, intro wp_rules)
      (use same fresh in \<open>auto intro!: wp_rules wp_mono [OF body] mark\<close>)
qed

end

section \<open>The frames of the journal\<close>

lemma kinds_ascii: "ascii eventUserUpsert" "ascii eventUserRemove" "ascii eventArtifact"
  by (simp_all add: ascii_def eventUserUpsert_def eventUserRemove_def eventArtifact_def)

lemma readable_kind: "readable codec ev \<Longrightarrow> re_Kind ev \<in> {eventUserUpsert, eventUserRemove, eventArtifact}"
  by (auto simp: readable_def split: if_splits)

lemma event_frame_length:
  assumes "readable codec ev"
  shows "length (Payload (event_frame ev)) < 2 ^ 63"
proof -
  have k: "length (re_Kind ev) \<le> 15" using readable_kind [OF assms] by (auto simp: eventUserUpsert_def eventUserRemove_def eventArtifact_def)
  have c: "length (re_Checksum ev) \<le> 64" using assms length_checksum by (simp add: readable_def)
  have p: "length (b64_encode (re_Payload ev)) < 2 ^ 58" using assms length_b64 [of "re_Payload ev"] by (simp add: readable_def)
  have keys: "length (quoted ''kind'') \<le> 26" "length (quoted ''checksum'') \<le> 50" "length (quoted ''payload'') \<le> 44"
    using length_quoted [of "''kind''"] length_quoted [of "''checksum''"] length_quoted [of "''payload''"] by simp_all
  show ?thesis
    using k c p keys length_quoted [of "re_Kind ev"] length_quoted [of "re_Checksum ev"] length_quoted [of "b64_encode (re_Payload ev)"]
    by (simp add: event_frame_def frame_of_def json_marshal_def wire_json_def bytes_of_def)
qed

lemma slave_event_frame:
  assumes "readable codec ev"
  shows "Unmarshal (Marshal (event_frame ev)) = Inr (event_frame ev)"
    "slave_event sv c (event_frame ev) =
       bind (ApplyEvent sv (paths_of c) (cf_MasterAddress c) ev) (\<lambda>_. sendFrame (frame_of KindAck (re_Revision ev) []))"
proof -
  have eta: "\<lparr>re_Revision = re_Revision ev, re_Kind = re_Kind ev, re_Payload = re_Payload ev, re_Checksum = re_Checksum ev\<rparr> = ev" by simp
  show "Unmarshal (Marshal (event_frame ev)) = Inr (event_frame ev)"
    by (rule unmarshal_marshal) (rule event_frame_length [OF assms])
  have "ascii (re_Kind ev)" using readable_kind [OF assms] kinds_ascii by auto
  moreover have "ascii (re_Checksum ev)" using assms ascii_hex by (simp add: readable_def checksum_def)
  ultimately have "json_unmarshal wire_of (Payload (event_frame ev)) =
      Inr \<lparr>we_Kind = re_Kind ev, we_Checksum = re_Checksum ev, we_Payload = b64_encode (re_Payload ev)\<rparr>"
    using wire_roundtrip ascii_b64 by (simp add: event_frame_def frame_of_def valid_ascii)
  moreover have "sint (Revision (event_frame ev)) = re_Revision ev"
    using assms sint_revision by (simp add: readable_def event_frame_def frame_of_def)
  ultimately show "slave_event sv c (event_frame ev) =
       bind (ApplyEvent sv (paths_of c) (cf_MasterAddress c) ev) (\<lambda>_. sendFrame (frame_of KindAck (re_Revision ev) []))"
    by (simp add: slave_event_def lift_result_def bind_def ret_def fun_eq_iff eta)
qed

lemma slave_frame_event:
  "readable codec ev \<Longrightarrow> slave_frame sv c ack active (event_frame ev) = bind (slave_event sv c (event_frame ev)) (\<lambda>_. ret active)"
  by (simp add: slave_frame_def event_frame_def frame_of_def kind_byte_def)

section \<open>Sessions\<close>

text \<open>
  A master sends the events after the revision of the hello, in order; a session is a prefix of them. Several
  sessions follow one another, each from the revision the slave has recorded by then.
\<close>

definition pending :: "Event list \<Rightarrow> 'm node_scheme \<Rightarrow> Event list" where
  "pending J d = filter (\<lambda>ev. applied_of d < re_Revision ev) J"

definition session ::
  "'m node_scheme Service \<Rightarrow> Config \<Rightarrow> (string list \<Rightarrow> ('m node_scheme, unit) prog) option \<Rightarrow> Event list \<Rightarrow> nat \<Rightarrow> 'm node_scheme world \<Rightarrow> 'm node_scheme world"
where
  "session sv c ack J n w = snd (receiveSlaveFrames sv c ack [] (map (\<lambda>ev. Marshal (event_frame ev)) (take n (pending J (w_db w)))) w)"

fun sessions ::
  "'m node_scheme Service \<Rightarrow> Config \<Rightarrow> (string list \<Rightarrow> ('m node_scheme, unit) prog) option \<Rightarrow> Event list \<Rightarrow> nat list \<Rightarrow> 'm node_scheme world \<Rightarrow> 'm node_scheme world"
where
  "sessions sv c ack J [] w = w"
| "sessions sv c ack J (n # ns) w = sessions sv c ack J ns (session sv c ack J n w)"

definition journal :: "json_codec \<Rightarrow> Event list \<Rightarrow> bool" where
  "journal codec J \<longleftrightarrow> sorted_wrt (\<lambda>a b. re_Revision a < re_Revision b) J \<and> list_all (readable codec) J"

text \<open>The number of events up to the recorded revision.\<close>

definition position :: "Event list \<Rightarrow> 'm node_scheme \<Rightarrow> nat" where
  "position J d = length (filter (\<lambda>ev. re_Revision ev \<le> applied_of d) J)"

definition follows :: "json_codec \<Rightarrow> string \<Rightarrow> Event list \<Rightarrow> (string \<rightharpoonup> string) \<Rightarrow> nat \<Rightarrow> 'm node_scheme \<Rightarrow> bool" where
  "follows codec master J m0 r d \<longleftrightarrow> between codec J m0 r (length J) (desired_of d) \<and> position J d \<le> r \<and> r \<le> length J \<and>
     (\<forall>i \<in> set (r_inbox d). ib_MasterID i = master \<longrightarrow> ib_Revision i \<le> applied_of d)"

lemma follows_sent [simp]: "follows codec master J m0 r (d\<lparr>n_sent := x\<rparr>) = follows codec master J m0 r d"
proof -
  have "desired_of (d\<lparr>n_sent := x\<rparr>) = desired_of d" by (simp add: desired_of_def fun_eq_iff)
  then show ?thesis by (simp add: follows_def position_def applied_of_def)
qed

lemma sorted_split:
  assumes "sorted_wrt (\<lambda>a b. re_Revision a < re_Revision b) J"
  shows "filter (\<lambda>ev. re_Revision ev \<le> a) J = take (length (filter (\<lambda>ev. re_Revision ev \<le> a) J)) J"
    "filter (\<lambda>ev. a < re_Revision ev) J = drop (length (filter (\<lambda>ev. re_Revision ev \<le> a) J)) J"
proof -
  have "filter (\<lambda>ev. re_Revision ev \<le> a) J = take (length (filter (\<lambda>ev. re_Revision ev \<le> a) J)) J \<and>
      filter (\<lambda>ev. a < re_Revision ev) J = drop (length (filter (\<lambda>ev. re_Revision ev \<le> a) J)) J" using assms
  proof (induction J)
    case (Cons x xs)
    show ?case
    proof (cases "re_Revision x \<le> a")
      case True
      then show ?thesis using Cons by simp
    next
      case False
      then have "filter (\<lambda>ev. re_Revision ev \<le> a) xs = []" "filter (\<lambda>ev. a < re_Revision ev) xs = xs"
        using Cons.prems by (auto simp: filter_empty_conv filter_id_conv intro: order_trans)
      then show ?thesis using False by simp
    qed
  qed simp
  then show "filter (\<lambda>ev. re_Revision ev \<le> a) J = take (length (filter (\<lambda>ev. re_Revision ev \<le> a) J)) J"
    "filter (\<lambda>ev. a < re_Revision ev) J = drop (length (filter (\<lambda>ev. re_Revision ev \<le> a) J)) J" by blast+
qed

lemma pending_drop: "journal codec J \<Longrightarrow> pending J d = drop (position J d) J"
  unfolding pending_def position_def by (rule sorted_split(2)) (simp add: journal_def)

lemma position_next:
  assumes "journal codec J" and "position J d \<le> r" and "r < length J"
  shows "applied_of d < re_Revision (J ! r)"
proof -
  have "J ! r = drop (position J d) J ! (r - position J d)" using assms(2,3) by simp
  also have "\<dots> \<in> set (pending J d)" unfolding pending_drop [OF assms(1)] by (rule nth_mem) (use assms in simp)
  finally show ?thesis by (simp add: pending_def)
qed

lemma position_marked:
  assumes "journal codec J" and "r < length J" and "applied_of d = re_Revision (J ! r)"
  shows "position J d \<le> Suc r"
proof (rule ccontr)
  assume "\<not> position J d \<le> Suc r"
  moreover have "position J d \<le> length J" by (simp add: position_def)
  ultimately have r: "Suc r < length J" "Suc r < position J d" by simp_all
  have "J ! Suc r = take (position J d) J ! Suc r" using r by simp
  also have "\<dots> \<in> set (filter (\<lambda>ev. re_Revision ev \<le> applied_of d) J)"
    using sorted_split(1) [of J "applied_of d"] assms(1) r unfolding journal_def position_def by (metis nth_mem)
  finally have "re_Revision (J ! Suc r) \<le> re_Revision (J ! r)" using assms(3) by simp
  moreover have "re_Revision (J ! r) < re_Revision (J ! Suc r)"
    using assms(1) r(1) by (auto simp: journal_def sorted_wrt_iff_nth_less)
  ultimately show False by simp
qed

context slave_port
begin

lemma event_step_wp:
  assumes J: "journal (sv_codec sv) J" and f: "follows (sv_codec sv) (cf_MasterAddress c) J m0 r d" and r: "r < length J"
  shows "wp (slave_event sv c (event_frame (J ! r)))
    (\<lambda>_ d' _. follows (sv_codec sv) (cf_MasterAddress c) J m0 (Suc r) d' \<and> length (n_sent d') = Suc (length (n_sent d)))
    (\<lambda>_ d' _. \<exists>r' \<ge> r. follows (sv_codec sv) (cf_MasterAddress c) J m0 r' d' \<and> n_sent d' = n_sent d) d es"
proof -
  let ?ev = "J ! r" and ?F = "follows (sv_codec sv) (cf_MasterAddress c) J m0"
  have ok: "readable (sv_codec sv) ?ev" using J r by (simp add: journal_def list_all_length)
  have before: "applied_of d < re_Revision ?ev" using position_next [OF J _ r, of d] f by (simp add: follows_def)
  have new: "\<forall>i \<in> set (r_inbox d). ib_MasterID i = cf_MasterAddress c \<longrightarrow> ib_Revision i \<noteq> re_Revision ?ev"
    using f before by (auto simp: follows_def)
  have step: "between (sv_codec sv) J m0 (Suc r) (length J) (apply_effect (sv_codec sv) ?ev (desired_of d))"
    using between_step [of "sv_codec sv" J m0 r "length J" "desired_of d"] f r by (simp add: follows_def max_absorb1)
  have kept: "?F r' d'" if "users_changed m d d'" "between (sv_codec sv) J m0 r' (length J) m" "r \<le> r'" "r' \<le> length J" for m d' r'
    using that f by (auto simp: follows_def users_changed_def position_def applied_of_def)
  have old: "\<exists>r' \<ge> r. ?F r' d' \<and> n_sent d' = n_sent d" if "users_changed (desired_of d) d d'" for d'
    using kept [OF that _ le_refl] f that by (auto simp: follows_def users_changed_def)
  have applied: "?F (Suc r) d' \<and> n_sent d' = n_sent d" if "users_changed (apply_effect (sv_codec sv) ?ev (desired_of d)) d d'" for d'
    using kept [OF that step] r that by (auto simp: users_changed_def)
  have recorded: "?F (Suc r) d' \<and> n_sent d' = n_sent d"
    if c: "users_changed (apply_effect (sv_codec sv) ?ev (desired_of d)) d d1" and m: "marked (cf_MasterAddress c) (re_Revision ?ev) d1 d'" for d1 d'
  proof -
    have a: "applied_of d' = re_Revision ?ev" using m by (simp add: marked_def)
    have "\<forall>i \<in> set (r_inbox d'). ib_MasterID i = cf_MasterAddress c \<longrightarrow> ib_Revision i \<le> applied_of d'"
      using m c f before unfolding a by (auto simp: marked_def users_changed_def follows_def)
    then show ?thesis using step position_marked [OF J r a] r m c by (auto simp: follows_def marked_def users_changed_def)
  qed
  have sent: "wp (sendFrame fr) (\<lambda>_ d' _. ?F (Suc r) d' \<and> length (n_sent d') = Suc (length (n_sent d)))
      (\<lambda>_ d' _. \<exists>r' \<ge> r. ?F r' d' \<and> n_sent d' = n_sent d) d1 es1" if "?F (Suc r) d1 \<and> n_sent d1 = n_sent d" for fr d1 es1
    unfolding sendFrame_def
    by (intro wp_rules) (use that in \<open>auto intro!: exI [of _ "Suc r"]\<close>)
  have success: "?F (Suc r) d' \<and> n_sent d' = n_sent d"
    if "\<exists>d1. users_changed (apply_effect (sv_codec sv) ?ev (desired_of d)) d d1 \<and> (slave_same d1 [] d' [] \<or> marked (cf_MasterAddress c) (re_Revision ?ev) d1 d')"
    for d' using that applied recorded users_changed_trans by blast
  have failure: "\<exists>r' \<ge> r. ?F r' d' \<and> n_sent d' = n_sent d"
    if "users_changed (desired_of d) d d' \<or> users_changed (apply_effect (sv_codec sv) ?ev (desired_of d)) d d'" for d'
    using that old applied by (meson Suc_leD le_refl)
  show ?thesis
    unfolding slave_event_frame(2) [OF ok]
    by (rule wp_bind, rule wp_mono [OF ApplyEvent_wp [OF ok new]]) (erule sent [OF success], erule failure)
qed

lemma receive_wp:
  assumes J: "journal (sv_codec sv) J"
  shows "follows (sv_codec sv) (cf_MasterAddress c) J m0 r d \<Longrightarrow> r + n \<le> length J \<Longrightarrow>
    wp (receiveSlaveFrames sv c ack active (map (\<lambda>ev. Marshal (event_frame ev)) (take n (drop r J)))) (\<lambda>_ _ _. False)
      (\<lambda>_ d' _. \<exists>r'. follows (sv_codec sv) (cf_MasterAddress c) J m0 r' d' \<and> length (n_sent d') \<le> length (n_sent d) + n \<and>
         (length (n_sent d') = length (n_sent d) + n \<longrightarrow> r + n \<le> r')) d es"
proof (induction n arbitrary: r d es)
  case 0
  then show ?case by (auto intro!: wp_rules)
next
  case (Suc n r d es)
  let ?E = "\<lambda>_ d' _. \<exists>r'. follows (sv_codec sv) (cf_MasterAddress c) J m0 r' d' \<and> length (n_sent d') \<le> length (n_sent d) + Suc n \<and>
         (length (n_sent d') = length (n_sent d) + Suc n \<longrightarrow> r + Suc n \<le> r')"
  have r: "r < length J" using Suc.prems by simp
  have ok: "readable (sv_codec sv) (J ! r)" using J r by (simp add: journal_def list_all_length)
  have split: "take (Suc n) (drop r J) = J ! r # take n (drop (Suc r) J)" using r by (simp add: Cons_nth_drop_Suc [symmetric])
  have rest: "wp (receiveSlaveFrames sv c ack active (map (\<lambda>ev. Marshal (event_frame ev)) (take n (drop (Suc r) J)))) (\<lambda>_ _ _. False) ?E d1 es1"
    if "follows (sv_codec sv) (cf_MasterAddress c) J m0 (Suc r) d1 \<and> length (n_sent d1) = Suc (length (n_sent d))" for d1 es1
    by (rule wp_mono [OF Suc.IH [of "Suc r" d1]]) (use that Suc.prems in auto)
  have "wp (slave_frame sv c ack active (event_frame (J ! r)))
      (\<lambda>a. wp (receiveSlaveFrames sv c ack a (map (\<lambda>ev. Marshal (event_frame ev)) (take n (drop (Suc r) J)))) (\<lambda>_ _ _. False) ?E) ?E d es"
    unfolding slave_frame_event [OF ok]
    by (intro wp_rules, rule wp_mono [OF event_step_wp [OF J Suc.prems(1) r]]) (rule wp_ret, erule rest, force)
  note frame = this
  have "receiveSlaveFrames sv c ack active (map (\<lambda>ev. Marshal (event_frame ev)) (take (Suc n) (drop r J))) =
      bind (ret (event_frame (J ! r))) (\<lambda>fr. bind (slave_frame sv c ack active fr) (\<lambda>a.
        receiveSlaveFrames sv c ack a (map (\<lambda>ev. Marshal (event_frame ev)) (take n (drop (Suc r) J)))))"
    by (simp only: split list.map receiveSlaveFrames.simps slave_event_frame(1) [OF ok] lift_result_def sum.case)
  then show ?case using wp_bind [OF frame] by (simp only:) (rule wp_bind, rule wp_ret)
qed

text \<open>One session, from any state in which the slave follows the journal.\<close>

lemma session_follows:
  assumes J: "journal (sv_codec sv) J" and f: "follows (sv_codec sv) (cf_MasterAddress c) J m0 (position J (w_db w)) (w_db w)"
    and w': "w' = session sv c ack J n w"
  shows "\<exists>r. follows (sv_codec sv) (cf_MasterAddress c) J m0 r (w_db w') \<and>
    (length (n_sent (w_db w')) = length (n_sent (w_db w)) + length (pending J (w_db w)) \<longrightarrow> r = length J)"
proof -
  define p k where "p = position J (w_db w)" and "k = min n (length J - p)"
  have p: "p \<le> length J" by (simp add: p_def position_def)
  have pend: "take n (pending J (w_db w)) = take k (drop p J)" "length (pending J (w_db w)) = length J - p"
    using pending_drop [OF J, of "w_db w"] by (simp_all add: p_def k_def take_all_iff min_def)
  obtain res where run: "receiveSlaveFrames sv c ack [] (map (\<lambda>ev. Marshal (event_frame ev)) (take k (drop p J))) w = (res, w')"
    using w' pend by (cases "receiveSlaveFrames sv c ack [] (map (\<lambda>ev. Marshal (event_frame ev)) (take k (drop p J))) w") (simp add: session_def)
  have "p + k \<le> length J" using p by (simp add: k_def)
  from wpD [OF receive_wp [OF J f [folded p_def] this] run]
  obtain r where r: "follows (sv_codec sv) (cf_MasterAddress c) J m0 r (w_db w')" "length (n_sent (w_db w')) \<le> length (n_sent (w_db w)) + k"
    "length (n_sent (w_db w')) = length (n_sent (w_db w)) + k \<longrightarrow> p + k \<le> r" by (cases res) auto
  have "r \<le> length J" using r(1) by (simp add: follows_def)
  moreover have "k \<le> length J - p" by (simp add: k_def)
  ultimately show ?thesis using r p pend(2) by (intro exI [of _ r]) auto
qed

end

section \<open>Sessions without faults\<close>

text \<open>An engine that carries out every change.\<close>

locale slave_answers = slave_port +
  assumes answers_AddUser: "calm_wp UNIV (eg_AddUser (sv_engine sv) u) (\<lambda>_ _ _. True) (\<lambda>_ _ _. False) d es"
    and answers_RemoveUser: "calm_wp UNIV (eg_RemoveUser (sv_engine sv) e) (\<lambda>_ _ _. True) (\<lambda>_ _ _. False) d es"
begin

lemma ApplyEvent_answers:
  assumes ok: "readable (sv_codec sv) ev" and kind: "re_Kind ev \<noteq> eventArtifact"
  shows "calm_wp UNIV (ApplyEvent sv pa master ev) (\<lambda>_ _ _. True) (\<lambda>_ _ _. False) d es"
proof -
  have sum: "checksum (re_Kind ev) (re_Payload ev) = re_Checksum ev" using ok by (simp add: readable_def)
  have unique: "isUniqueConstraint unique_violation" by (simp add: isUniqueConstraint_def unique_violation_def)
  have mark: "calm_wp UNIV (MarkApplied master ev) (\<lambda>_ _ _. True) (\<lambda>_ _ _. False) d1 es1" for d1 es1
    unfolding MarkApplied_def PutMeta_def
    by (intro calm_rules) (auto simp: insert_row_def unique intro!: calm_rules split: if_splits)
  consider u where "re_Kind ev = eventUserUpsert" "dec_user (sv_codec sv) (re_Payload ev) = Inr u" "vu_Email u \<noteq> []"
    | e where "re_Kind ev = eventUserRemove" "re_Kind ev \<noteq> eventUserUpsert" "dec_remove (sv_codec sv) (re_Payload ev) = Inr e" "e \<noteq> []"
    using ok kind by (auto simp: readable_def split: if_splits sum.splits)
  then show ?thesis
  proof cases
    case 1
    have "calm_wp UNIV (apply_upsert sv ev) (\<lambda>_. calm_wp UNIV (MarkApplied master ev) (\<lambda>_ _ _. True) (\<lambda>_ _ _. False)) (\<lambda>_ _ _. False) d es"
      unfolding apply_upsert_def 1(2) lift_result_def UpsertDesiredUser_def using 1(3)
      by (auto intro!: calm_rules mark calm_mono [OF answers_AddUser])
    then show ?thesis
      unfolding ApplyEvent_def AlreadyApplied_def
      by (simp only: sum sum [unfolded 1(1)] 1(1) simp_thms if_False if_True) (auto intro!: calm_rules)
  next
    case 2
    have "calm_wp UNIV (apply_remove sv ev) (\<lambda>_. calm_wp UNIV (MarkApplied master ev) (\<lambda>_ _ _. True) (\<lambda>_ _ _. False)) (\<lambda>_ _ _. False) d es"
      unfolding apply_remove_def 2(3) lift_result_def RemoveDesiredUser_def using 2(4)
      by (auto intro!: calm_rules mark calm_mono [OF answers_RemoveUser])
    then show ?thesis
      unfolding ApplyEvent_def AlreadyApplied_def using 2(1,2)
      by (simp only: sum sum [unfolded 2(1)] simp_thms if_False if_True) (auto intro!: calm_rules)
  qed
qed

lemma event_step_calm:
  assumes J: "journal (sv_codec sv) J" and f: "follows (sv_codec sv) (cf_MasterAddress c) J m0 r d" and r: "r < length J"
    and kind: "re_Kind (J ! r) \<noteq> eventArtifact"
  shows "calm_wp UNIV (slave_event sv c (event_frame (J ! r)))
    (\<lambda>_ d' _. follows (sv_codec sv) (cf_MasterAddress c) J m0 (Suc r) d' \<and> length (n_sent d') = Suc (length (n_sent d)))
    (\<lambda>_ _ _. False) d es"
proof -
  have ok: "readable (sv_codec sv) (J ! r)" using J r by (simp add: journal_def list_all_length)
  have "calm_wp UNIV (slave_event sv c (event_frame (J ! r))) (\<lambda>_ _ _. True) (\<lambda>_ _ _. False) d es"
    unfolding slave_event_frame(2) [OF ok] sendFrame_def
    by (intro calm_rules calm_mono [OF ApplyEvent_answers [OF ok kind]]) (auto intro!: calm_rules)
  from calm_and_wp [OF this event_step_wp [OF J f r]] show ?thesis by (rule calm_mono) auto
qed

lemma receive_calm:
  assumes J: "journal (sv_codec sv) J" and kinds: "\<forall>ev \<in> set J. re_Kind ev \<noteq> eventArtifact"
  shows "follows (sv_codec sv) (cf_MasterAddress c) J m0 r d \<Longrightarrow> r + n \<le> length J \<Longrightarrow>
    calm_wp UNIV (receiveSlaveFrames sv c ack active (map (\<lambda>ev. Marshal (event_frame ev)) (take n (drop r J)))) (\<lambda>_ _ _. False)
      (\<lambda>_ d' _. length (n_sent d') = length (n_sent d) + n) d es"
proof (induction n arbitrary: r d es)
  case 0
  then show ?case by (auto intro!: calm_rules)
next
  case (Suc n r d es)
  have r: "r < length J" using Suc.prems by simp
  have ok: "readable (sv_codec sv) (J ! r)" using J r by (simp add: journal_def list_all_length)
  have split: "take (Suc n) (drop r J) = J ! r # take n (drop (Suc r) J)" using r by (simp add: Cons_nth_drop_Suc [symmetric])
  have kind: "re_Kind (J ! r) \<noteq> eventArtifact" using kinds r by simp
  have rest: "calm_wp UNIV (receiveSlaveFrames sv c ack active (map (\<lambda>ev. Marshal (event_frame ev)) (take n (drop (Suc r) J)))) (\<lambda>_ _ _. False)
      (\<lambda>_ d' _. length (n_sent d') = length (n_sent d) + Suc n) d1 es1"
    if "follows (sv_codec sv) (cf_MasterAddress c) J m0 (Suc r) d1 \<and> length (n_sent d1) = Suc (length (n_sent d))" for d1 es1
    by (rule calm_mono [OF Suc.IH [of "Suc r" d1]]) (use that Suc.prems in auto)
  have frame: "calm_wp UNIV (slave_frame sv c ack active (event_frame (J ! r)))
      (\<lambda>a. calm_wp UNIV (receiveSlaveFrames sv c ack a (map (\<lambda>ev. Marshal (event_frame ev)) (take n (drop (Suc r) J)))) (\<lambda>_ _ _. False)
         (\<lambda>_ d' _. length (n_sent d') = length (n_sent d) + Suc n)) (\<lambda>_ d' _. length (n_sent d') = length (n_sent d) + Suc n) d es"
    unfolding slave_frame_event [OF ok]
    by (rule calm_bind, rule calm_mono [OF event_step_calm [OF J Suc.prems(1) r kind]]) (rule calm_ret, erule rest, simp)
  have "receiveSlaveFrames sv c ack active (map (\<lambda>ev. Marshal (event_frame ev)) (take (Suc n) (drop r J))) =
      bind (ret (event_frame (J ! r))) (\<lambda>fr. bind (slave_frame sv c ack active fr) (\<lambda>a.
        receiveSlaveFrames sv c ack a (map (\<lambda>ev. Marshal (event_frame ev)) (take n (drop (Suc r) J)))))"
    by (simp only: split list.map receiveSlaveFrames.simps slave_event_frame(1) [OF ok] lift_result_def sum.case)
  then show ?case using calm_bind [OF frame] by (simp only:) (rule calm_bind, rule calm_ret)
qed

end

section \<open>The engine that does nothing\<close>

definition noop_service :: "json_codec \<Rightarrow> (string \<Rightarrow> bool) \<Rightarrow> (string \<Rightarrow> string) \<Rightarrow> 'd Service" where
  "noop_service codec isUUID tmp = \<lparr>sv_engine = NoopEngine, sv_TemplateUserSnapshot = None, sv_ReconcileUsers = None,
     sv_SyncRealityKeys = None, sv_ApplyLocalServerRouting = (\<lambda>_ _ _. ret ()), sv_codec = codec, sv_isUUID = isUUID, sv_tmp = tmp\<rparr>"

interpretation noop_slave: slave_answers "noop_service codec isUUID tmp"
  by unfold_locales (auto simp: noop_service_def NoopEngine_def same.keeps_ret intro!: calm_rules)

section \<open>The slave follows its master\<close>

lemma follows_start:
  assumes "\<forall>ev \<in> set J. applied_of d < re_Revision ev" and "\<forall>i \<in> set (r_inbox d). ib_MasterID i = master \<longrightarrow> ib_Revision i \<le> applied_of d"
  shows "follows codec master J (desired_of d) (position J d) d"
proof -
  have "position J d = 0" using assms(1) by (auto simp: position_def filter_empty_conv not_le)
  moreover have "between codec J (desired_of d) 0 (length J) (desired_of d)" by (auto simp: between_def state_after_def intro!: exI [of _ 0])
  ultimately show ?thesis using assms(2) by (simp add: follows_def)
qed

lemma follows_position: "follows codec master J m0 r d \<Longrightarrow> follows codec master J m0 (position J d) d"
  unfolding follows_def using between_mono [of codec J m0 r "length J" "desired_of d" "position J d" "length J"] by auto

lemma sessions_follow:
  assumes "slave_port sv" and "journal (sv_codec sv) J"
  shows "follows (sv_codec sv) (cf_MasterAddress c) J m0 (position J (w_db w)) (w_db w) \<Longrightarrow>
    follows (sv_codec sv) (cf_MasterAddress c) J m0 (position J (w_db (sessions sv c ack J ns w))) (w_db (sessions sv c ack J ns w))"
proof (induction ns arbitrary: w)
  case (Cons n ns)
  from slave_port.session_follows [OF assms Cons.prems refl]
  show ?case using Cons.IH follows_position by fastforce
qed simp

text \<open>
  C10: A slave that has just taken a snapshot and then gets the later events of its master over any number of
  sessions, each cut off anywhere and with any statement, engine call or acknowledgement failing, has for
  every user a state that the journal gave the user at or after the recorded revision. When a session
  acknowledges all events that were outstanding, its users are exactly those of the whole journal.
\<close>

theorem slave_follows_journal:
  assumes "slave_port sv" and "journal (sv_codec sv) J" and "\<forall>ev \<in> set J. applied_of (w_db w) < re_Revision ev"
    and "\<forall>i \<in> set (r_inbox (w_db w)). ib_MasterID i = cf_MasterAddress c \<longrightarrow> ib_Revision i \<le> applied_of (w_db w)"
    and "w' = sessions sv c ack J ns w" and "w'' = session sv c ack J n w'"
  shows "(\<forall>e. \<exists>k. position J (w_db w') \<le> k \<and> k \<le> length J \<and>
      desired_of (w_db w') e = state_after (sv_codec sv) J (desired_of (w_db w)) k e) \<and>
    (length (n_sent (w_db w'')) = length (n_sent (w_db w')) + length (pending J (w_db w')) \<longrightarrow>
      desired_of (w_db w'') = state_after (sv_codec sv) J (desired_of (w_db w)) (length J))"
proof -
  have f: "follows (sv_codec sv) (cf_MasterAddress c) J (desired_of (w_db w)) (position J (w_db w')) (w_db w')"
    unfolding assms(5) by (rule sessions_follow [OF assms(1,2)]) (rule follows_start [OF assms(3,4)])
  obtain r where "follows (sv_codec sv) (cf_MasterAddress c) J (desired_of (w_db w)) r (w_db w'')"
      "length (n_sent (w_db w'')) = length (n_sent (w_db w')) + length (pending J (w_db w')) \<longrightarrow> r = length J"
    using slave_port.session_follows [OF assms(1,2) f assms(6)] by blast
  then show ?thesis using f between_end by (auto simp: follows_def between_def)
qed


definition demo_user_config :: VPNUserConfig where
  "demo_user_config = \<lparr>vu_Email = ''a@x'', vu_UUID = ''1'', vu_Auth = [], vu_Subfile = [], vu_Expire = [], vu_MaxDevices = 3, vu_Flow = [],
     vu_Cipher = [], vu_PlanEngineIDs = [], vu_SubscriptionEngineIDs = [''e1'']\<rparr>"

text \<open>A codec that writes and reads as the transport does.\<close>

definition demo_codec :: json_codec where
  "demo_codec = \<lparr>enc_user = (\<lambda>u. Inr (json_marshal (user_json u))), dec_user = json_unmarshal user_of,
     enc_remove = (\<lambda>e. Inr (json_marshal (RObj [(''email'', RStr e)]))), dec_remove = json_unmarshal (json_field as_str [] ''email''),
     enc_artifact = (\<lambda>a. Inr (json_marshal (artifact_json a))),
     dec_artifact = json_unmarshal (\<lambda>es. then_result (json_field as_str [] ''kind'' es) (\<lambda>k.
       then_result (json_field as_str [] ''data'' es) (\<lambda>b. Inr \<lparr>ap_Kind = k, ap_Data = b\<rparr>))),
     enc_users = (\<lambda>us. Inr (json_marshal (RArr (map user_json us))))\<rparr>"

definition demo_event :: "int \<Rightarrow> string \<Rightarrow> byte list \<Rightarrow> Event" where
  "demo_event revision k payload = \<lparr>re_Revision = revision, re_Kind = k, re_Payload = payload, re_Checksum = checksum k payload\<rparr>"

definition demo_journal :: "Event list" where
  "demo_journal = [demo_event 6 eventUserUpsert (json_marshal (user_json demo_user_config)),
     demo_event 7 eventUserRemove (json_marshal (RObj [(''email'', RStr ''a@x'')]))]"

definition demo_node :: node where
  "demo_node = \<lparr>t_dialect = Sqlite, t_users = [], t_subs = [], t_devices = [], t_payments = [], t_plans = [], t_promos = [], t_rewards = [],
     t_notifs = [], t_bans = [], t_seq_devices = 0, t_seq_payments = 0, t_seq_plans = 0, t_seq_promos = 0, t_seq_rewards = 0, t_seq_bans = 0,
     r_outbox = [], r_seq_outbox = 0, r_desired = [], r_inbox = [],
     r_meta = [\<lparr>mt_Key = ''applied_revision'', mt_Value = ''5'', mt_UpdatedAt = 0\<rparr>], r_artifacts = [], r_staging = [], r_replicas = [],
     r_stats = [], r_fraud_out = [], r_fraud_in = [], n_files = Map.empty, n_dirs = [], n_sent = []\<rparr>"

definition node_world :: "(nat \<Rightarrow> error option) \<Rightarrow> node world" where
  "node_world fault = \<lparr>w_db = demo_node, w_stmt = 0, w_fault = fault, w_tick = 0, w_clock = (\<lambda>_. 0), w_intx = False, w_events = []\<rparr>"

definition slave_config :: Config where
  "slave_config = default_config\<lparr>cf_Mode := ''slave'', cf_NodeID := ''n1'', cf_MasterAddress := ''m:1''\<rparr>"

lemma demo_journal_ok: "journal demo_codec demo_journal"
proof -
  have u: "user_text_ok demo_user_config"
    by (simp add: user_text_ok_def demo_user_config_def valid_ascii ascii_def in_int64_def)
  have short: "length (json_marshal (user_json demo_user_config)) < 2 ^ 56" "length (json_marshal (RObj [(''email'', RStr ''a@x'')])) < 2 ^ 56"
    by (simp_all add: json_marshal_def bytes_of_def user_json_def demo_user_config_def quoted_def escape_plain strings_json_def fmt_int_def fmt_nat.simps)
  have "json_unmarshal (json_field as_str [] ''email'') (json_marshal (RObj [(''email'', RStr ''a@x'')])) = Inr ''a@x''"
    by (subst json_unmarshal_marshal) (simp_all add: max_depth_def valid_ascii ascii_def json_field_one matching_def)
  then show ?thesis
    using user_roundtrip [OF u] short
    by (simp add: journal_def demo_journal_def demo_event_def readable_def demo_codec_def in_int64_def demo_user_config_def
        eventUserUpsert_def eventUserRemove_def)
qed

lemma demo_start: "applied_of (w_db (node_world fault)) = 5"
  by (simp add: node_world_def demo_node_def applied_of_def) code_simp

lemma demo_final: "state_after demo_codec demo_journal Map.empty 2 = Map.empty"
proof -
  have u: "user_text_ok demo_user_config"
    by (simp add: user_text_ok_def demo_user_config_def valid_ascii ascii_def in_int64_def)
  have "json_unmarshal (json_field as_str [] ''email'') (json_marshal (RObj [(''email'', RStr ''a@x'')])) = Inr ''a@x''"
    by (subst json_unmarshal_marshal) (simp_all add: max_depth_def valid_ascii ascii_def json_field_one matching_def)
  then show ?thesis using user_roundtrip [OF u]
    by (simp add: state_after_def demo_journal_def demo_event_def apply_effect_def effect_of_def demo_codec_def eventUserUpsert_def
        eventUserRemove_def demo_user_config_def fun_eq_iff)
qed

lemma demo_hyps:
  "\<forall>ev \<in> set demo_journal. applied_of (w_db (node_world fault)) < re_Revision ev"
  "\<forall>i \<in> set (r_inbox (w_db (node_world fault))). ib_MasterID i = m \<longrightarrow> ib_Revision i \<le> applied_of (w_db (node_world fault))"
  "\<forall>ev \<in> set demo_journal. re_Kind ev \<noteq> eventArtifact" "desired_of (w_db (node_world fault)) = Map.empty" "length demo_journal = 2"
  unfolding demo_start
  by (simp_all add: demo_journal_def demo_event_def node_world_def demo_node_def eventUserUpsert_def eventUserRemove_def
      eventArtifact_def desired_of_def fun_eq_iff)

definition demo_service :: "node Service" where
  "demo_service = noop_service demo_codec (\<lambda>_. False) (\<lambda>p. p @ ''.tmp'')"

lemma demo_service_codec: "sv_codec demo_service = demo_codec"
  by (simp add: demo_service_def noop_service_def)

lemma demo_service_ok: "slave_port demo_service" "slave_answers demo_service" "journal (sv_codec demo_service) demo_journal"
  using noop_slave.slave_port_axioms noop_slave.slave_answers_axioms demo_journal_ok demo_service_codec by (simp_all add: demo_service_def)

text \<open>Two events, the database failing on every third statement, any number of sessions.\<close>

definition demo_sessions :: "nat list \<Rightarrow> node world" where
  "demo_sessions ns = sessions demo_service slave_config None demo_journal ns
     (node_world (\<lambda>k. if k mod 3 = 2 then Some (ErrDriver ''busy'') else None))"

theorem slave_follows_journal_witness:
  "\<forall>ns e. \<exists>k. position demo_journal (w_db (demo_sessions ns)) \<le> k \<and> k \<le> 2 \<and>
     desired_of (w_db (demo_sessions ns)) e = state_after demo_codec demo_journal Map.empty k e"
  using slave_follows_journal [OF demo_service_ok(1,3) demo_hyps(1,2) demo_sessions_def refl]
  unfolding demo_service_codec demo_hyps(4,5) by blast


end
