(* ===== verification/Replication_Backlog.thy ===== *)
theory Replication_Backlog
  imports Replication_Slave
begin

text \<open>
  The stream from the master to a slave that is behind: the master sends the journal in batches of 500 events, one
  batch a turn.
\<close>

section \<open>One turn\<close>

definition event_of_row :: "outboxRow \<Rightarrow> Event" where
  "event_of_row row = \<lparr>re_Revision = ob_Revision row, re_Kind = ob_Kind row,
     re_Payload = (case b64_decode (ob_Payload row) of Inr payload \<Rightarrow> payload | Inl _ \<Rightarrow> []), re_Checksum = ob_Checksum row\<rparr>"

text \<open>
  The revisions differ, as the autoincrement column makes them, and the payloads are encoded, as \<open>Append\<close> writes them.
\<close>

definition sound_outbox :: "outboxRow list \<Rightarrow> bool" where
  "sound_outbox rows \<longleftrightarrow> distinct (map ob_Revision rows) \<and> (\<forall>row \<in> set rows. \<exists>payload. b64_decode (ob_Payload row) = Inr payload)"

definition backlog :: "int \<Rightarrow> outboxRow list \<Rightarrow> outboxRow list" where
  "backlog lastSent rows = sort_key ob_Revision (filter (\<lambda>r. ob_Revision r > lastSent) rows)"

definition last_revision :: "int \<Rightarrow> outboxRow list \<Rightarrow> int" where
  "last_revision lastSent rows = (if rows = [] then lastSent else ob_Revision (last rows))"

lemma decode_rows_sound: "sound_outbox rows \<Longrightarrow> set part \<subseteq> set rows \<Longrightarrow> decode_rows part = Inr (map event_of_row part)"
  by (induction part) (auto simp: sound_outbox_def event_of_row_def split: sum.splits)

lemma send_events_calm:
  assumes "\<forall>row \<in> set part. ob_Kind row \<noteq> eventResnapshot"
  shows "calm_wp C (send_events sv c en (map event_of_row part) lastSent)
    (\<lambda>l d' _. d' = d\<lparr>n_sent := n_sent d @ map (event_frame \<circ> event_of_row) part\<rparr> \<and> l = last_revision lastSent part) (\<lambda>_ _ _. False) d ev"
  using assms
proof (induction part arbitrary: lastSent d)
  case Nil
  then show ?case by (simp add: calm_ret last_revision_def)
next
  case (Cons row part)
  have kind: "re_Kind (event_of_row row) \<noteq> eventResnapshot" using Cons.prems by (simp add: event_of_row_def)
  have "calm_wp C (send_events sv c en (map event_of_row part) (re_Revision (event_of_row row)))
    (\<lambda>l d' _. d' = d\<lparr>n_sent := n_sent d @ map (event_frame \<circ> event_of_row) (row # part)\<rparr> \<and> l = last_revision lastSent (row # part)) (\<lambda>_ _ _. False)
    (d\<lparr>n_sent := n_sent d @ [event_frame (event_of_row row)]\<rparr>) ev"
    by (rule calm_mono [OF Cons.IH]) (use Cons.prems in \<open>auto simp: last_revision_def event_of_row_def\<close>)
  then show ?case using kind by (auto simp: sendFrame_def comp_def intro!: calm_bind calm_exec)
qed

lemma turn_calm:
  assumes "sound_outbox (r_outbox d)" and "\<forall>row \<in> set (r_outbox d). ob_Kind row \<noteq> eventResnapshot"
  shows "calm_wp C (sendEventsAfter sv c en lastSent)
    (\<lambda>l d' _. d' = d\<lparr>n_sent := n_sent d @ map (event_frame \<circ> event_of_row) (take 500 (backlog lastSent (r_outbox d)))\<rparr> \<and>
      l = last_revision lastSent (take 500 (backlog lastSent (r_outbox d)))) (\<lambda>_ _ _. False) d ev"
proof -
  let ?part = "take 500 (backlog lastSent (r_outbox d))"
  have sub: "set ?part \<subseteq> set (r_outbox d)" by (auto simp: backlog_def dest: in_set_takeD)
  have "\<forall>row \<in> set ?part. ob_Kind row \<noteq> eventResnapshot" using assms(2) sub by blast
  note send = send_events_calm [OF this]
  show ?thesis unfolding sendEventsAfter_def EventsAfter_def Let_def lift_result_def
    by (intro calm_bind calm_map_error calm_query)
      (simp add: backlog_def [symmetric] decode_rows_sound [OF assms(1) sub] calm_ret send)
qed

section \<open>The backlog shrinks\<close>

lemma backlog_sorted:
  assumes "sound_outbox rows"
  shows "sorted_wrt (<) (map ob_Revision (backlog lastSent rows))"
proof -
  have "distinct (map ob_Revision (backlog lastSent rows))"
    using assms by (simp add: backlog_def sound_outbox_def distinct_map inj_on_def)
  then show ?thesis by (simp add: backlog_def strict_sorted_iff)
qed

lemma last_revision_ge: "lastSent \<le> last_revision lastSent (take n (backlog lastSent rows))"
proof (cases "take n (backlog lastSent rows) = []")
  case False
  then have "last (take n (backlog lastSent rows)) \<in> set (backlog lastSent rows)" by (meson in_set_takeD last_in_set)
  then show ?thesis using False by (simp add: last_revision_def backlog_def)
qed (simp add: last_revision_def)

lemma backlog_drop:
  assumes "sound_outbox rows"
  shows "backlog (last_revision lastSent (take n (backlog lastSent rows))) rows = drop n (backlog lastSent rows)"
proof -
  let ?b = "backlog lastSent rows" and ?l = "last_revision lastSent (take n (backlog lastSent rows))"
  have "backlog ?l rows = filter (\<lambda>r. ob_Revision r > ?l) ?b"
    using last_revision_ge [of lastSent n rows] by (simp add: backlog_def filter_sort) (metis (mono_tags, lifting) filter_cong order_le_less_trans)
  also have "\<dots> = filter (\<lambda>r. ob_Revision r > ?l) (take n ?b) @ filter (\<lambda>r. ob_Revision r > ?l) (drop n ?b)"
    by (metis append_take_drop_id filter_append)
  also have "filter (\<lambda>r. ob_Revision r > ?l) (take n ?b) = []"
  proof (cases "take n ?b" rule: rev_cases)
    case (snoc xs x)
    have "sorted_wrt (<) (map ob_Revision (xs @ [x]))" using backlog_sorted [OF assms, of lastSent] snoc
      by (metis append_take_drop_id map_append sorted_wrt_append)
    then show ?thesis unfolding snoc by (auto simp: last_revision_def snoc sorted_wrt_append filter_empty_conv)
  next
    case Nil
    then show ?thesis by (simp only: filter.simps)
  qed
  also have "filter (\<lambda>r. ob_Revision r > ?l) (drop n ?b) = drop n ?b"
  proof (cases "take n ?b = []")
    case False
    have "sorted_wrt (<) (map ob_Revision (take n ?b) @ map ob_Revision (drop n ?b))"
      using backlog_sorted [OF assms, of lastSent] by (metis append_take_drop_id map_append)
    then show ?thesis using False by (auto simp: last_revision_def filter_id_conv sorted_wrt_append)
  next
    case True
    then show ?thesis by (auto simp: last_revision_def filter_id_conv backlog_def dest: in_set_dropD)
  qed
  finally show ?thesis by simp
qed

section \<open>Catching up\<close>

fun turns :: "'m node_scheme Service \<Rightarrow> Config \<Rightarrow> environment \<Rightarrow> nat \<Rightarrow> int \<Rightarrow> ('m node_scheme, int) prog" where
  "turns sv c en 0 lastSent = ret lastSent"
| "turns sv c en (Suc n) lastSent = bind (sendEventsAfter sv c en lastSent) (turns sv c en n)"

lemma turns_calm:
  assumes "sound_outbox (r_outbox d)" and "\<forall>row \<in> set (r_outbox d). ob_Kind row \<noteq> eventResnapshot"
  shows "calm_wp C (turns sv c en n lastSent)
    (\<lambda>l d' _. d' = d\<lparr>n_sent := n_sent d @ map (event_frame \<circ> event_of_row) (take (500 * n) (backlog lastSent (r_outbox d)))\<rparr> \<and>
      l = last_revision lastSent (take (500 * n) (backlog lastSent (r_outbox d)))) (\<lambda>_ _ _. False) d ev"
  using assms
proof (induction n arbitrary: lastSent d ev)
  case 0
  then show ?case by (simp add: calm_ret last_revision_def)
next
  case (Suc n)
  let ?b = "backlog lastSent (r_outbox d)" and ?l = "last_revision lastSent (take 500 (backlog lastSent (r_outbox d)))"
  let ?d1 = "d\<lparr>n_sent := n_sent d @ map (event_frame \<circ> event_of_row) (take 500 ?b)\<rparr>"
  have rest: "backlog ?l (r_outbox ?d1) = drop 500 ?b" using backlog_drop [OF Suc.prems(1), of lastSent 500] by simp
  have frames: "take (500 * Suc n) ?b = take 500 ?b @ take (500 * n) (drop 500 ?b)" by (simp add: take_add)
  have last: "last_revision ?l (take (500 * n) (drop 500 ?b)) = last_revision lastSent (take (500 * Suc n) ?b)"
    unfolding frames last_revision_def by auto
  have "calm_wp C (turns sv c en n ?l)
      (\<lambda>l d' _. d' = d\<lparr>n_sent := n_sent d @ map (event_frame \<circ> event_of_row) (take (500 * Suc n) ?b)\<rparr> \<and>
        l = last_revision lastSent (take (500 * Suc n) ?b)) (\<lambda>_ _ _. False) ?d1 ev1" for ev1
  proof -
    have "calm_wp C (turns sv c en n ?l)
      (\<lambda>l d' _. d' = ?d1\<lparr>n_sent := n_sent ?d1 @ map (event_frame \<circ> event_of_row) (take (500 * n) (backlog ?l (r_outbox ?d1)))\<rparr> \<and>
        l = last_revision ?l (take (500 * n) (backlog ?l (r_outbox ?d1)))) (\<lambda>_ _ _. False) ?d1 ev1"
      by (rule Suc.IH) (use Suc.prems in simp_all)
    then show ?thesis unfolding rest last frames by simp
  qed
  then show ?case unfolding turns.simps
    by (intro calm_bind calm_mono [OF turn_calm [OF Suc.prems]]) (auto simp: comp_def)
qed


definition backlog_world :: "node world" where
  "backlog_world = (node_world (\<lambda>_. None))\<lparr>w_db := demo_node\<lparr>r_outbox := map (\<lambda>n. \<lparr>ob_Revision = n, ob_Kind = eventUserRemove,
     ob_Payload = [], ob_Checksum = [], ob_CreatedAt = 0\<rparr>) [7, 6, 5]\<rparr>\<rparr>"


end
