(* ===== verification/Ip_Address.thy ===== *)
theory Ip_Address
  imports Encoding
begin

text \<open>
  The identity of a client address in the anti-fraud plugin (\<^verbatim>\<open>internal/plugins/antifraud/state.go\<close>):
  \<open>canonicalIP\<close> over the parser and the printer of \<^verbatim>\<open>net/netip\<close>, and the keyed hash that leaves a slave in
  place of the address. An IPv4 address is its four octets; an IPv6 address is its eight 16-bit groups and its
  zone.
\<close>

section \<open>Addresses\<close>

datatype Addr = IPv4 "nat list" | IPv6 "nat list" string

text \<open>The octets of a dotted address: those read, the value and the number of digits of the current one.\<close>

fun parseIPv4Fields :: "nat list \<Rightarrow> nat \<Rightarrow> nat \<Rightarrow> string \<Rightarrow> nat list option" where
  "parseIPv4Fields fs v n [] = (if length fs < 3 then None else Some (fs @ [v]))"
| "parseIPv4Fields fs v n (c # cs) =
     (if is_digit c then
        (if n = 1 \<and> v = 0 then None
         else if v * 10 + digit_val c > 255 then None
         else parseIPv4Fields fs (v * 10 + digit_val c) (Suc n) cs)
      else if c = CHR ''.'' then
        (if n = 0 \<or> cs = [] \<or> length fs = 3 then None else parseIPv4Fields (fs @ [v]) 0 0 cs)
      else None)"

definition is_hex :: "char \<Rightarrow> bool" where
  "is_hex c \<longleftrightarrow> (let n = of_char c :: nat in (48 \<le> n \<and> n \<le> 57) \<or> (97 \<le> n \<and> n \<le> 102) \<or> (65 \<le> n \<and> n \<le> 70))"

definition hex_value :: "char \<Rightarrow> nat" where
  "hex_value c = (let n = of_char c in if n \<le> 57 then n - 48 else if n \<le> 70 then n - 55 else n - 87)"

definition hex_number :: "string \<Rightarrow> nat" where
  "hex_number ds = foldl (\<lambda>acc c. acc * 16 + hex_value c) 0 ds"

lemma dropWhile_shorter: "dropWhile P s = c # cs \<Longrightarrow> length cs < length s"
  by (metis Suc_le_lessD length_Cons length_dropWhile_le)

text \<open>
  The groups of an IPv6 address: those read, where the ellipsis stands, and the rest of the text. The loop ends
  after eight groups, at the end of the text, or with a dotted address in place of the last two groups.
\<close>

function parseIPv6Groups :: "nat list \<Rightarrow> nat option \<Rightarrow> string \<Rightarrow> (nat list \<times> nat option \<times> string) option" where
  "parseIPv6Groups gs ellipsis s =
     (if length gs \<ge> 8 then Some (gs, ellipsis, s)
      else let ds = takeWhile is_hex s; gs' = gs @ [hex_number ds]
        in if ds = [] \<or> length ds > 4 then None
           else (case dropWhile is_hex s of
             [] \<Rightarrow> Some (gs', ellipsis, [])
           | c # cs \<Rightarrow>
               if c = CHR ''.'' then
                 (if (ellipsis = None \<and> length gs \<noteq> 6) \<or> length gs + 2 > 8 then None
                  else (case parseIPv4Fields [] 0 0 s of
                    None \<Rightarrow> None
                  | Some fs \<Rightarrow> Some (gs @ [fs ! 0 * 256 + fs ! 1, fs ! 2 * 256 + fs ! 3], ellipsis, [])))
               else if c \<noteq> CHR '':'' \<or> cs = [] then None
               else if hd cs = CHR '':'' then
                 (if ellipsis \<noteq> None then None
                  else if tl cs = [] then Some (gs', Some (length gs'), [])
                  else parseIPv6Groups gs' (Some (length gs')) (tl cs))
               else parseIPv6Groups gs' ellipsis cs))"
  by pat_completeness auto

termination
proof (relation "measure (\<lambda>(_, _, s). length s)"; clarsimp)
  fix s :: string and c cs
  assume "dropWhile is_hex s = c # cs"
  then have "length cs < length s" by (rule dropWhile_shorter)
  then show "length cs - Suc 0 < length s" by simp
qed (auto dest: dropWhile_shorter)

declare parseIPv6Groups.simps [simp del]

definition starts_ellipsis :: "string \<Rightarrow> bool" where
  "starts_ellipsis s \<longleftrightarrow> take 2 s = ''::''"

definition expand_ellipsis :: "string \<Rightarrow> nat list \<times> nat option \<times> string \<Rightarrow> Addr option" where
  "expand_ellipsis zone = (\<lambda>(gs, ellipsis, rest).
     if rest \<noteq> [] then None
     else if length gs < 8 then
       map_option (\<lambda>k. IPv6 (take k gs @ replicate (8 - length gs) 0 @ drop k gs) zone) ellipsis
     else if ellipsis \<noteq> None then None
     else Some (IPv6 gs zone))"

definition parseIPv6 :: "string \<Rightarrow> Addr option" where
  "parseIPv6 text =
     (let s = takeWhile (\<lambda>c. c \<noteq> CHR ''%'') text; z = dropWhile (\<lambda>c. c \<noteq> CHR ''%'') text; zone = tl z
      in if z \<noteq> [] \<and> zone = [] then None
         else if starts_ellipsis s \<and> drop 2 s = [] then Some (IPv6 (replicate 8 0) zone)
         else Option.bind (if starts_ellipsis s then parseIPv6Groups [] (Some 0) (drop 2 s) else parseIPv6Groups [] None s)
                (expand_ellipsis zone))"

text \<open>The first of a dot, a colon and a percent sign says which kind of address a text is.\<close>

definition ParseAddr :: "string \<Rightarrow> Addr option" where
  "ParseAddr s = (case dropWhile (\<lambda>c. c \<notin> {CHR ''.'', CHR '':'', CHR ''%''}) s of
     [] \<Rightarrow> None
   | c # _ \<Rightarrow>
       if c = CHR ''.'' then map_option IPv4 (parseIPv4Fields [] 0 0 s)
       else if c = CHR '':'' then parseIPv6 s
       else None)"

fun Unmap :: "Addr \<Rightarrow> Addr" where
  "Unmap (IPv4 fs) = IPv4 fs"
| "Unmap (IPv6 gs zone) =
     (if take 6 gs = [0, 0, 0, 0, 0, 65535] then IPv4 [gs ! 6 div 256, gs ! 6 mod 256, gs ! 7 div 256, gs ! 7 mod 256]
      else IPv6 gs zone)"

section \<open>The text of an address\<close>

fun join_with :: "char \<Rightarrow> string list \<Rightarrow> string" where
  "join_with c [] = []"
| "join_with c [s] = s"
| "join_with c (s # t # ss) = s @ c # join_with c (t # ss)"

fun fmt_hex :: "nat \<Rightarrow> string" where
  "fmt_hex n = (if n < 16 then [hex_digit n] else fmt_hex (n div 16) @ [hex_digit (n mod 16)])"

declare fmt_hex.simps [simp del]

text \<open>The first of the longest runs of at least two zero groups, or (255, 255).\<close>

definition zero_run :: "nat list \<Rightarrow> nat \<times> nat" where
  "zero_run gs = foldl (\<lambda>(zs, ze) i.
     let l = length (takeWhile ((=) 0) (drop i gs)) in if l \<ge> 2 \<and> l > ze - zs then (i, i + l) else (zs, ze)) (255, 255) [0..<8]"

definition groups_text :: "nat list \<Rightarrow> string" where
  "groups_text gs = join_with (CHR '':'') (map fmt_hex gs)"

text \<open>The text of an address that is not an IPv4 address mapped into IPv6: \<open>Unmap\<close> comes first.\<close>

fun Addr_String :: "Addr \<Rightarrow> string" where
  "Addr_String (IPv4 fs) = join_with (CHR ''.'') (map fmt_nat fs)"
| "Addr_String (IPv6 gs zone) =
     (let (zs, ze) = zero_run gs
      in (if zs = 255 then groups_text gs else groups_text (take zs gs) @ ''::'' @ groups_text (drop ze gs))
         @ (if zone = [] then [] else CHR ''%'' # zone))"

definition canonicalIP :: "string \<Rightarrow> string option" where
  "canonicalIP raw = (case ParseAddr (trim_space raw) of None \<Rightarrow> None | Some address \<Rightarrow> Some (Addr_String (Unmap address)))"

section \<open>The keyed hash\<close>

definition hmac_sha256 :: "byte list \<Rightarrow> byte list \<Rightarrow> byte list" where
  "hmac_sha256 key message =
     (let k = (if length key > 64 then sha256 key else key); block = k @ replicate (64 - length k) 0
      in sha256 (map (\<lambda>b. b XOR 0x5C) block @ sha256 (map (\<lambda>b. b XOR 0x36) block @ message)))"

definition HashIP :: "string \<Rightarrow> string \<Rightarrow> string" where
  "HashIP hashSecret ip = (case canonicalIP ip of
     None \<Rightarrow> []
   | Some canonical \<Rightarrow> hex_encode (hmac_sha256 (bytes_of hashSecret) (bytes_of canonical)))"

definition HashKeyID :: "string \<Rightarrow> string" where
  "HashKeyID hashSecret = take 16 (hex_encode (hmac_sha256 (bytes_of hashSecret) (bytes_of ''xraytool-antifraud-key-id-v2'')))"

section \<open>Printing and parsing\<close>

lemma is_digit_hex: "is_digit c \<Longrightarrow> is_hex c"
  by (auto simp: is_digit_def is_hex_def Let_def)

lemma not_hex: "\<not> is_hex (CHR '':'')" "\<not> is_hex (CHR ''.'')" "\<not> is_hex (CHR ''%'')"
  by (simp_all add: is_hex_def)

lemma not_digit_dot: "\<not> is_digit (CHR ''.'')"
  by (simp add: is_digit_def)

subsection \<open>Octets\<close>

lemma v4_octet:
  assumes "v \<le> 255"
  shows "parseIPv4Fields fs 0 0 (fmt_nat v @ rest) = parseIPv4Fields fs v (length (fmt_nat v)) rest"
proof -
  consider "v < 10" | "10 \<le> v" "v < 100" | "100 \<le> v" "v < 1000" using assms by linarith
  then show ?thesis
  proof cases
    case 1
    then show ?thesis by (simp add: fmt_nat.simps [of v])
  next
    case 2
    then have "v div 10 < 10" "0 < v div 10" by auto
    then show ?thesis using assms 2 by (simp add: fmt_nat.simps [of v] fmt_nat.simps [of "v div 10"])
  next
    case 3
    then have "v div 10 div 10 < 10" "0 < v div 10 div 10" "\<not> v div 10 < 10" "v div 10 div 10 * 10 + v div 10 mod 10 = v div 10" by auto
    then show ?thesis using assms 3
      by (auto simp: fmt_nat.simps [of v] fmt_nat.simps [of "v div 10"] fmt_nat.simps [of "v div 10 div 10"])
  qed
qed

lemma v4_text:
  assumes "\<forall>v \<in> set (v # vs). v \<le> 255" and "length fs + length (v # vs) = 4"
  shows "parseIPv4Fields fs 0 0 (join_with (CHR ''.'') (map fmt_nat (v # vs))) = Some (fs @ v # vs)"
  using assms
proof (induction vs arbitrary: fs v)
  case Nil
  then show ?case using v4_octet [of v fs "[]"] by simp
next
  case (Cons u us)
  have "join_with (CHR ''.'') (map fmt_nat (u # us)) \<noteq> []" by (cases us) simp_all
  then show ?case using Cons v4_octet [of v fs] by (auto simp: not_digit_dot)
qed

subsection \<open>Groups\<close>

lemma hex_digit_props: "n < 16 \<Longrightarrow> is_hex (hex_digit n) \<and> hex_value (hex_digit n) = n"
proof -
  have "\<forall>n \<in> set [0..<16]. is_hex (hex_digit n) \<and> hex_value (hex_digit n) = n"
    by (simp add: upt_rec is_hex_def hex_value_def hex_digit_def)
  then show "n < 16 \<Longrightarrow> ?thesis" by simp
qed

lemma fmt_hex_nonempty [simp]: "fmt_hex n \<noteq> []"
  by (subst fmt_hex.simps) simp

lemma fmt_hex_hex: "\<forall>c \<in> set (fmt_hex n). is_hex c"
proof (induction n rule: fmt_hex.induct)
  case (1 n)
  then show ?case by (cases "n < 16") (auto simp: fmt_hex.simps [of n] hex_digit_props)
qed

lemma hex_number_fmt [simp]: "hex_number (fmt_hex n) = n"
proof (induction n rule: fmt_hex.induct)
  case (1 n)
  then show ?case by (cases "n < 16") (auto simp: fmt_hex.simps [of n] hex_digit_props hex_number_def)
qed

lemma length_fmt_hex: "n < 16 ^ Suc k \<Longrightarrow> length (fmt_hex n) \<le> Suc k"
proof (induction k arbitrary: n)
  case 0
  then show ?case by (simp add: fmt_hex.simps [of n])
next
  case (Suc k)
  have "n div 16 < 16 ^ Suc k" using Suc.prems by (simp add: less_mult_imp_div_less)
  then show ?case using Suc.IH [of "n div 16"] by (simp add: fmt_hex.simps [of n])
qed

lemma length_group: "g < 65536 \<Longrightarrow> length (fmt_hex g) \<le> 4"
  using length_fmt_hex [of g 3] by simp

lemma hex_prefix:
  assumes "rest = [] \<or> \<not> is_hex (hd rest)"
  shows "takeWhile is_hex (fmt_hex g @ rest) = fmt_hex g" and "dropWhile is_hex (fmt_hex g @ rest) = rest"
proof -
  have "takeWhile is_hex rest = []" "dropWhile is_hex rest = rest" using assms by (cases rest; simp)+
  then show "takeWhile is_hex (fmt_hex g @ rest) = fmt_hex g" "dropWhile is_hex (fmt_hex g @ rest) = rest"
    using fmt_hex_hex [of g] by (simp_all add: takeWhile_append dropWhile_append)
qed

lemma hex_all: "takeWhile is_hex (fmt_hex g) = fmt_hex g" "dropWhile is_hex (fmt_hex g) = []"
  using hex_prefix [of "[]" g] by simp_all

lemma group_step:
  assumes "g < 65536" "length gs < 8"
  shows "parseIPv6Groups gs e (fmt_hex g) = Some (gs @ [g], e, [])"
    and "t \<noteq> [] \<Longrightarrow> hd t \<noteq> CHR '':'' \<Longrightarrow> parseIPv6Groups gs e (fmt_hex g @ CHR '':'' # t) = parseIPv6Groups (gs @ [g]) e t"
    and "parseIPv6Groups gs None (fmt_hex g @ CHR '':'' # CHR '':'' # t) =
      (if t = [] then Some (gs @ [g], Some (Suc (length gs)), []) else parseIPv6Groups (gs @ [g]) (Some (Suc (length gs))) t)"
  using assms length_group [of g]
  by (simp_all add: parseIPv6Groups.simps [of gs] not_hex hex_all hex_prefix Let_def)

lemma groups_text_Cons: "groups_text (g # h # hs) = fmt_hex g @ CHR '':'' # groups_text (h # hs)"
  by (simp add: groups_text_def)

lemma groups_text_single: "groups_text [g] = fmt_hex g"
  by (simp add: groups_text_def)

lemma groups_text_hd: "is_hex (hd (groups_text (h # hs)))" "groups_text (h # hs) \<noteq> []"
  using fmt_hex_hex [of h] by (cases hs; simp add: groups_text_Cons groups_text_single)+

lemma groups_parse:
  assumes "\<forall>g \<in> set (b # bs). g < 65536" and "length gs + length (b # bs) \<le> 8"
  shows "parseIPv6Groups gs e (groups_text (b # bs)) = Some (gs @ b # bs, e, [])"
  using assms
proof (induction bs arbitrary: gs b)
  case Nil
  then show ?case by (simp add: groups_text_single group_step)
next
  case (Cons h hs)
  have "hd (groups_text (h # hs)) \<noteq> CHR '':''" using groups_text_hd [of h hs] not_hex by metis
  then show ?case using Cons groups_text_hd(2) [of h hs] by (simp add: groups_text_Cons group_step)
qed

lemma groups_parse_ellipsis:
  assumes "\<forall>g \<in> set (b # bs). g < 65536" and "length gs + length (b # bs) \<le> 8"
  shows "parseIPv6Groups gs None (groups_text (b # bs) @ CHR '':'' # CHR '':'' # t) =
    (if t = [] then Some (gs @ b # bs, Some (length gs + length (b # bs)), [])
     else parseIPv6Groups (gs @ b # bs) (Some (length gs + length (b # bs))) t)"
  using assms
proof (induction bs arbitrary: gs b)
  case Nil
  then show ?case by (simp add: groups_text_single group_step)
next
  case (Cons h hs)
  have hd: "hd (groups_text (h # hs) @ CHR '':'' # CHR '':'' # t) \<noteq> CHR '':''"
    using groups_text_hd [of h hs] not_hex by (metis hd_append2)
  show ?case using Cons groups_text_hd(2) [of h hs] group_step(2) [OF _ _ _ hd, of b gs None] by (simp add: groups_text_Cons)
qed

subsection \<open>The run of zeros\<close>

lemma zero_run:
  assumes "length gs = 8" and "zero_run gs = (zs, ze)"
  shows "zs = 255 \<or> (zs + 2 \<le> ze \<and> ze \<le> 8 \<and> gs = take zs gs @ replicate (ze - zs) 0 @ drop ze gs)"
proof -
  define P where "P r \<longleftrightarrow> r = (255, 255) \<or> (fst r + 2 \<le> snd r \<and> snd r \<le> 8 \<and> gs = take (fst r) gs @ replicate (snd r - fst r) 0 @ drop (snd r) gs)"
    for r :: "nat \<times> nat"
  define step where "step = (\<lambda>(zs, ze) i. let l = length (takeWhile ((=) 0) (drop i gs))
    in if l \<ge> 2 \<and> l > ze - zs then (i, i + l) else (zs, ze))"
  have one: "P (step r i)" if "P r" "i < 8" for r i
  proof -
    let ?l = "length (takeWhile ((=) 0) (drop i gs))"
    have "takeWhile ((=) 0) (drop i gs) = replicate ?l 0"
      by (rule replicate_length_same [symmetric]) (auto dest: set_takeWhileD)
    then have "drop i gs = replicate ?l 0 @ drop (i + ?l) gs"
      by (metis add.commute drop_drop dropWhile_eq_drop takeWhile_dropWhile_id)
    then have gs: "gs = take i gs @ replicate ?l 0 @ drop (i + ?l) gs" by (metis append_take_drop_id)
    have "?l \<le> length (drop i gs)" by (rule length_takeWhile_le)
    then have "i + ?l \<le> 8" using assms(1) that(2) by simp
    then have "P (i, i + ?l)" if "?l \<ge> 2" unfolding P_def using that gs by simp
    then show ?thesis using \<open>P r\<close> unfolding step_def by (cases r) (simp add: Let_def)
  qed
  have "P (foldl step r is)" if "P r" "\<forall>i \<in> set is. i < 8" for r "is"
    using that by (induction "is" arbitrary: r) (auto simp: one)
  then have "P (zero_run gs)" unfolding zero_run_def step_def [symmetric] by (simp add: P_def)
  then show ?thesis using assms(2) unfolding P_def by auto
qed

subsection \<open>What the parser returns\<close>

fun well_formed :: "Addr \<Rightarrow> bool" where
  "well_formed (IPv4 fs) \<longleftrightarrow> length fs = 4 \<and> (\<forall>v \<in> set fs. v \<le> 255)"
| "well_formed (IPv6 gs zone) \<longleftrightarrow> length gs = 8 \<and> (\<forall>g \<in> set gs. g < 65536) \<and> take 6 gs \<noteq> [0, 0, 0, 0, 0, 65535] \<and>
     (zone \<noteq> [] \<longrightarrow> \<not> is_space (last zone))"

lemma v4_result:
  assumes "parseIPv4Fields fs v n s = Some r" "\<forall>v \<in> set fs. v \<le> 255" "v \<le> 255" "length fs \<le> 3"
  shows "length r = 4 \<and> (\<forall>v \<in> set r. v \<le> 255)"
  using assms by (induction fs v n s rule: parseIPv4Fields.induct) (auto split: if_splits)

lemma hex_value_bound: "is_hex c \<Longrightarrow> hex_value c < 16"
  by (auto simp: is_hex_def hex_value_def Let_def)

lemma hex_number_bound:
  assumes "\<forall>c \<in> set ds. is_hex c"
  shows "foldl (\<lambda>acc c. acc * 16 + hex_value c) a ds < (a + 1) * 16 ^ length ds"
  using assms
proof (induction ds arbitrary: a)
  case (Cons c ds)
  have "(a * 16 + hex_value c + 1) * 16 ^ length ds \<le> (a + 1) * 16 * 16 ^ length ds"
    using hex_value_bound [of c] Cons.prems by (intro mult_right_mono) auto
  then have le: "(a * 16 + hex_value c + 1) * 16 ^ length ds \<le> (a + 1) * 16 ^ length (c # ds)"
    by (simp only: length_Cons power_Suc mult.assoc)
  have "foldl (\<lambda>acc c. acc * 16 + hex_value c) (a * 16 + hex_value c) ds < (a * 16 + hex_value c + 1) * 16 ^ length ds"
    by (rule Cons.IH) (use Cons.prems in simp)
  then show ?case using le by (simp only: foldl.simps)
qed simp

lemma group_bound: "length (takeWhile is_hex s) \<le> 4 \<Longrightarrow> hex_number (takeWhile is_hex s) < 65536"
proof -
  assume "length (takeWhile is_hex s) \<le> 4"
  then have "(16::nat) ^ length (takeWhile is_hex s) \<le> 16 ^ 4" by (intro power_increasing) simp_all
  moreover have "hex_number (takeWhile is_hex s) < 16 ^ length (takeWhile is_hex s)"
    using hex_number_bound [of "takeWhile is_hex s" 0] set_takeWhileD unfolding hex_number_def by fastforce
  ultimately show ?thesis by simp
qed

lemma groups_result:
  assumes "parseIPv6Groups gs e s = Some (r, e', rest)" "\<forall>g \<in> set gs. g < 65536" "length gs \<le> 8"
    "\<forall>k. e = Some k \<longrightarrow> k \<le> length gs"
  shows "length r \<le> 8 \<and> (\<forall>g \<in> set r. g < 65536) \<and> (\<forall>k. e' = Some k \<longrightarrow> k \<le> length r)"
  using assms
proof (induction gs e s arbitrary: r e' rest rule: parseIPv6Groups.induct)
  case (1 gs e s)
  let ?ds = "takeWhile is_hex s" and ?gs' = "gs @ [hex_number (takeWhile is_hex s)]"
  show ?case
  proof (cases "length gs \<ge> 8")
    case True
    then show ?thesis using "1.prems" by (simp add: parseIPv6Groups.simps [of gs])
  next
    case False
    have ds: "?ds \<noteq> []" "length ?ds \<le> 4" using "1.prems"(1) False by (auto simp: parseIPv6Groups.simps [of gs] Let_def split: if_splits)
    have gs': "\<forall>g \<in> set ?gs'. g < 65536" "length ?gs' \<le> 8" using "1.prems"(2) group_bound [OF ds(2)] False by auto
    show ?thesis
    proof (cases "dropWhile is_hex s")
      case Nil
      then have "r = ?gs'" "e' = e" using "1.prems"(1) ds False
        by (simp_all add: parseIPv6Groups.simps [of gs] Let_def del: dropWhile_eq_Nil_conv)
      then show ?thesis using gs' "1.prems"(4) by (auto simp: le_SucI)
    next
      case (Cons c cs)
      consider "c = CHR ''.''" | "c = CHR '':''" "cs \<noteq> []" "hd cs = CHR '':''" "e = None" | "c = CHR '':''" "cs \<noteq> []" "hd cs \<noteq> CHR '':''"
        using "1.prems"(1) Cons False by (auto simp: parseIPv6Groups.simps [of gs] Let_def split: if_splits)
      then show ?thesis
      proof cases
        case 1
        then obtain fs where fs: "parseIPv4Fields [] 0 0 s = Some fs" "length gs + 2 \<le> 8" "e' = e"
            "r = gs @ [fs ! 0 * 256 + fs ! 1, fs ! 2 * 256 + fs ! 3]"
          using "1.prems"(1) Cons False by (auto simp: parseIPv6Groups.simps [of gs] Let_def split: if_splits option.splits)
        have "length fs = 4" and le: "\<forall>v \<in> set fs. v \<le> 255" using v4_result [OF fs(1)] by auto
        then have "fs ! 0 \<le> 255" "fs ! 1 \<le> 255" "fs ! 2 \<le> 255" "fs ! 3 \<le> 255" by (simp_all add: nth_mem)
        then show ?thesis using fs(2-4) "1.prems"(2,4) by auto
      next
        case 2
        show ?thesis
        proof (cases "tl cs = []")
          case True
          then show ?thesis using "1.prems" gs' ds False Cons 2 by (auto simp: parseIPv6Groups.simps [of gs] Let_def)
        next
          case False
          then have "parseIPv6Groups ?gs' (Some (length ?gs')) (tl cs) = Some (r, e', rest)"
            using "1.prems"(1) ds \<open>\<not> length gs \<ge> 8\<close> Cons 2 by (simp add: parseIPv6Groups.simps [of gs] Let_def)
          from "1.IH"(1) [OF \<open>\<not> length gs \<ge> 8\<close> refl refl _ Cons _ _ _ _ _ this gs'] show ?thesis using 2 ds False by simp
        qed
      next
        case 3
        then have "parseIPv6Groups ?gs' e cs = Some (r, e', rest)"
          using "1.prems"(1) ds False Cons by (simp add: parseIPv6Groups.simps [of gs] Let_def)
        from "1.IH"(2) [OF False refl refl _ Cons _ _ _ this gs'] show ?thesis using 3 ds "1.prems"(4) by (simp add: le_SucI)
      qed
    qed
  qed
qed


lemma v6_result:
  assumes "parseIPv6 s = Some a"
  obtains gs zone where "a = IPv6 gs zone" "length gs = 8" "\<forall>g \<in> set gs. g < 65536" "zone \<noteq> [] \<Longrightarrow> s \<noteq> [] \<and> last zone = last s"
proof -
  define z where "z = dropWhile (\<lambda>c. c \<noteq> CHR ''%'') s"
  have suffix: "tl z \<noteq> [] \<Longrightarrow> s \<noteq> [] \<and> last (tl z) = last s"
  proof -
    assume "tl z \<noteq> []"
    then have "z \<noteq> []" by auto
    then show ?thesis using \<open>tl z \<noteq> []\<close> takeWhile_dropWhile_id [of "\<lambda>c. c \<noteq> CHR ''%''" s] unfolding z_def
      by (metis append_is_Nil_conv last_append last_tl)
  qed
  let ?s = "takeWhile (\<lambda>c. c \<noteq> CHR ''%'') s"
  show thesis
  proof (cases "starts_ellipsis ?s \<and> drop 2 ?s = []")
    case True
    then show thesis using assms that [of "replicate 8 0" "tl z"] suffix
      by (auto simp: parseIPv6_def Let_def z_def [symmetric] split: if_splits)
  next
    case False
    define p where "p = (if starts_ellipsis ?s then parseIPv6Groups [] (Some 0) (drop 2 ?s) else parseIPv6Groups [] None ?s)"
    obtain gs e rest where p: "p = Some (gs, e, rest)" and fin: "expand_ellipsis (tl z) (gs, e, rest) = Some a"
      using assms False unfolding parseIPv6_def Let_def z_def [symmetric] p_def [symmetric]
      by (auto simp: bind_eq_Some_conv split: if_splits)
    have gs: "length gs \<le> 8" "\<forall>g \<in> set gs. g < 65536" "\<forall>k. e = Some k \<longrightarrow> k \<le> length gs"
      using p groups_result [of "[]" "Some 0" "drop 2 ?s" gs e rest] groups_result [of "[]" None ?s gs e rest]
      unfolding p_def by (auto split: if_splits)
    show thesis
    proof (cases "length gs < 8")
      case True
      then obtain k where "e = Some k" and a: "a = IPv6 (take k gs @ replicate (8 - length gs) 0 @ drop k gs) (tl z)"
        using fin by (auto simp: expand_ellipsis_def split: if_splits)
      show thesis by (rule that [OF a]) (use gs True \<open>e = Some k\<close> suffix in \<open>auto dest: in_set_takeD in_set_dropD\<close>)
    next
      case False
      then have a: "a = IPv6 gs (tl z)" using fin by (auto simp: expand_ellipsis_def split: if_splits)
      show thesis by (rule that [OF a]) (use gs False suffix in auto)
    qed
  qed
qed

lemma parse_well_formed:
  assumes "ParseAddr s = Some a" and "s \<noteq> [] \<Longrightarrow> \<not> is_space (last s)"
  shows "well_formed (Unmap a)"
proof -
  consider fs where "parseIPv4Fields [] 0 0 s = Some fs" "a = IPv4 fs" | "parseIPv6 s = Some a"
    using assms(1) unfolding ParseAddr_def by (auto split: list.splits if_splits)
  then show ?thesis
  proof cases
    case 1
    then show ?thesis using v4_result [OF 1(1)] by auto
  next
    case 2
    then obtain gs zone where a: "a = IPv6 gs zone" "length gs = 8" "\<forall>g \<in> set gs. g < 65536"
        "zone \<noteq> [] \<Longrightarrow> s \<noteq> [] \<and> last zone = last s" using v6_result by blast
    then have "gs ! 6 < 65536" "gs ! 7 < 65536" by (simp_all add: nth_mem)
    then have "gs ! 6 div 256 \<le> 255" "gs ! 7 div 256 \<le> 255" by linarith+
    then show ?thesis using a assms(2) by auto
  qed
qed

subsection \<open>Round trip\<close>

lemma groups_chars: "\<forall>c \<in> set (groups_text gs). is_hex c \<or> c = CHR '':''"
proof (induction gs)
  case (Cons g gs)
  then show ?case using fmt_hex_hex [of g] by (cases gs) (auto simp: groups_text_Cons groups_text_single)
qed (simp add: groups_text_def)

lemma groups_colon: "CHR '':'' \<in> set (groups_text (g # h # hs))"
  by (simp add: groups_text_Cons)

lemma first_special:
  assumes "\<forall>c \<in> set t. is_hex c \<or> c = CHR '':''" and "CHR '':'' \<in> set t"
  shows "\<exists>cs. dropWhile (\<lambda>c. c \<notin> {CHR ''.'', CHR '':'', CHR ''%''}) (t @ rest) = CHR '':'' # cs"
  using assms by (induction t) (auto simp: not_hex)

lemma not_special: "c \<noteq> CHR ''%''" if "is_hex c \<or> c = CHR '':''"
  using that not_hex by auto

lemma split_zone:
  assumes "\<forall>c \<in> set t. is_hex c \<or> c = CHR '':''"
  shows "takeWhile (\<lambda>c. c \<noteq> CHR ''%'') (t @ (if zone = [] then [] else CHR ''%'' # zone)) = t"
    and "dropWhile (\<lambda>c. c \<noteq> CHR ''%'') (t @ (if zone = [] then [] else CHR ''%'' # zone)) = (if zone = [] then [] else CHR ''%'' # zone)"
  using assms not_special by (auto simp: takeWhile_append dropWhile_append dropWhile_eq_Nil_conv)

definition v6_text :: "nat list \<Rightarrow> string" where
  "v6_text gs = (case zero_run gs of (zs, ze) \<Rightarrow>
     if zs = 255 then groups_text gs else groups_text (take zs gs) @ ''::'' @ groups_text (drop ze gs))"

lemma v6_text_chars: "\<forall>c \<in> set (v6_text gs). is_hex c \<or> c = CHR '':''"
  using groups_chars by (auto simp: v6_text_def split: prod.splits)

lemma no_ellipsis: "\<not> starts_ellipsis (groups_text (g # gs) @ t)"
  using groups_text_hd [of g gs] not_hex
  by (cases "groups_text (g # gs)") (auto simp: starts_ellipsis_def)

lemma parse_v6_text:
  assumes "length gs = 8" and "\<forall>g \<in> set gs. g < 65536"
  shows "parseIPv6 (v6_text gs @ (if zone = [] then [] else CHR ''%'' # zone)) = Some (IPv6 gs zone)"
proof -
  obtain zs ze where z: "zero_run gs = (zs, ze)" by fastforce
  have t: "parseIPv6 (v6_text gs @ (if zone = [] then [] else CHR ''%'' # zone)) =
    (if starts_ellipsis (v6_text gs) \<and> drop 2 (v6_text gs) = [] then Some (IPv6 (replicate 8 0) zone)
     else Option.bind (if starts_ellipsis (v6_text gs) then parseIPv6Groups [] (Some 0) (drop 2 (v6_text gs))
       else parseIPv6Groups [] None (v6_text gs)) (expand_ellipsis zone))"
    unfolding parseIPv6_def Let_def split_zone [OF v6_text_chars] by (cases zone) simp_all
  show ?thesis
  proof (cases "zs = 255")
    case True
    obtain g hs where gs: "gs = g # hs" using assms(1) by (cases gs) auto
    have v: "v6_text gs = groups_text (g # hs)" using True z by (simp add: v6_text_def gs)
    have "parseIPv6Groups [] None (groups_text (g # hs)) = Some (gs, None, [])"
      using groups_parse [of g hs "[]" None] assms by (simp add: gs)
    then show ?thesis using t no_ellipsis [of g hs "[]"] assms(1) unfolding v by (simp add: expand_ellipsis_def)
  next
    case False
    then have r: "zs + 2 \<le> ze" "ze \<le> 8" and split: "gs = take zs gs @ replicate (ze - zs) 0 @ drop ze gs"
      using zero_run [OF assms(1) z] by auto
    have v: "v6_text gs = groups_text (take zs gs) @ CHR '':'' # CHR '':'' # groups_text (drop ze gs)"
      using False z by (simp add: v6_text_def)
    have bounds: "\<forall>g \<in> set (take zs gs). g < 65536" "\<forall>g \<in> set (drop ze gs). g < 65536"
      using assms(2) by (auto dest: in_set_takeD in_set_dropD)
    have fill: "take zs (take zs gs @ drop ze gs) @ replicate (8 - length (take zs gs @ drop ze gs)) 0 @ drop zs (take zs gs @ drop ze gs) = gs"
      using split r assms(1) by simp
    show ?thesis
    proof (cases "take zs gs")
      case Nil
      then have zs: "zs = 0" using assms(1) r by (cases zs) auto
      have lead: "starts_ellipsis (v6_text gs)" "drop 2 (v6_text gs) = groups_text (drop ze gs)"
        using zs v by (simp_all add: starts_ellipsis_def groups_text_def)
      show ?thesis
      proof (cases "drop ze gs")
        case Nil
        then have "gs = replicate 8 0" using split r zs assms(1) by simp
        then show ?thesis unfolding t lead using Nil lead(1) by (simp add: groups_text_def)
      next
        case (Cons b bs)
        have len: "length (b # bs) \<le> 6" unfolding Cons [symmetric] using assms(1) r by simp
        then have "parseIPv6Groups [] (Some 0) (groups_text (b # bs)) = Some (b # bs, Some 0, [])"
          using groups_parse [of b bs "[]" "Some 0"] bounds(2) unfolding Cons by simp
        then show ?thesis unfolding t lead using Cons lead(1) groups_text_hd(2) [of b bs] len fill zs by (simp add: expand_ellipsis_def)
      qed
    next
      case (Cons b bs)
      have len: "length (b # bs) = zs" unfolding Cons [symmetric] using assms(1) r by simp
      have no: "\<not> starts_ellipsis (v6_text gs)" unfolding v Cons by (rule no_ellipsis)
      have "parseIPv6Groups [] None (v6_text gs) = Some (take zs gs @ drop ze gs, Some zs, [])"
      proof (cases "drop ze gs")
        case Nil
        then show ?thesis unfolding v Cons using groups_parse_ellipsis [of b bs "[]" "[]"] bounds(1) len r
          unfolding Cons by (simp add: groups_text_def)
      next
        case cons: (Cons c cs)
        have "zs + length (c # cs) \<le> 8" unfolding cons [symmetric] using assms(1) r by simp
        then have "parseIPv6Groups (b # bs) (Some zs) (groups_text (c # cs)) = Some ((b # bs) @ c # cs, Some zs, [])"
          using groups_parse [of c cs "b # bs" "Some zs"] bounds(2) len unfolding cons by simp
        then show ?thesis unfolding v Cons cons using groups_parse_ellipsis [of b bs "[]" "groups_text (c # cs)"] bounds(1) len r
          groups_text_hd(2) [of c cs] unfolding Cons by simp
      qed
      moreover have "length (take zs gs @ drop ze gs) < 8" using r assms(1) by simp
      ultimately show ?thesis unfolding t using no fill by (simp add: expand_ellipsis_def)
    qed
  qed
qed


lemma trim_space_id: "s \<noteq> [] \<Longrightarrow> \<not> is_space (hd s) \<Longrightarrow> \<not> is_space (last s) \<Longrightarrow> trim_space s = s"
proof -
  assume s: "s \<noteq> []" "\<not> is_space (hd s)" "\<not> is_space (last s)"
  then have "dropWhile is_space s = s" by (cases s) auto
  moreover have "dropWhile is_space (rev s) = rev s" using s by (cases s rule: rev_cases) auto
  ultimately show ?thesis by (simp add: trim_space_def)
qed

lemma hex_not_space: "is_hex c \<or> c = CHR '':'' \<Longrightarrow> \<not> is_space c"
  by (auto simp: is_hex_def is_space_def Let_def)

lemma digit_not_space: "is_digit c \<Longrightarrow> \<not> is_space c"
  by (auto simp: is_digit_def is_space_def)

lemma v6_text_colon:
  assumes "length gs = 8"
  shows "CHR '':'' \<in> set (v6_text gs)"
proof -
  obtain g h hs where "gs = g # h # hs" using assms by (cases gs; cases "tl gs") auto
  then show ?thesis using groups_colon [of g h hs] by (cases "zero_run gs") (auto simp: v6_text_def)
qed

lemma Addr_String_v6: "Addr_String (IPv6 gs zone) = v6_text gs @ (if zone = [] then [] else CHR ''%'' # zone)"
  by (simp add: v6_text_def split: prod.splits)

lemma v4_text_digits:
  assumes "fs \<noteq> []"
  shows "is_digit (hd (join_with c (map fmt_nat fs))) \<and> is_digit (last (join_with c (map fmt_nat fs))) \<and> join_with c (map fmt_nat fs) \<noteq> []"
  using assms
proof (induction fs rule: induct_list012)
  case (2 v)
  then show ?case using fmt_nat_digits [of v] fmt_nat_nonempty [of v] by (auto simp: list_all_iff)
next
  case (3 v u fs)
  then show ?case using hd_fmt_nat [of v] by auto
qed simp

lemma text_trimmed:
  assumes "well_formed a"
  shows "trim_space (Addr_String a) = Addr_String a"
proof (cases a)
  case (IPv4 fs)
  then have "fs \<noteq> []" using assms by auto
  then show ?thesis unfolding IPv4 using v4_text_digits [of fs "CHR ''.''"] digit_not_space
    by (simp add: trim_space_id)
next
  case (IPv6 gs zone)
  then have gs: "length gs = 8" and zone: "zone \<noteq> [] \<longrightarrow> \<not> is_space (last zone)" using assms by auto
  have ne: "v6_text gs \<noteq> []" using v6_text_colon [OF gs] by auto
  have "\<not> is_space (hd (v6_text gs))" "\<not> is_space (last (v6_text gs))"
    using v6_text_chars [of gs] hex_not_space ne by (meson hd_in_set last_in_set)+
  then show ?thesis unfolding IPv6 Addr_String_v6 using ne zone by (intro trim_space_id) auto
qed

theorem parse_text:
  assumes "well_formed a"
  shows "ParseAddr (Addr_String a) = Some a"
proof (cases a)
  case (IPv4 fs)
  then obtain v u vs where fs: "fs = v # u # vs" "length fs = 4" "\<forall>v \<in> set fs. v \<le> 255"
    using assms by (cases fs rule: list.exhaust; cases "tl fs") auto
  have digits: "\<forall>c \<in> set (fmt_nat v). is_digit c" using fmt_nat_digits [of v] by (simp add: list_all_iff)
  have "dropWhile (\<lambda>c. c \<notin> {CHR ''.'', CHR '':'', CHR ''%''}) (fmt_nat v @ CHR ''.'' # t) = CHR ''.'' # t" for t
    using digits by (subst dropWhile_append2) (auto simp: is_digit_def)
  then show ?thesis unfolding IPv4 using v4_text [of v "u # vs" "[]"] fs by (simp add: ParseAddr_def)
next
  case (IPv6 gs zone)
  then have gs: "length gs = 8" "\<forall>g \<in> set gs. g < 65536" using assms by auto
  obtain cs where "dropWhile (\<lambda>c. c \<notin> {CHR ''.'', CHR '':'', CHR ''%''}) (Addr_String a) = CHR '':'' # cs"
    using first_special [OF v6_text_chars v6_text_colon [OF gs(1)]] unfolding IPv6 Addr_String_v6 by blast
  then show ?thesis using parse_v6_text [OF gs, of zone] unfolding IPv6 by (simp add: ParseAddr_def Addr_String_v6 del: Addr_String.simps)
qed

section \<open>One identity per address\<close>

text \<open>The address a text denotes, with IPv4 addresses mapped into IPv6 taken back.\<close>

definition address_of :: "string \<Rightarrow> Addr option" where
  "address_of raw = map_option Unmap (ParseAddr (trim_space raw))"

lemma trim_space_last: "trim_space s \<noteq> [] \<Longrightarrow> \<not> is_space (last (trim_space s))"
  by (metis hd_dropWhile last_rev trim_space_def rev_is_Nil_conv)

lemma address_well_formed: "address_of raw = Some a \<Longrightarrow> well_formed a"
  unfolding address_of_def using parse_well_formed trim_space_last by auto

lemma canonical_address: "canonicalIP raw = map_option Addr_String (address_of raw)"
  by (simp add: canonicalIP_def address_of_def split: option.splits)

lemma Unmap_well_formed: "well_formed a \<Longrightarrow> Unmap a = a"
  by (cases a) auto

lemma address_of_text: "well_formed a \<Longrightarrow> address_of (Addr_String a) = Some a"
  by (simp add: address_of_def text_trimmed parse_text Unmap_well_formed)

text \<open>
  C37: Two texts get the same canonical form exactly when they denote the same address, however it is spelled: with
  other zeros or letters, an ellipsis elsewhere, or an IPv4 address mapped into IPv6. The canonical form denotes
  that address and is its own canonical form.
\<close>

theorem canonical_identity:
  "(canonicalIP x = canonicalIP y \<longleftrightarrow> address_of x = address_of y) \<and>
   (\<forall>s. canonicalIP x = Some s \<longrightarrow> canonicalIP s = Some s \<and> address_of s = address_of x)"
proof
  have again: "address_of x = Option.bind (canonicalIP x) address_of" for x
    unfolding canonical_address using address_well_formed address_of_text by (cases "address_of x") auto
  show "canonicalIP x = canonicalIP y \<longleftrightarrow> address_of x = address_of y"
    using again [of x] again [of y] by (auto simp: canonical_address)
  show "\<forall>s. canonicalIP x = Some s \<longrightarrow> canonicalIP s = Some s \<and> address_of s = address_of x"
    unfolding canonical_address using address_well_formed address_of_text by auto
qed

theorem canonical_identity_witness:
  "canonicalIP '' 1.2.3.4'' = canonicalIP ''1.2.3.4'' \<and> canonicalIP ''1.2.3.4'' = Some ''1.2.3.4''"
proof -
  have a: "canonicalIP ''1.2.3.4'' = Some ''1.2.3.4''" by code_simp
  have b: "address_of '' 1.2.3.4'' = address_of ''1.2.3.4''" by code_simp
  show ?thesis by (rule conjI [OF conjunct1 [OF canonical_identity, THEN iffD2, OF b] a])
qed

end
