(* ===== verification/Antifraud.thy ===== *)
theory Antifraud
  imports Ip_Address Ban_Cache Replication_Transport "HOL-Library.AList"
begin

text \<open>
  The anti-fraud plugin (\<^verbatim>\<open>internal/plugins/antifraud\<close>: \<^verbatim>\<open>state.go\<close>, \<^verbatim>\<open>module.go\<close>,
  \<^verbatim>\<open>analyzer.go\<close>, \<^verbatim>\<open>plugin.go\<close>). What the plugin holds in memory stands beside the tables of the node, so that an
  operation is one computation over both. A map of the source whose size is taken is an association list.
  Logging is left out. A goroutine that nobody waits for is an operation of its own, which may run at any later
  moment; the calls of \<open>PropagateAll\<close>, whose results are dropped too, run where they are started.
\<close>

section \<open>State\<close>

type_synonym ip_windows = "(string \<times> (string \<times> time) list) list"

record guard = node +
  g_ready :: bool
  g_bans :: "string \<rightharpoonup> time"
  g_sink :: "ban_cache option"
  g_users :: ip_windows
  g_limits :: "string \<rightharpoonup> int"
  g_dryRunLogTime :: "string \<rightharpoonup> time"
  g_slaves :: "(string \<times> time) list"

text \<open>An access to the memory of the process: it cannot fail.\<close>

definition mem :: "('d \<Rightarrow> 'a \<times> 'd) \<Rightarrow> ('d, 'a) prog" where
  "mem f w = (Inr (fst (f (w_db w))), w\<lparr>w_db := snd (f (w_db w))\<rparr>)"

section \<open>The windows of addresses\<close>

text \<open>
  \<open>addHashedEventLocked\<close>: an observation never makes a newer one look older, and addresses that were last seen
  before the window are dropped. The length of the window is taken back from the time of the observation.
\<close>

definition addHashedEventLocked :: "string \<Rightarrow> string \<Rightarrow> duration \<Rightarrow> time \<Rightarrow> ip_windows \<Rightarrow> int \<times> ip_windows" where
  "addHashedEventLocked email ipHash ttl ts users =
     (let ips = (case map_of users email of None \<Rightarrow> [] | Some ips \<Rightarrow> ips);
          ips = (if (case map_of ips ipHash of None \<Rightarrow> True | Some lastSeen \<Rightarrow> lastSeen < ts) then AList.update ipHash ts ips else ips);
          ips = filter (\<lambda>(_, lastSeen). \<not> lastSeen < ts - ttl) ips
      in (int (length ips), AList.update email ips users))"

definition ActiveIPCount :: "string \<Rightarrow> ip_windows \<Rightarrow> int" where
  "ActiveIPCount email users = (case map_of users email of None \<Rightarrow> 0 | Some ips \<Rightarrow> int (length ips))"

definition AddHashedEvent :: "string \<Rightarrow> string \<Rightarrow> duration \<Rightarrow> time \<Rightarrow> ip_windows \<Rightarrow> int \<times> ip_windows" where
  "AddHashedEvent email ipHash ttl ts users =
     (if ipHash = [] then (ActiveIPCount email users, users) else addHashedEventLocked email ipHash ttl ts users)"

definition AddEvent :: "string \<Rightarrow> string \<Rightarrow> string \<Rightarrow> duration \<Rightarrow> time \<Rightarrow> ip_windows \<Rightarrow> int \<times> ip_windows" where
  "AddEvent hashSecret email ip ttl ts users =
     (let ipHash = HashIP hashSecret ip
      in if ipHash = [] then (ActiveIPCount email users, users) else AddHashedEvent email ipHash ttl ts users)"

definition State_Clean :: "duration \<Rightarrow> time \<Rightarrow> ip_windows \<Rightarrow> ip_windows" where
  "State_Clean ttl ts users =
     filter (\<lambda>(_, ips). ips \<noteq> []) (map (\<lambda>(email, ips). (email, filter (\<lambda>(_, lastSeen). \<not> lastSeen < ts - ttl) ips)) users)"

definition State_Snapshot :: "ip_windows \<Rightarrow> (string \<times> string list) list" where
  "State_Snapshot users = map (\<lambda>(email, ips). (email, map fst ips)) (filter (\<lambda>(_, ips). ips \<noteq> []) users)"

section \<open>The bans in memory\<close>

definition isBanned :: "string \<Rightarrow> ('m guard_scheme, bool) prog" where
  "isBanned email = bind (mem (\<lambda>t. (g_bans t email, t))) (\<lambda>entry.
     bind now (\<lambda>ts. ret (case entry of None \<Rightarrow> False | Some expiresAt \<Rightarrow> ts < expiresAt)))"

text \<open>The sink is the cache of the plugin host, which reads the clock itself.\<close>

definition push_ban :: "string \<Rightarrow> time \<Rightarrow> ('m guard_scheme, unit) prog" where
  "push_ban email expiresAt = bind now (\<lambda>ts. mem (\<lambda>t. ((), t\<lparr>g_sink := map_option (PushBanUpdate ts email expiresAt) (g_sink t)\<rparr>)))"

definition setBan :: "string \<Rightarrow> time \<Rightarrow> ('m guard_scheme, unit) prog" where
  "setBan email expiresAt =
     bind (mem (\<lambda>t. (g_sink t, t\<lparr>g_bans := (g_bans t)(email \<mapsto> expiresAt)\<rparr>))) (\<lambda>sink.
     if sink = None then ret () else push_ban email expiresAt)"

definition clearBan :: "string \<Rightarrow> ('m guard_scheme, unit) prog" where
  "clearBan email =
     bind (mem (\<lambda>t. (g_sink t, t\<lparr>g_bans := (g_bans t)(email := None)\<rparr>))) (\<lambda>sink.
     if sink = None then ret () else mem (\<lambda>t. ((), t\<lparr>g_sink := map_option (PushUnban email) (g_sink t)\<rparr>)))"

text \<open>The replay visits the active bans in the order the map yields them, \<open>order\<close>.\<close>

definition setSink :: "((string \<rightharpoonup> time) \<Rightarrow> (string \<times> time) list) \<Rightarrow> ban_cache option \<Rightarrow> ('m guard_scheme, unit) prog" where
  "setSink order sink =
     bind (mem (\<lambda>t. (g_bans t, t\<lparr>g_sink := sink\<rparr>))) (\<lambda>bans.
     if sink = None then ret () else for_each (\<lambda>(email, expiresAt). push_ban email expiresAt) (order bans))"

section \<open>Configuration\<close>

record antifraud_Config =
  ac_Enabled :: bool
  ac_DryRun :: bool
  ac_LogPath :: string
  ac_LogRotationSizeMB :: int
  ac_LogRotationMaxAge :: string
  ac_IPLimitTTL :: string
  ac_BanDuration :: string
  ac_SuspiciousIPThreshold :: int
  ac_ReportToMaster :: bool
  ac_IsMaster :: bool
  ac_APIKey :: string
  ac_HashSecretConfigured :: bool

definition antifraud_default :: antifraud_Config where
  "antifraud_default = \<lparr>ac_Enabled = False, ac_DryRun = False, ac_LogPath = [], ac_LogRotationSizeMB = 50,
     ac_LogRotationMaxAge = ''5m'', ac_IPLimitTTL = ''3m'', ac_BanDuration = ''24h'', ac_SuspiciousIPThreshold = 3,
     ac_ReportToMaster = False, ac_IsMaster = False, ac_APIKey = ''xraytool_default_antifraud_salt_secret'',
     ac_HashSecretConfigured = False\<rparr>"

text \<open>A value of another type than expected is ignored.\<close>

definition bool_field :: "json_map \<Rightarrow> string \<Rightarrow> (bool \<Rightarrow> 'c \<Rightarrow> 'c) \<Rightarrow> 'c \<Rightarrow> 'c" where
  "bool_field raw key upd c = (case map_of raw key of Some (JBool b) \<Rightarrow> upd b c | _ \<Rightarrow> c)"

definition int_field :: "json_map \<Rightarrow> string \<Rightarrow> (int \<Rightarrow> 'c \<Rightarrow> 'c) \<Rightarrow> 'c \<Rightarrow> 'c" where
  "int_field raw key upd c = (case map_of raw key of Some (JNum n) \<Rightarrow> upd n c | _ \<Rightarrow> c)"

definition text_field :: "json_map \<Rightarrow> string \<Rightarrow> (string \<Rightarrow> 'c \<Rightarrow> 'c) \<Rightarrow> 'c \<Rightarrow> 'c" where
  "text_field raw key upd c = (case map_of raw key of Some (JStr s) \<Rightarrow> upd s c | _ \<Rightarrow> c)"

definition antifraud_parseConfig :: "json_map \<Rightarrow> antifraud_Config" where
  "antifraud_parseConfig raw =
     (bool_field raw ''is_master'' (\<lambda>v c. c\<lparr>ac_IsMaster := v\<rparr>)
     (text_field raw ''salt_secret'' (\<lambda>v c. if trim_space v \<noteq> [] then c\<lparr>ac_APIKey := trim_space v, ac_HashSecretConfigured := True\<rparr> else c)
     (bool_field raw ''report_to_master'' (\<lambda>v c. c\<lparr>ac_ReportToMaster := v\<rparr>)
     (text_field raw ''log_rotation_max_age'' (\<lambda>v c. c\<lparr>ac_LogRotationMaxAge := v\<rparr>)
     (int_field raw ''log_rotation_size_mb'' (\<lambda>v c. c\<lparr>ac_LogRotationSizeMB := v\<rparr>)
     (text_field raw ''ban_duration'' (\<lambda>v c. c\<lparr>ac_BanDuration := v\<rparr>)
     (text_field raw ''ip_limit_ttl'' (\<lambda>v c. c\<lparr>ac_IPLimitTTL := v\<rparr>)
     (int_field raw ''max_ips'' (\<lambda>v c. c\<lparr>ac_SuspiciousIPThreshold := v\<rparr>)
     (text_field raw ''log_path'' (\<lambda>v c. c\<lparr>ac_LogPath := v\<rparr>)
     (bool_field raw ''dry_run'' (\<lambda>v c. c\<lparr>ac_DryRun := v\<rparr>)
     (bool_field raw ''enabled'' (\<lambda>v c. c\<lparr>ac_Enabled := v\<rparr>)
      antifraud_default)))))))))))"

text \<open>The length of the window that \<open>Run\<close> hands to its workers.\<close>

definition ip_ttl :: "antifraud_Config \<Rightarrow> duration" where
  "ip_ttl c = (case ParseDuration (ac_IPLimitTTL c) of None \<Rightarrow> 3 * Minute | Some d \<Rightarrow> d)"

section \<open>The analyzer\<close>

record log_event =
  le_email :: string
  le_ip :: string
  le_isHashed :: bool
  le_occurredAt :: time

record domain_FraudEvent =
  df_Email :: string
  df_IP :: string
  df_OccurredAt :: time

record 'd analyzer =
  an_cfg :: antifraud_Config
  an_ipTTL :: duration
  an_maxIPs :: int
  an_banner :: "'d Engine"
  an_propagator :: "'d propagator option"
  an_reporter :: "(domain_FraudEvent list \<Rightarrow> ('d, unit) prog) option"

text \<open>\<open>refreshDeviceCache\<close>: when the query fails the old limits stay.\<close>

definition refreshDeviceCache :: "('m guard_scheme, unit) prog" where
  "refreshDeviceCache =
     bind (attempt Subs_GetAllEmailsAndMaxDevices) (\<lambda>r. case r of
       Inl _ \<Rightarrow> ret ()
     | Inr rows \<Rightarrow> mem (\<lambda>t. ((), t\<lparr>g_limits := foldl (\<lambda>m (email, n). if n > 0 then m(email \<mapsto> n) else m) Map.empty rows\<rparr>)))"

text \<open>\<open>getDeviceLimit\<close>: a miss stores and returns 1 and starts \<open>fetchDeviceLimit\<close>.\<close>

definition getDeviceLimit :: "string \<Rightarrow> ('m guard_scheme, int) prog" where
  "getDeviceLimit email = mem (\<lambda>t. case g_limits t email of
     Some limit \<Rightarrow> (if limit \<le> 0 then 1 else limit, t)
   | None \<Rightarrow> (1, t\<lparr>g_limits := (g_limits t)(email \<mapsto> 1)\<rparr>))"

definition fetchDeviceLimit :: "string \<Rightarrow> ('m guard_scheme, unit) prog" where
  "fetchDeviceLimit email =
     bind (attempt (Subs_FindByEmail email)) (\<lambda>r.
     let val = (case r of Inr sub \<Rightarrow> if s_MaxDevices sub > 0 then s_MaxDevices sub else 1 | Inl _ \<Rightarrow> 1)
     in mem (\<lambda>t. ((), t\<lparr>g_limits := (g_limits t)(email \<mapsto> val)\<rparr>)))"

text \<open>\<^verbatim>\<open>%s\<close> of a duration: its fraction without trailing zeros, and the units down to seconds.\<close>

definition fmt_fraction :: "int \<Rightarrow> nat \<Rightarrow> string" where
  "fmt_fraction v prec =
     (let ds = rev (dropWhile (\<lambda>c. c = CHR ''0'') (rev (pad prec (v mod 10 ^ prec)))) in if ds = [] then [] else CHR ''.'' # ds)"

definition fmt_duration :: "duration \<Rightarrow> string" where
  "fmt_duration d =
     (let u = \<bar>d\<bar>; sign = (if d < 0 then ''-'' else []); s = u div Second
      in if u = 0 then ''0s''
         else if u < 1000 then sign @ fmt_int u @ ''ns''
         else if u < 1000000 then sign @ fmt_int (u div 1000) @ fmt_fraction u 3 @ [CHR 0xC2, CHR 0xB5] @ ''s''
         else if u < Second then sign @ fmt_int (u div 1000000) @ fmt_fraction u 6 @ ''ms''
         else sign @ (if s \<ge> 3600 then fmt_int (s div 3600) @ ''h'' else []) @ (if s \<ge> 60 then fmt_int (s div 60 mod 60) @ ''m'' else [])
           @ fmt_int (s mod 60) @ fmt_fraction u 9 @ ''s'')"

definition fraudReason :: "string \<Rightarrow> int \<Rightarrow> int \<Rightarrow> int \<Rightarrow> int \<Rightarrow> duration \<Rightarrow> string" where
  "fraudReason email ipCount threshold baseLimit devices ttl =
     fmt_int ipCount @ '' unique IPs in '' @ fmt_duration ttl @ '' window (limit '' @ fmt_int threshold @ '' = '' @ fmt_int baseLimit
     @ '' base '' @ [CHR 0xC3, CHR 0x97] @ '' '' @ fmt_int devices @ '' devices) for '' @ go_quote email"

definition propagate :: "'d propagator option \<Rightarrow> antifraud_Config \<Rightarrow> string \<Rightarrow> string \<Rightarrow> ('d, unit) prog" where
  "propagate propagator c command email = (case propagator of
     Some propagateAll \<Rightarrow>
       if ac_IsMaster c then bind (attempt (propagateAll command [(''email'', email)])) (\<lambda>_. ret ()) else ret ()
   | None \<Rightarrow> ret ())"

definition ban_duration :: "antifraud_Config \<Rightarrow> duration" where
  "ban_duration c = (case ParseDuration (ac_BanDuration c) of None \<Rightarrow> 10 * Minute | Some d \<Rightarrow> d)"

definition enforce :: "'m guard_scheme analyzer \<Rightarrow> string \<Rightarrow> string \<Rightarrow> ('m guard_scheme, unit) prog" where
  "enforce an email reason =
     bind now (\<lambda>ts. let expiresAt = ts + ban_duration (an_cfg an) in
     bind (attempt (Bans_Upsert \<lparr>bn_ID = 0, bn_Email = email, bn_BannedAt = ts, bn_ExpiresAt = expiresAt, bn_Reason = reason\<rparr>)) (\<lambda>r.
     case r of
       Inl _ \<Rightarrow> ret ()
     | Inr _ \<Rightarrow>
         bind (setBan email expiresAt) (\<lambda>_.
         bind (attempt (eg_BanUser (an_banner an) email)) (\<lambda>_.
         propagate (an_propagator an) (an_cfg an) ''rmuser'' email))))"

text \<open>What follows the count of addresses: the report of a slave, or the decision of the node itself.\<close>

definition judge :: "'m guard_scheme analyzer \<Rightarrow> string \<Rightarrow> string \<Rightarrow> time \<Rightarrow> time \<Rightarrow> int \<Rightarrow> int \<Rightarrow> ('m guard_scheme, unit) prog" where
  "judge an email ipHash occurredAt ts seen devices =
     (let threshold = wrap64 (an_maxIPs an * devices) in case an_reporter an of
        Some report \<Rightarrow> map_error (ErrWrap ''queue anti-fraud event for master: '')
          (report [\<lparr>df_Email = email, df_IP = ipHash, df_OccurredAt = occurredAt\<rparr>])
      | None \<Rightarrow>
          if seen > threshold then
            (if ac_DryRun (an_cfg an) then
               bind now (\<lambda>later. mem (\<lambda>t. ((), case g_dryRunLogTime t email of
                 Some lastLog \<Rightarrow> if later - lastLog > Minute then t\<lparr>g_dryRunLogTime := (g_dryRunLogTime t)(email \<mapsto> ts)\<rparr> else t
               | None \<Rightarrow> t\<lparr>g_dryRunLogTime := (g_dryRunLogTime t)(email \<mapsto> ts)\<rparr>)))
             else enforce an email (fraudReason email seen threshold (an_maxIPs an) devices (an_ipTTL an)))
          else ret ())"

definition observed_at :: "time \<Rightarrow> time \<Rightarrow> time" where
  "observed_at ts t = (let occurredAt = (if t = zero_time then ts else t) in if occurredAt > ts then ts else occurredAt)"

text \<open>\<open>handleEvent\<close>; what it does for a user who is not banned is \<open>examine\<close>.\<close>

definition examine :: "'m guard_scheme analyzer \<Rightarrow> log_event \<Rightarrow> ('m guard_scheme, unit) prog" where
  "examine an e =
     bind now (\<lambda>ts. let occurredAt = observed_at ts (le_occurredAt e) in
       if occurredAt < ts - an_ipTTL an then ret ()
       else let ipHash = (if le_isHashed e then le_ip e else HashIP (ac_APIKey (an_cfg an)) (le_ip e)) in
         if \<not> le_isHashed e \<and> ipHash = [] then ret ()
         else bind (mem (\<lambda>t. let (n, users) = AddHashedEvent (le_email e) ipHash (an_ipTTL an) occurredAt (g_users t)
                              in (n, t\<lparr>g_users := users\<rparr>))) (\<lambda>seen.
           bind (getDeviceLimit (le_email e)) (\<lambda>devices.
           judge an (le_email e) ipHash occurredAt ts seen devices)))"

definition handleEvent :: "'m guard_scheme analyzer \<Rightarrow> log_event \<Rightarrow> ('m guard_scheme, unit) prog" where
  "handleEvent an e = bind (isBanned (le_email e)) (\<lambda>banned. if banned then ret () else examine an e)"

section \<open>Lifting bans\<close>

definition discardExpiredBan :: "string \<Rightarrow> ('m guard_scheme, unit) prog" where
  "discardExpiredBan email =
     bind (attempt (Bans_DeleteByEmail email)) (\<lambda>r. case r of Inl _ \<Rightarrow> ret () | Inr _ \<Rightarrow> clearBan email)"

definition eligible :: "time \<Rightarrow> User \<Rightarrow> Subscription \<Rightarrow> bool" where
  "eligible ts user sub \<longleftrightarrow> \<not> (u_IsBlocked user \<or> s_Status sub \<noteq> ''active'' \<or>
     (case s_EndsAt sub of None \<Rightarrow> False | Some endsAt \<Rightarrow> \<not> endsAt > ts))"

definition restore_user :: "'m guard_scheme analyzer \<Rightarrow> string \<Rightarrow> ('m guard_scheme, unit) prog" where
  "restore_user uc email =
     bind (attempt (eg_UnbanUser (an_banner uc) email)) (\<lambda>r. case r of
       Inl _ \<Rightarrow> ret ()
     | Inr _ \<Rightarrow>
         bind (attempt (Bans_DeleteByEmail email)) (\<lambda>r. case r of
           Inl _ \<Rightarrow> ret ()
         | Inr _ \<Rightarrow>
             bind (clearBan email) (\<lambda>_.
             propagate (an_propagator uc) (an_cfg uc) ''newuser'' email)))"

definition tryUnban :: "'m guard_scheme analyzer \<Rightarrow> AntifraudBan \<Rightarrow> ('m guard_scheme, unit) prog" where
  "tryUnban uc ban = (let email = bn_Email ban in
     bind (attempt (Subs_FindByEmail email)) (\<lambda>r. case r of
       Inl e \<Rightarrow> if error_is e ErrNotFound then discardExpiredBan email else ret ()
     | Inr sub \<Rightarrow>
         bind (attempt (Users_FindByID (s_UserID sub))) (\<lambda>r. case r of
           Inl e \<Rightarrow> if error_is e ErrNotFound then discardExpiredBan email else ret ()
         | Inr user \<Rightarrow>
             bind now (\<lambda>ts. if \<not> eligible ts user sub then discardExpiredBan email else restore_user uc email))))"

definition processExpired :: "'m guard_scheme analyzer \<Rightarrow> ('m guard_scheme, unit) prog" where
  "processExpired uc =
     bind (attempt Bans_FindExpired) (\<lambda>r. case r of Inl _ \<Rightarrow> ret () | Inr expired \<Rightarrow> for_each (tryUnban uc) expired)"

section \<open>The module\<close>

definition ForceUnban :: "string \<Rightarrow> ('m guard_scheme, unit) prog" where
  "ForceUnban email = bind (clearBan email) (\<lambda>_. bind (attempt (Bans_DeleteByEmail email)) (\<lambda>_. ret ()))"

definition recoverBansFromDB :: "'m guard_scheme analyzer \<Rightarrow> ('m guard_scheme, unit) prog" where
  "recoverBansFromDB m =
     bind (attempt Bans_FindActive) (\<lambda>r. case r of
       Inl _ \<Rightarrow> ret ()
     | Inr activeBans \<Rightarrow> for_each (\<lambda>ban.
         bind (setBan (bn_Email ban) (bn_ExpiresAt ban)) (\<lambda>_.
         bind (attempt (eg_BanUser (an_banner m) (bn_Email ban))) (\<lambda>_. ret ()))) activeBans)"

record SnapshotData =
  sd_State :: "(string \<times> string list) list"
  sd_ActiveSlaves :: int
  sd_HashKeyID :: string

definition GetSnapshot :: "'m guard_scheme analyzer \<Rightarrow> ('m guard_scheme, SnapshotData) prog" where
  "GetSnapshot m =
     bind now (\<lambda>ts.
     bind (mem (\<lambda>t. let live = filter (\<lambda>(_, lastSeen). ts - lastSeen < 5 * Minute) (g_slaves t) in (int (length live), t\<lparr>g_slaves := live\<rparr>))) (\<lambda>n.
     bind (mem (\<lambda>t. (State_Snapshot (g_users t), t))) (\<lambda>users.
     ret \<lparr>sd_State = users, sd_ActiveSlaves = n, sd_HashKeyID = HashKeyID (ac_APIKey (an_cfg m))\<rparr>)))"

text \<open>
  Handing an event to the analyzer: the queue may be full and the wait for the answer may be cancelled, and both
  are faults here. A cancelled wait leaves the event to the analyzer.
\<close>

definition queue_slot :: "('d, unit) prog" where
  "queue_slot = stmt (\<lambda>d. (Inr (), d))"

fun ingest_each :: "'m guard_scheme analyzer \<Rightarrow> domain_FraudEvent list \<Rightarrow> ('m guard_scheme, unit) prog" where
  "ingest_each m [] = ret ()"
| "ingest_each m (incoming # evs) =
     (if df_Email incoming = [] \<or> df_IP incoming = [] then ingest_each m evs
      else bind now (\<lambda>ts. bind queue_slot (\<lambda>_.
        bind (attempt (handleEvent m \<lparr>le_email = df_Email incoming, le_ip = df_IP incoming, le_isHashed = True,
          le_occurredAt = or_now ts (df_OccurredAt incoming)\<rparr>)) (\<lambda>r.
        bind queue_slot (\<lambda>_. case r of Inl e \<Rightarrow> fail e | Inr _ \<Rightarrow> ingest_each m evs)))))"

definition Module_IngestEvents :: "'m guard_scheme analyzer \<Rightarrow> string \<Rightarrow> domain_FraudEvent list \<Rightarrow> ('m guard_scheme, unit) prog" where
  "Module_IngestEvents m slaveID evs =
     bind (mem (\<lambda>t. (g_ready t, t))) (\<lambda>ready.
     if \<not> ready then fail (Err ''antifraud processor is not ready'')
     else bind (ingest_each m evs) (\<lambda>_.
       if slaveID = [] then ret ()
       else bind now (\<lambda>ts. mem (\<lambda>t. ((), t\<lparr>g_slaves := AList.update slaveID ts (g_slaves t)\<rparr>)))))"

section \<open>The plugin\<close>

fun checked_events :: "string \<Rightarrow> string \<Rightarrow> api_FraudEvent list \<Rightarrow> domain_FraudEvent list result" where
  "checked_events expected sourceID [] = Inr []"
| "checked_events expected sourceID (e # es) =
     (if af_HashKeyID e \<noteq> [] \<and> af_HashKeyID e \<noteq> expected then
        Inl (Err (''antifraud IP hash key mismatch from '' @ sourceID @ '': got '' @ af_HashKeyID e @ '', want '' @ expected))
      else then_result (checked_events expected sourceID es) (\<lambda>rest.
        Inr (\<lparr>df_Email = af_Email e, df_IP = af_IP e, df_OccurredAt = af_OccurredAt e\<rparr> # rest)))"

definition Plugin_IngestEvents :: "'m guard_scheme analyzer option \<Rightarrow> 'm guard_scheme fraud_sink" where
  "Plugin_IngestEvents mo sourceID evs = (case mo of
     None \<Rightarrow> ret ()
   | Some m \<Rightarrow>
       bind (GetSnapshot m) (\<lambda>snapshot.
       bind (lift_result (checked_events (sd_HashKeyID snapshot) sourceID evs)) (\<lambda>domainEvts.
       Module_IngestEvents m sourceID domainEvts)))"

definition replicationFraudReporter ::
  "(api_FraudEvent list \<Rightarrow> ('d, unit) prog) \<Rightarrow> string \<Rightarrow> domain_FraudEvent list \<Rightarrow> ('d, unit) prog"
where
  "replicationFraudReporter relay hashKeyID evs =
     relay (map (\<lambda>e. \<lparr>af_Email = df_Email e, af_IP = df_IP e, af_OccurredAt = df_OccurredAt e, af_HashKeyID = hashKeyID\<rparr>) evs)"

definition Plugin_IsBanned :: "'m guard_scheme analyzer option \<Rightarrow> string \<Rightarrow> ('m guard_scheme, bool) prog" where
  "Plugin_IsBanned mo email = (case mo of None \<Rightarrow> ret False | Some _ \<Rightarrow> isBanned email)"

definition Plugin_ForceUnban :: "'m guard_scheme analyzer option \<Rightarrow> string \<Rightarrow> ('m guard_scheme, unit) prog" where
  "Plugin_ForceUnban mo email = (case mo of None \<Rightarrow> ret () | Some _ \<Rightarrow> ForceUnban email)"

end
