(* ===== verification/Antifraud_Window.thy ===== *)
theory Antifraud_Window
  imports Antifraud
begin

text \<open>
  The number of addresses the anti-fraud plugin compares with the limit: a sequence of observations and sweeps,
  in any order of their times, against the set of addresses a user was seen from.
\<close>

section \<open>Sequences of observations\<close>

datatype window_op = Observe string string time | Sweep time

primrec op_time :: "window_op \<Rightarrow> time" where
  "op_time (Observe email h t) = t"
| "op_time (Sweep t) = t"

fun window_step :: "duration \<Rightarrow> ip_windows \<Rightarrow> window_op \<Rightarrow> ip_windows" where
  "window_step ttl users (Observe email h t) = snd (addHashedEventLocked email h ttl t users)"
| "window_step ttl users (Sweep t) = State_Clean ttl t users"

definition windows :: "duration \<Rightarrow> window_op list \<Rightarrow> ip_windows" where
  "windows ttl ops = foldl (window_step ttl) [] ops"

text \<open>The addresses of a user seen at a time from \<open>c\<close> on.\<close>

definition seen_since :: "time \<Rightarrow> string \<Rightarrow> window_op list \<Rightarrow> string set" where
  "seen_since c email ops = {h. \<exists>t. Observe email h t \<in> set ops \<and> c \<le> t}"

section \<open>The contents of a window\<close>

definition window :: "ip_windows \<Rightarrow> string \<Rightarrow> (string \<times> time) list" where
  "window users email = (case map_of users email of None \<Rightarrow> [] | Some ips \<Rightarrow> ips)"

lemma set_update:
  assumes "distinct (map fst xs)"
  shows "set (AList.update k v xs) = insert (k, v) {p \<in> set xs. fst p \<noteq> k}"
proof -
  have d: "distinct (map fst (AList.update k v xs))" using assms by (rule distinct_update)
  have mem: "p \<in> set ys \<longleftrightarrow> map_of ys (fst p) = Some (snd p)" if "distinct (map fst ys)" for p and ys :: "('a \<times> 'b) list"
    using that map_of_eq_Some_iff [of ys "fst p" "snd p"] by simp
  have "p \<in> set (AList.update k v xs) \<longleftrightarrow> p \<in> insert (k, v) {p \<in> set xs. fst p \<noteq> k}" for p
    unfolding insert_iff mem_Collect_eq mem [OF assms] mem [OF d] update_conv' by (cases p) auto
  then show ?thesis by blast
qed

lemma distinct_filter_keys: "distinct (map fst xs) \<Longrightarrow> distinct (map fst (filter P xs))"
  by (induction xs) auto

lemma window_update: "window (AList.update email ips users) e = (if e = email then ips else window users e)"
  by (simp add: window_def update_conv')

lemma window_Clean:
  assumes "distinct (map fst users)"
  shows "window (State_Clean ttl ts users) email = filter (\<lambda>(_, lastSeen). \<not> lastSeen < ts - ttl) (window users email)"
  using assms
proof (induction users)
  case (Cons u users)
  obtain e ips where u: "u = (e, ips)" by fastforce
  have absent: "map_of (State_Clean ttl ts users) e = None" using Cons.prems unfolding u
    by (auto simp: State_Clean_def map_of_eq_None_iff image_iff)
  show ?case using Cons absent unfolding u window_def State_Clean_def by (auto split: option.splits)
qed (simp add: window_def State_Clean_def)

lemma distinct_Clean: "distinct (map fst users) \<Longrightarrow> distinct (map fst (State_Clean ttl ts users))"
  unfolding State_Clean_def by (rule distinct_filter_keys) (simp add: comp_def case_prod_unfold)

definition exact :: "time \<Rightarrow> window_op list \<Rightarrow> ip_windows \<Rightarrow> bool" where
  "exact c ops users \<longleftrightarrow> distinct (map fst users) \<and> (\<forall>email. distinct (map fst (window users email)) \<and>
     (\<forall>(h, t) \<in> set (window users email). Observe email h t \<in> set ops) \<and>
     (\<forall>h t. Observe email h t \<in> set ops \<longrightarrow> c \<le> t \<longrightarrow> (\<exists>t' \<ge> t. (h, t') \<in> set (window users email))))"

text \<open>The window of one user after an observation, before and after the old addresses are dropped.\<close>

definition noted :: "string \<Rightarrow> time \<Rightarrow> (string \<times> time) list \<Rightarrow> (string \<times> time) list" where
  "noted h t ips = (if (case map_of ips h of None \<Rightarrow> True | Some lastSeen \<Rightarrow> lastSeen < t) then AList.update h t ips else ips)"

lemma add_noted:
  "addHashedEventLocked email h ttl t users =
     (int (length (filter (\<lambda>(_, lastSeen). \<not> lastSeen < t - ttl) (noted h t (window users email)))),
      AList.update email (filter (\<lambda>(_, lastSeen). \<not> lastSeen < t - ttl) (noted h t (window users email))) users)"
  by (simp add: addHashedEventLocked_def noted_def window_def Let_def)

lemma noted_distinct: "distinct (map fst ips) \<Longrightarrow> distinct (map fst (noted h t ips))"
  by (auto simp: noted_def distinct_update)

lemma noted_sound: "distinct (map fst ips) \<Longrightarrow> (k, s) \<in> set (noted h t ips) \<Longrightarrow> (k, s) = (h, t) \<or> (k, s) \<in> set ips"
  by (auto simp: noted_def set_update split: if_splits)

lemma noted_keeps:
  assumes "distinct (map fst ips)" and "(k, s) \<in> set ips"
  shows "\<exists>s' \<ge> s. (k, s') \<in> set (noted h t ips)"
proof (cases "k = h")
  case True
  then have "map_of ips h = Some s" using assms by simp
  then show ?thesis using assms True by (cases "s < t") (auto simp: noted_def set_update intro: less_imp_le)
next
  case False
  then show ?thesis using assms by (auto simp: noted_def set_update)
qed

lemma noted_new:
  assumes "distinct (map fst ips)"
  shows "\<exists>s \<ge> t. (h, s) \<in> set (noted h t ips)"
proof (cases "map_of ips h")
  case (Some s)
  then have "(h, s) \<in> set ips" by (rule map_of_SomeD)
  then show ?thesis using Some assms by (cases "s < t") (auto simp: noted_def set_update not_less)
qed (use assms in \<open>auto simp: noted_def set_update\<close>)

lemma exact_observe:
  assumes "exact c ops users" and "t - ttl \<le> c"
  shows "exact c (ops @ [Observe email h t]) (snd (addHashedEventLocked email h ttl t users))"
proof -
  let ?ips = "window users email" and ?keep = "\<lambda>(_, lastSeen). \<not> lastSeen < t - ttl"
  have d: "distinct (map fst users)" "distinct (map fst ?ips)" using assms(1) by (auto simp: exact_def)
  have w: "window (snd (addHashedEventLocked email h ttl t users)) e = (if e = email then filter ?keep (noted h t ?ips) else window users e)" for e
    by (simp add: add_noted window_update)
  have sound: "Observe email k s \<in> set (ops @ [Observe email h t])" if "(k, s) \<in> set (filter ?keep (noted h t ?ips))" for k s
    using that noted_sound [OF d(2), of k s h t] assms(1) by (auto simp: exact_def)
  have complete: "\<exists>s' \<ge> s. (k, s') \<in> set (filter ?keep (noted h t ?ips))" if obs: "Observe email k s \<in> set (ops @ [Observe email h t])" and late: "c \<le> s" for k s
  proof -
    have "\<exists>s' \<ge> s. (k, s') \<in> set (noted h t ?ips)"
    proof (cases "Observe email k s \<in> set ops")
      case True
      then obtain s1 where "s \<le> s1" "(k, s1) \<in> set ?ips" using assms(1) late unfolding exact_def by blast
      then show ?thesis using noted_keeps [OF d(2), of k s1 h t] by (meson order_trans)
    next
      case False
      then show ?thesis using obs noted_new [OF d(2), of t h] by auto
    qed
    then obtain s' where "s \<le> s'" "(k, s') \<in> set (noted h t ?ips)" by blast
    then show ?thesis using late assms(2) by (intro exI [of _ s']) auto
  qed
  show ?thesis unfolding exact_def w
  proof (intro conjI allI)
    show "distinct (map fst (snd (addHashedEventLocked email h ttl t users)))" using d by (simp add: add_noted distinct_update)
  qed (use sound complete assms(1) d in \<open>auto simp: exact_def intro!: distinct_filter_keys noted_distinct\<close>)
qed

lemma exact_sweep:
  assumes "exact c ops users" and "t - ttl \<le> c"
  shows "exact c (ops @ [Sweep t]) (State_Clean ttl t users)"
proof -
  have d: "distinct (map fst users)" using assms(1) by (simp add: exact_def)
  have "\<exists>t' \<ge> s. (k, t') \<in> set (filter (\<lambda>(_, lastSeen). \<not> lastSeen < t - ttl) (window users email))"
    if seen: "Observe email k s \<in> set ops" and late: "c \<le> s" for email k s
  proof -
    obtain t' where "s \<le> t'" "(k, t') \<in> set (window users email)" using assms(1) seen late unfolding exact_def by blast
    then show ?thesis using assms(2) late by (intro exI [of _ t']) auto
  qed
  then show ?thesis using assms(1) d
    by (auto simp: exact_def window_Clean [OF d] distinct_Clean intro!: distinct_filter_keys)
qed

lemma windows_exact: "\<forall>op \<in> set ops. op_time op - ttl \<le> c \<Longrightarrow> exact c ops (windows ttl ops)"
proof (induction ops rule: rev_induct)
  case Nil
  then show ?case by (simp add: exact_def windows_def window_def)
next
  case (snoc op ops)
  then have "exact c ops (windows ttl ops)" by simp
  then show ?case using snoc.prems exact_observe exact_sweep by (cases op) (auto simp: windows_def)
qed


section \<open>The count\<close>

definition seen_addresses :: "duration \<Rightarrow> window_op list \<Rightarrow> string \<Rightarrow> string \<Rightarrow> time \<Rightarrow> string set" where
  "seen_addresses ttl ops email h ts = seen_since (ts - ttl) email (ops @ [Observe email h ts])"

lemma length_window: "exact c ops users \<Longrightarrow> length (window users email) = card (fst ` set (window users email))"
  unfolding exact_def by (metis distinct_card length_map set_map)

lemma seen_in_window:
  assumes "exact (ts - ttl) (ops @ [Observe email h ts]) users"
  shows "seen_addresses ttl ops email h ts \<subseteq> fst ` set (window users email)"
proof
  fix k
  assume "k \<in> seen_addresses ttl ops email h ts"
  then obtain s where s: "Observe email k s \<in> set (ops @ [Observe email h ts])" "ts - ttl \<le> s"
    unfolding seen_addresses_def seen_since_def by blast
  then have "\<exists>s' \<ge> s. (k, s') \<in> set (window users email)" using assms unfolding exact_def by blast
  then show "k \<in> fst ` set (window users email)" by force
qed

lemma finite_seen: "finite (seen_since c email ops)"
proof -
  have "seen_since c email ops \<subseteq> (\<lambda>op. case op of Observe _ h _ \<Rightarrow> h | Sweep _ \<Rightarrow> []) ` set ops"
    unfolding seen_since_def by force
  then show ?thesis by (rule finite_subset) simp
qed

lemma add_count:
  "fst (addHashedEventLocked email h ttl ts users) = int (length (window (snd (addHashedEventLocked email h ttl ts users)) email))"
  by (simp add: add_noted window_update)

lemma window_bounded: "(k, s) \<in> set (window (snd (addHashedEventLocked email h ttl ts users)) email) \<Longrightarrow> ts - ttl \<le> s"
  by (auto simp: add_noted window_update)

text \<open>
  C15: The number of addresses compared with the limit never counts an address twice or one last seen more than
  the length of the window before the observation at hand. When that observation is not older than what was
  recorded before it, the number is exactly that of the different addresses the user was seen from within the
  window, whatever order the earlier observations came in and whenever the sweeps ran.
\<close>

theorem window_count:
  "fst (addHashedEventLocked email h ttl ts (windows ttl ops)) \<le> int (card (seen_addresses ttl ops email h ts)) \<and>
   ((\<forall>op \<in> set ops. op_time op \<le> ts) \<longrightarrow>
     fst (addHashedEventLocked email h ttl ts (windows ttl ops)) = int (card (seen_addresses ttl ops email h ts)))"
proof
  let ?ops = "ops @ [Observe email h ts]" and ?users = "snd (addHashedEventLocked email h ttl ts (windows ttl ops))"
  have run: "windows ttl ?ops = ?users" by (simp add: windows_def)
  define top where "top = Max (insert ts (op_time ` set ops))"
  have "op_time op \<le> top" if "op \<in> set ?ops" for op using that unfolding top_def by (auto intro!: Max_ge)
  then have any: "exact (top - ttl) ?ops ?users" using windows_exact [of ?ops ttl "top - ttl"] by (simp add: run)
  have sub: "fst ` set (window ?users email) \<subseteq> seen_addresses ttl ops email h ts"
    using any window_bounded [of _ _ email h ttl ts "windows ttl ops"]
    unfolding seen_addresses_def seen_since_def exact_def by fastforce
  have count: "fst (addHashedEventLocked email h ttl ts (windows ttl ops)) = int (card (fst ` set (window ?users email)))"
    unfolding add_count length_window [OF any] ..
  show "fst (addHashedEventLocked email h ttl ts (windows ttl ops)) \<le> int (card (seen_addresses ttl ops email h ts))"
    unfolding count using card_mono [OF _ sub] finite_seen by (simp add: seen_addresses_def)
  show "(\<forall>op \<in> set ops. op_time op \<le> ts) \<longrightarrow>
     fst (addHashedEventLocked email h ttl ts (windows ttl ops)) = int (card (seen_addresses ttl ops email h ts))"
  proof
    assume "\<forall>op \<in> set ops. op_time op \<le> ts"
    then have "exact (ts - ttl) ?ops ?users" using windows_exact [of ?ops ttl "ts - ttl"] by (simp add: run)
    then have "seen_addresses ttl ops email h ts \<subseteq> fst ` set (window ?users email)" by (rule seen_in_window)
    then show "fst (addHashedEventLocked email h ttl ts (windows ttl ops)) = int (card (seen_addresses ttl ops email h ts))"
      unfolding count using sub by simp
  qed
qed

theorem window_count_witness:
  "fst (addHashedEventLocked ''u'' ''b'' 10 12 (windows 10 [Observe ''u'' ''a'' 5, Sweep 6, Observe ''u'' ''c'' 1])) =
   int (card (seen_addresses 10 [Observe ''u'' ''a'' 5, Sweep 6, Observe ''u'' ''c'' 1] ''u'' ''b'' 12))"
  using window_count [of "''u''" "''b''" 10 12 "[Observe ''u'' ''a'' 5, Sweep 6, Observe ''u'' ''c'' 1]"] by simp

text \<open>
  An observation that arrives late is counted together with addresses that had left the window by the time it
  arrived: at time 20, with a window of 10, the address seen at 5 counts beside those of 11 and 14.
\<close>

lemma late_observation_overcounts:
  "fst (addHashedEventLocked ''u'' ''c'' 10 11 (windows 10 [Observe ''u'' ''a'' 5, Observe ''u'' ''b'' 14])) = 3 \<and>
   seen_since (20 - 10) ''u'' [Observe ''u'' ''a'' 5, Observe ''u'' ''b'' 14, Observe ''u'' ''c'' 11] = {''b'', ''c''}"
proof
  show "fst (addHashedEventLocked ''u'' ''c'' 10 11 (windows 10 [Observe ''u'' ''a'' 5, Observe ''u'' ''b'' 14])) = 3" by code_simp
qed (auto simp: seen_since_def)

end
