(* ===== verification/Antifraud_Bans.thy ===== *)
theory Antifraud_Bans
  imports Antifraud_Window
begin

text \<open>
  The bans of the anti-fraud plugin: the table and the bans in memory agree whatever fails, a restart brings the
  bans back, the decision to ban follows the number of addresses, and only users who may use the service are
  restored.
\<close>

section \<open>Rules\<close>

lemma wp_mem [wp_rules]: "Q (fst (f d)) (snd (f d)) ev \<Longrightarrow> wp (mem f) Q E d ev"
  by (simp add: wp_def mem_def)

lemma vc_mem [vc_rules]: "Q (fst (f d)) (snd (f d)) ev \<Longrightarrow> vc faulty C (mem f) Q E d ev"
  by (simp add: vc_def mem_def ambient_def)

lemmas calm_mem [calm_rules] = vc_mem [where faulty = False]

text \<open>What the plugin relies on: an engine, a propagator and a relay leave the bans alone.\<close>

definition quiet :: "('m guard_scheme, 'a) prog \<Rightarrow> bool" where
  "quiet m \<longleftrightarrow> (\<forall>w. t_bans (w_db (snd (m w))) = t_bans (w_db w) \<and> g_bans (w_db (snd (m w))) = g_bans (w_db w) \<and>
     w_fault (snd (m w)) = w_fault w \<and> w_clock (snd (m w)) = w_clock w)"

lemma vc_quiet:
  assumes "quiet m"
    and "\<And>x d' ev'. t_bans d' = t_bans d \<Longrightarrow> g_bans d' = g_bans d \<Longrightarrow> Q x d' ev'"
    and "\<And>e d' ev'. t_bans d' = t_bans d \<Longrightarrow> g_bans d' = g_bans d \<Longrightarrow> E e d' ev'"
  shows "vc faulty C m Q E d ev"
proof (rule vcI)
  fix w r w'
  assume "ambient faulty C w" "w_db w = d" "w_events w = ev" "m w = (r, w')"
  moreover from this assms(1) have "t_bans (w_db w') = t_bans d" "g_bans (w_db w') = g_bans d"
    "w_fault w' = w_fault w" "w_clock w' = w_clock w" unfolding quiet_def by (metis snd_conv)+
  ultimately show "ambient faulty C w' \<and> (case r of Inr x \<Rightarrow> Q x (w_db w') (w_events w') | Inl e \<Rightarrow> E e (w_db w') (w_events w'))"
    using assms(2,3) by (auto simp: ambient_def split: sum.splits)
qed

lemma quiet_ret: "quiet (ret x)"
  by (simp add: quiet_def ret_def)

lemma quiet_fail: "quiet (fail e)"
  by (simp add: quiet_def fail_def)

lemma quiet_now: "quiet now"
  by (simp add: quiet_def now_def)

lemma quiet_bind: "quiet m \<Longrightarrow> (\<And>x. quiet (f x)) \<Longrightarrow> quiet (bind m f)"
  unfolding quiet_def bind_def by (auto split: prod.splits sum.splits) (metis snd_conv)+

lemma quiet_map_error: "quiet m \<Longrightarrow> quiet (map_error f m)"
  unfolding quiet_def map_error_def by (auto split: prod.splits sum.splits) (metis snd_conv)+

lemma quiet_stmt: "(\<And>d x d'. f d = (Inr x, d') \<Longrightarrow> t_bans d' = t_bans d \<and> g_bans d' = g_bans d) \<Longrightarrow> quiet (stmt f)"
  unfolding quiet_def stmt_def by (auto simp: Let_def split: option.splits prod.splits sum.splits)

lemma quiet_query: "quiet (query f)"
  unfolding query_def by (rule quiet_stmt) auto

lemma quiet_transaction:
  assumes "quiet body"
  shows "quiet (transaction body)"
  unfolding quiet_def
proof
  fix w :: "'a guard_scheme world"
  let ?w1 = "w\<lparr>w_stmt := Suc (w_stmt w), w_intx := True\<rparr>"
  obtain r w' where b: "body ?w1 = (r, w')" by (cases "body ?w1")
  have "t_bans (w_db w') = t_bans (w_db w)" "g_bans (w_db w') = g_bans (w_db w)" "w_fault w' = w_fault w" "w_clock w' = w_clock w"
    using assms b unfolding quiet_def by (auto dest!: spec [of _ ?w1])
  then show "t_bans (w_db (snd (transaction body w))) = t_bans (w_db w) \<and> g_bans (w_db (snd (transaction body w))) = g_bans (w_db w) \<and>
     w_fault (snd (transaction body w)) = w_fault w \<and> w_clock (snd (transaction body w)) = w_clock w"
    using b by (cases r) (auto simp: transaction_def stmt_def Let_def split: option.splits)
qed

lemmas quiet_rules = quiet_ret quiet_fail quiet_now quiet_bind quiet_map_error quiet_query quiet_transaction

locale ban_port =
  fixes an :: "'m guard_scheme analyzer"
  assumes quiet_BanUser: "quiet (eg_BanUser (an_banner an) email)"
    and quiet_UnbanUser: "quiet (eg_UnbanUser (an_banner an) email)"
    and quiet_propagator: "an_propagator an = Some f \<Longrightarrow> quiet (f command args)"
    and quiet_reporter: "an_reporter an = Some report \<Longrightarrow> quiet (report evs)"

section \<open>Operations that change the bans\<close>

lemma setBan_vc:
  assumes "\<And>d'. t_bans d' = t_bans d \<Longrightarrow> g_bans d' = (g_bans d)(email \<mapsto> expiresAt) \<Longrightarrow> Q () d' ev"
  shows "vc faulty C (setBan email expiresAt) Q E d ev"
  unfolding setBan_def push_ban_def using assms by (auto intro!: vc_rules)

lemma clearBan_vc:
  assumes "\<And>d'. t_bans d' = t_bans d \<Longrightarrow> g_bans d' = (g_bans d)(email := None) \<Longrightarrow> Q () d' ev"
  shows "vc faulty C (clearBan email) Q E d ev"
  unfolding clearBan_def using assms by (auto intro!: vc_rules)

definition has_ban :: "string \<Rightarrow> time \<Rightarrow> AntifraudBan list \<Rightarrow> bool" where
  "has_ban email expiresAt rows \<longleftrightarrow> (\<exists>b \<in> set rows. bn_Email b = email \<and> bn_ExpiresAt b = expiresAt)"

lemma has_ban_Cons: "has_ban email t (b # rows) \<longleftrightarrow> (bn_Email b = email \<and> bn_ExpiresAt b = t) \<or> has_ban email t rows"
  by (auto simp: has_ban_def)

text \<open>An upsert whose row cannot be read back reports an error although the row is written.\<close>

definition upserted :: "AntifraudBan \<Rightarrow> AntifraudBan list \<Rightarrow> AntifraudBan list \<Rightarrow> bool" where
  "upserted ban rows rows' \<longleftrightarrow> map bn_Email rows' = map bn_Email rows @ (if bn_Email ban \<in> bn_Email ` set rows then [] else [bn_Email ban]) \<and>
     has_ban (bn_Email ban) (bn_ExpiresAt ban) rows' \<and>
     (\<forall>b. bn_Email b \<noteq> bn_Email ban \<longrightarrow> b \<in> set rows \<longleftrightarrow> b \<in> set rows')"

lemma upserted_update:
  fixes ban rows
  defines "u \<equiv> \<lambda>b. b\<lparr>bn_BannedAt := bn_BannedAt ban, bn_ExpiresAt := bn_ExpiresAt ban, bn_Reason := bn_Reason ban\<rparr>"
  assumes "list_ex (\<lambda>b. bn_Email b = bn_Email ban) rows"
  shows "upserted ban rows (update_where (\<lambda>b. bn_Email b = bn_Email ban) u rows)"
proof -
  let ?rows = "update_where (\<lambda>b. bn_Email b = bn_Email ban) u rows"
  have keys: "map bn_Email ?rows = map bn_Email rows" by (rule map_update_where) (simp add: u_def)
  obtain b where b: "b \<in> set rows" "bn_Email b = bn_Email ban" using assms(2) by (auto simp: list_ex_iff)
  have set: "set ?rows = (\<lambda>b. if bn_Email b = bn_Email ban then u b else b) ` set rows" by (simp add: update_where_def)
  have "u b \<in> set ?rows" unfolding set using b by (intro image_eqI [of _ _ b]) simp_all
  then have row: "has_ban (bn_Email ban) (bn_ExpiresAt ban) ?rows"
    unfolding has_ban_def by (intro bexI [of _ "u b"]) (simp_all add: u_def b(2))
  have "x \<in> set rows \<longleftrightarrow> x \<in> set ?rows" if "bn_Email x \<noteq> bn_Email ban" for x
    unfolding set using that by (auto simp: u_def image_iff split: if_splits)
  moreover have "bn_Email ban \<in> bn_Email ` set rows" using b by (metis image_eqI)
  ultimately show ?thesis using keys row unfolding upserted_def by auto
qed

lemma Bans_Upsert_vc:
  fixes d :: "'m guard_scheme"
  assumes Q: "\<And>x d'. g_bans d' = g_bans d \<Longrightarrow> upserted ban (t_bans d) (t_bans d') \<Longrightarrow> Q x d' ev"
    and E: "\<And>e d'. faulty \<Longrightarrow> g_bans d' = g_bans d \<Longrightarrow> t_bans d' = t_bans d \<or> upserted ban (t_bans d) (t_bans d') \<Longrightarrow> E e d' ev"
  shows "vc faulty C (Bans_Upsert ban) Q E d ev"
proof (cases "list_ex (\<lambda>b. bn_Email b = bn_Email ban) (t_bans d)")
  case True
  note up = upserted_update [OF True]
  have found: "first_by bn_ID (\<lambda>b. bn_Email b = bn_Email ban) rows \<noteq> None" if "upserted ban (t_bans d) rows" for rows
    using that by (auto simp: first_by_None upserted_def has_ban_def)
  show ?thesis unfolding Bans_Upsert_def using True up E Q found [OF up]
    by (auto intro!: vc_rules)
next
  case False
  then have "upserted ban (t_bans d) (t_bans d @ [b])" if "bn_Email b = bn_Email ban" "bn_ExpiresAt b = bn_ExpiresAt ban" for b
    using that by (auto simp: upserted_def has_ban_def list_ex_iff)
  moreover have "first_by bn_ID (\<lambda>b. bn_Email b = bn_Email ban) (t_bans d @ [ban\<lparr>bn_ID := next_id (t_seq_bans d) (bn_ID ban)\<rparr>]) \<noteq> None"
    unfolding first_by_None by simp
  ultimately show ?thesis unfolding Bans_Upsert_def using False E Q by (auto intro!: vc_rules simp: Let_def)
qed


section \<open>The table and the memory\<close>

text \<open>
  The table has one row for each email, and every ban in memory that lasts beyond the time \<open>c\<close> is in the table with
  the same end.
\<close>

definition mirrored :: "time \<Rightarrow> 'm guard_scheme \<Rightarrow> bool" where
  "mirrored c d \<longleftrightarrow> distinct (map bn_Email (t_bans d)) \<and>
     (\<forall>email expiresAt. g_bans d email = Some expiresAt \<longrightarrow> c < expiresAt \<longrightarrow> has_ban email expiresAt (t_bans d))"

lemma mirrored_same: "mirrored c d \<Longrightarrow> t_bans d' = t_bans d \<Longrightarrow> g_bans d' = g_bans d \<Longrightarrow> mirrored c d'"
  by (simp add: mirrored_def)

lemma upserted_distinct: "upserted ban rows rows' \<Longrightarrow> distinct (map bn_Email rows) \<Longrightarrow> distinct (map bn_Email rows')"
  by (auto simp: upserted_def)

lemma upserted_other: "upserted ban rows rows' \<Longrightarrow> email \<noteq> bn_Email ban \<Longrightarrow> has_ban email t rows' = has_ban email t rows"
  unfolding upserted_def has_ban_def by metis

lemma mirrored_upserted:
  assumes "mirrored c d" "upserted ban (t_bans d) (t_bans d')" "g_bans d' = g_bans d"
    "\<And>t. g_bans d (bn_Email ban) = Some t \<Longrightarrow> t \<le> c"
  shows "mirrored c d'"
  using assms upserted_distinct upserted_other [OF assms(2)] unfolding mirrored_def
  by (metis linorder_not_less)

lemma mirrored_set:
  assumes "mirrored c d" "has_ban email t (t_bans d)" "t_bans d' = t_bans d" "g_bans d' = (g_bans d)(email \<mapsto> t)"
  shows "mirrored c d'"
  using assms by (auto simp: mirrored_def)

lemma mirrored_clear:
  assumes "mirrored c d" "t_bans d' = filter (\<lambda>b. bn_Email b \<noteq> email) (t_bans d)" "g_bans d' = (g_bans d)(email := None)"
  shows "mirrored c d'"
  unfolding mirrored_def
proof (intro conjI allI impI)
  show "distinct (map bn_Email (t_bans d'))" using assms(1,2) by (simp add: mirrored_def distinct_map_filter)
  fix e t
  assume "g_bans d' e = Some t" "c < t"
  then have "e \<noteq> email" "has_ban e t (t_bans d)" using assms by (auto simp: mirrored_def split: if_splits)
  then show "has_ban e t (t_bans d')" unfolding has_ban_def assms(2) by auto
qed

lemma mirrored_forget: "mirrored c d \<Longrightarrow> t_bans d' = t_bans d \<Longrightarrow> g_bans d' = (g_bans d)(email := None) \<Longrightarrow> mirrored c d'"
  by (auto simp: mirrored_def)

abbreviation mirrors :: "time \<Rightarrow> ('m guard_scheme, 'a) prog \<Rightarrow> 'm guard_scheme \<Rightarrow> event list \<Rightarrow> bool" where
  "mirrors c m d ev \<equiv> vc True {..c} m (\<lambda>_ d' _. mirrored c d') (\<lambda>_ d' _. mirrored c d') d ev"

lemma discard_mirrors:
  assumes "mirrored c d"
  shows "mirrors c (discardExpiredBan email) d ev"
  unfolding discardExpiredBan_def Bans_DeleteByEmail_def
  using assms mirrored_clear by (fastforce intro!: vc_rules clearBan_vc)

lemma force_mirrors:
  assumes "mirrored c d"
  shows "mirrors c (ForceUnban email) d ev"
proof -
  have "mirrored c d'" if "t_bans d' = t_bans d" "g_bans d' = (g_bans d)(email := None)" for d' :: "'a guard_scheme"
    using mirrored_forget [OF assms that] .
  moreover have "mirrored c (t_bans_update (filter (\<lambda>b. bn_Email b \<noteq> email)) d')"
    if "t_bans d' = t_bans d" "g_bans d' = (g_bans d)(email := None)" for d' :: "'a guard_scheme"
    by (rule mirrored_clear [OF assms]) (simp_all add: that)
  ultimately show ?thesis unfolding ForceUnban_def Bans_DeleteByEmail_def
    by (auto intro!: vc_rules clearBan_vc)
qed

context ban_port
begin

lemma propagate_quiet:
  assumes "\<And>d' ev'. t_bans d' = t_bans d \<Longrightarrow> g_bans d' = g_bans d \<Longrightarrow> Q () d' ev'"
  shows "vc faulty C (propagate (an_propagator an) k command email) Q E d ev"
proof (cases "an_propagator an")
  case None
  then show ?thesis using assms by (simp add: propagate_def vc_ret)
next
  case (Some f)
  then have "quiet (f command args)" for args by (rule quiet_propagator)
  then show ?thesis using Some assms by (auto simp: propagate_def intro!: vc_rules vc_quiet)
qed

lemma enforce_mirrors:
  assumes "mirrored c d" and "\<And>t. g_bans d email = Some t \<Longrightarrow> t \<le> c"
  shows "mirrors c (enforce an email reason) d ev"
proof -
  let ?ban = "\<lambda>ts. \<lparr>bn_ID = 0, bn_Email = email, bn_BannedAt = ts, bn_ExpiresAt = ts + ban_duration (an_cfg an), bn_Reason = reason\<rparr>"
  have err: "mirrored c d1" if "t_bans d1 = t_bans d \<or> upserted (?ban ts) (t_bans d) (t_bans d1)" "g_bans d1 = g_bans d"
    for ts and d1 :: "'m guard_scheme"
    using that mirrored_same [OF assms(1)] mirrored_upserted [OF assms(1), of "?ban ts" d1] assms(2) by auto
  have set: "mirrored c d2" if "upserted (?ban ts) (t_bans d) (t_bans d1)" "g_bans d1 = g_bans d"
      "t_bans d2 = t_bans d1" "g_bans d2 = (g_bans d1)(email \<mapsto> ts + ban_duration (an_cfg an))" for ts and d1 d2 :: "'m guard_scheme"
    by (rule mirrored_set [OF err [OF disjI2 [OF that(1)] that(2)] _ that(3,4)]) (use that(1) in \<open>simp add: upserted_def\<close>)
  have rest: "mirrors c (bind (attempt (eg_BanUser (an_banner an) email)) (\<lambda>_. propagate (an_propagator an) (an_cfg an) ''rmuser'' email)) d2 ev2"
    if "mirrored c d2" for d2 ev2
    using mirrored_same [OF that] by (intro vc_bind vc_attempt vc_quiet quiet_BanUser propagate_quiet) simp_all
  show ?thesis unfolding enforce_def Let_def
    by (intro vc_bind vc_now vc_attempt Bans_Upsert_vc) (auto intro!: vc_bind vc_ret setBan_vc rest intro: set err)
qed


lemma judge_mirrors:
  assumes "mirrored c d" and "\<And>t. g_bans d email = Some t \<Longrightarrow> t \<le> c"
  shows "mirrors c (judge an email ipHash occurredAt ts seen devices) d ev"
proof (cases "an_reporter an")
  case None
  have "mirrored c (d\<lparr>g_dryRunLogTime := m\<rparr>)" for m by (rule mirrored_same [OF assms(1)]) simp_all
  then show ?thesis using None assms(1) enforce_mirrors [OF assms]
    by (auto simp: judge_def Let_def intro!: vc_rules split: option.splits)
next
  case (Some report)
  then show ?thesis using mirrored_same [OF assms(1)]
    by (auto simp: judge_def Let_def intro!: vc_map_error vc_quiet quiet_reporter)
qed

lemma examine_mirrors:
  assumes "mirrored c d" and free: "\<And>t. g_bans d (le_email e) = Some t \<Longrightarrow> t \<le> c"
  shows "mirrors c (examine an e) d ev"
proof -
  let ?email = "le_email e"
  have judged: "mirrors c (judge an ?email h occ ts n k) d1 ev" if "t_bans d1 = t_bans d" "g_bans d1 = g_bans d" for h occ ts n k d1
    by (rule judge_mirrors [OF mirrored_same [OF assms(1) that]]) (use free that(2) in simp)
  have limit: "vc True {..c} (getDeviceLimit ?email) (\<lambda>k. mirrors c (judge an ?email h occ ts n k)) (\<lambda>_ d' _. mirrored c d') (d\<lparr>g_users := users\<rparr>) ev"
    for h occ ts n users
    unfolding getDeviceLimit_def by (intro vc_mem judged) (simp_all split: option.splits)
  show ?thesis unfolding examine_def Let_def
    by (intro vc_bind vc_now vc_if vc_ret assms(1) vc_mem) (simp_all add: limit split: prod.splits)
qed

lemma handle_mirrors:
  assumes "mirrored c d"
  shows "mirrors c (handleEvent an e) d ev"
  unfolding handleEvent_def isBanned_def
proof (rule vc_bind, rule vc_bind, rule vc_mem, rule vc_bind, rule vc_now, rule vc_ret, rule vc_if)
  fix ts
  assume ts: "ts \<in> {..c}" and "\<not> (case fst (g_bans d (le_email e), d) of None \<Rightarrow> False | Some expiresAt \<Rightarrow> ts < expiresAt)"
  then have "t \<le> c" if "g_bans d (le_email e) = Some t" for t using that by simp
  from examine_mirrors [OF assms this] show "mirrors c (examine an e) (snd (g_bans d (le_email e), d)) ev" by simp
qed (simp add: vc_ret assms)

lemma restore_mirrors:
  assumes "mirrored c d"
  shows "mirrors c (restore_user an email) d ev"
proof -
  have gone: "mirrored c d2" if "t_bans d1 = t_bans d" "g_bans d1 = g_bans d" "t_bans d2 = filter (\<lambda>b. bn_Email b \<noteq> email) (t_bans d1)"
      "g_bans d2 = (g_bans d1)(email := None)" for d1 d2 :: "'m guard_scheme"
    by (rule mirrored_clear [OF mirrored_same [OF assms that(1,2)] that(3,4)])
  have tail: "mirrors c (bind (clearBan email) (\<lambda>_. propagate (an_propagator an) (an_cfg an) ''newuser'' email))
      (t_bans_update (filter (\<lambda>b. bn_Email b \<noteq> email)) d1) ev1" if "t_bans d1 = t_bans d" "g_bans d1 = g_bans d" for d1 ev1
    by (intro vc_bind clearBan_vc propagate_quiet) (rule gone [OF that], simp_all)
  have delete: "mirrors c (bind (attempt (Bans_DeleteByEmail email)) (\<lambda>r. case r of
           Inl _ \<Rightarrow> ret ()
         | Inr _ \<Rightarrow> bind (clearBan email) (\<lambda>_. propagate (an_propagator an) (an_cfg an) ''newuser'' email))) d1 ev1"
    if same: "t_bans d1 = t_bans d" "g_bans d1 = g_bans d" for d1 ev1
    unfolding Bans_DeleteByEmail_def
    by (intro vc_bind vc_attempt vc_exec) (simp_all add: vc_ret mirrored_same [OF assms same] tail [OF same])
  show ?thesis unfolding restore_user_def
    by (rule vc_bind, rule vc_attempt, rule vc_quiet [OF quiet_UnbanUser]) (simp_all add: delete vc_ret mirrored_same [OF assms])
qed

lemma unban_mirrors:
  assumes "mirrored c d"
  shows "mirrors c (tryUnban an ban) d ev"
  unfolding tryUnban_def Let_def Subs_FindByEmail_def Users_FindByID_def
  using assms by (auto intro!: vc_rules discard_mirrors restore_mirrors)

lemma expired_mirrors:
  assumes "mirrored c d"
  shows "mirrors c (processExpired an) d ev"
proof -
  have "vc True {..c} (for_each (tryUnban an) bans) (\<lambda>_. (\<lambda>_ d' _. mirrored c d') []) (\<lambda>_ d' _. mirrored c d') d' ev'"
    if "mirrored c d'" for bans d' ev' by (rule vc_for_each) (use that unban_mirrors in auto)
  then show ?thesis unfolding processExpired_def Bans_FindExpired_def using assms by (auto intro!: vc_rules)
qed

end

section \<open>Restarts\<close>

datatype guard_op = Observed log_event | Expired | Admin string | Refresh | Fetch string | Swept time

fun run_guard :: "'m guard_scheme analyzer \<Rightarrow> guard_op \<Rightarrow> ('m guard_scheme, unit) prog" where
  "run_guard an (Observed e) = handleEvent an e"
| "run_guard an Expired = processExpired an"
| "run_guard an (Admin email) = ForceUnban email"
| "run_guard an Refresh = refreshDeviceCache"
| "run_guard an (Fetch email) = fetchDeviceLimit email"
| "run_guard an (Swept ts) = mem (\<lambda>t. ((), t\<lparr>g_users := State_Clean (an_ipTTL an) ts (g_users t)\<rparr>))"

definition run_guards :: "'m guard_scheme analyzer \<Rightarrow> guard_op list \<Rightarrow> ('m guard_scheme, unit) prog" where
  "run_guards an ops = for_each (\<lambda>op. bind (attempt (run_guard an op)) (\<lambda>_. ret ())) ops"

context ban_port
begin

lemma guard_mirrors:
  assumes "mirrored c d"
  shows "mirrors c (run_guard an op) d ev"
proof -
  have same: "mirrored c (d\<lparr>g_users := u\<rparr>)" "mirrored c (d\<lparr>g_limits := l\<rparr>)" for u l
    by (rule mirrored_same [OF assms]; simp)+
  show ?thesis using assms same
    by (cases op) (auto simp: refreshDeviceCache_def fetchDeviceLimit_def Subs_GetAllEmailsAndMaxDevices_def Subs_FindByEmail_def Let_def
      intro!: vc_rules handle_mirrors expired_mirrors force_mirrors split: sum.splits)
qed

lemma guards_mirror:
  assumes "mirrored c d"
  shows "mirrors c (run_guards an ops) d ev"
proof -
  have "vc True {..c} (run_guards an ops) (\<lambda>_. (\<lambda>_ d' _. mirrored c d') []) (\<lambda>_ d' _. mirrored c d') d ev"
    unfolding run_guards_def
    by (rule vc_for_each, rule assms, rule vc_bind, rule vc_attempt, rule vc_mono [OF guard_mirrors]) (auto intro: vc_ret)
  then show ?thesis by simp
qed


lemma recover_calm:
  assumes "distinct (map bn_Email (t_bans d))"
  shows "calm_wp C (recoverBansFromDB an)
    (\<lambda>_ d' _. \<forall>email t. has_ban email t (t_bans d) \<longrightarrow> (\<forall>ts \<in> C. ts < t) \<longrightarrow> g_bans d' email = Some t) (\<lambda>_ _ _. False) d ev"
proof -
  define P where "P bans d' \<longleftrightarrow> set bans \<subseteq> set (t_bans d) \<and>
    (\<forall>email t. has_ban email t (t_bans d) \<longrightarrow> (\<forall>ts \<in> C. ts < t) \<longrightarrow> g_bans d' email = Some t \<or> has_ban email t bans)"
    for bans and d' :: "'m guard_scheme"
  have unique: "t = bn_ExpiresAt b" if "b \<in> set (t_bans d)" "has_ban (bn_Email b) t (t_bans d)" for b t
    using assms that unfolding has_ban_def distinct_map by (metis inj_onD)
  have step: "P bans d2" if "P (b # bans) d1" "g_bans d2 = (g_bans d1)(bn_Email b \<mapsto> bn_ExpiresAt b)" for b bans d1 d2
    using that unique [of b] unfolding P_def has_ban_Cons by auto
  have loop: "calm_wp C (for_each (\<lambda>ban. bind (setBan (bn_Email ban) (bn_ExpiresAt ban)) (\<lambda>_.
      bind (attempt (eg_BanUser (an_banner an) (bn_Email ban))) (\<lambda>_. ret ()))) bans)
    (\<lambda>_. (\<lambda>bans d' _. P bans d') []) (\<lambda>_ _ _. False) d ev" if "P bans d" for bans d ev
    by (rule vc_for_each, rule that, rule vc_bind, rule setBan_vc, rule vc_bind, rule vc_attempt, rule vc_quiet [OF quiet_BanUser])
      (auto intro!: vc_ret elim: step)
  have "P (filter (\<lambda>b. bn_ExpiresAt b > ts) (t_bans d)) d" if "ts \<in> C" for ts
    unfolding P_def using that by (auto simp: has_ban_def)
  moreover have "\<forall>email t. has_ban email t (t_bans d) \<longrightarrow> (\<forall>ts \<in> C. ts < t) \<longrightarrow> g_bans d' email = Some t" if "P [] d'" for d'
    using that unfolding P_def by (simp add: has_ban_def)
  ultimately show ?thesis unfolding recoverBansFromDB_def Bans_FindActive_def
    by (auto intro!: calm_bind calm_attempt calm_now calm_map_error calm_query calm_mono [OF loop])
qed

end

text \<open>
  C12: Whatever fails while the plugin runs, a ban in memory that lasts beyond the times the clock has shown is in the
  table: after a restart, which empties the memory, recovery puts it back with the same end. The engine, the
  propagator and the relay are only assumed to leave the bans alone.
\<close>

theorem bans_survive_restart:
  assumes port: "ban_port an" and "mirrored c (w_db w)" and "ambient True {..c} w" and "run_guards an ops w = (r, w1)"
    and "g_bans (w_db w1) email = Some t" and "c < t"
    and restart: "w_db w2 = (w_db w1)\<lparr>g_bans := Map.empty\<rparr>" and "calm C w2" and "\<forall>ts \<in> C. ts < t"
    and "recoverBansFromDB an w2 = (r2, w3)"
  shows "r2 = Inr () \<and> g_bans (w_db w3) email = Some t"
proof -
  have "mirrors c (run_guards an ops) (w_db w) (w_events w)" by (rule ban_port.guards_mirror [OF port assms(2)])
  from vcD [OF this assms(3,4)] have m: "mirrored c (w_db w1)" by (cases r) auto
  then have rows: "distinct (map bn_Email (t_bans (w_db w2)))" "has_ban email t (t_bans (w_db w2))"
    using assms(5,6) restart by (auto simp: mirrored_def)
  show ?thesis using calm_wpD [OF ban_port.recover_calm [OF port rows(1)] assms(8,10)] rows(2) assms(9)
    by (cases r2) auto
qed


section \<open>The decision\<close>

text \<open>The number of addresses an observation makes, and the number a user may have.\<close>

definition seen_with :: "'m guard_scheme analyzer \<Rightarrow> time \<Rightarrow> log_event \<Rightarrow> 'm guard_scheme \<Rightarrow> int" where
  "seen_with an ts e d = fst (AddHashedEvent (le_email e) (le_ip e) (an_ipTTL an) (observed_at ts (le_occurredAt e)) (g_users d))"

definition allowed_addresses :: "'m guard_scheme analyzer \<Rightarrow> string \<Rightarrow> 'm guard_scheme \<Rightarrow> int" where
  "allowed_addresses an email d =
     wrap64 (an_maxIPs an * (case g_limits d email of None \<Rightarrow> 1 | Some limit \<Rightarrow> if limit \<le> 0 then 1 else limit))"

context ban_port
begin

lemma enforce_calm:
  assumes "\<And>d'. g_bans d' = (g_bans d)(email \<mapsto> T + ban_duration (an_cfg an)) \<Longrightarrow>
      has_ban email (T + ban_duration (an_cfg an)) (t_bans d') \<Longrightarrow> Q d'"
  shows "calm_wp {T} (enforce an email reason) (\<lambda>_ d' _. Q d') (\<lambda>_ _ _. False) d ev"
  unfolding enforce_def Let_def
proof (rule calm_bind, rule calm_now, rule calm_bind, rule calm_attempt, rule Bans_Upsert_vc, goal_cases)
  case (1 ts b d1)
  then have ts: "ts = T" and rows: "has_ban email (T + ban_duration (an_cfg an)) (t_bans d1)" by (auto simp: upserted_def)
  have tail: "calm_wp {T} (bind (attempt (eg_BanUser (an_banner an) email)) (\<lambda>_. propagate (an_propagator an) (an_cfg an) ''rmuser'' email))
      (\<lambda>_ d' _. Q d') (\<lambda>_ _ _. False) d2 ev2"
    if "t_bans d2 = t_bans d1" "g_bans d2 = (g_bans d1)(email \<mapsto> T + ban_duration (an_cfg an))" for d2 ev2
    by (rule vc_bind, rule vc_attempt, rule vc_quiet [OF quiet_BanUser]; rule propagate_quiet)
      (use that rows 1(2) assms in auto)
  show ?case unfolding ts by (simp, rule vc_bind, rule setBan_vc, rule tail)
qed simp

end



section \<open>The analyzers of a master and of a slave\<close>

definition master_guard :: "antifraud_Config \<Rightarrow> 'm guard_scheme analyzer" where
  "master_guard cfg = \<lparr>an_cfg = cfg, an_ipTTL = ip_ttl cfg, an_maxIPs = ac_SuspiciousIPThreshold cfg, an_banner = NoopEngine,
     an_propagator = None, an_reporter = None\<rparr>"

definition slave_guard ::
  "(FraudEvent list \<Rightarrow> byte list result) \<Rightarrow> (nat \<Rightarrow> string) \<Rightarrow> Config \<Rightarrow> bool \<Rightarrow> antifraud_Config \<Rightarrow> 'm guard_scheme analyzer"
where
  "slave_guard enc newID c online cfg = (master_guard cfg)\<lparr>an_reporter :=
     Some (replicationFraudReporter (ReportFraudEvents enc newID c online) (HashKeyID (ac_APIKey cfg)))\<rparr>"

lemma quiet_exec: "(\<And>d. t_bans (snd (f d)) = t_bans d \<and> g_bans (snd (f d)) = g_bans d) \<Longrightarrow> quiet (exec f)"
  unfolding exec_def by (rule quiet_stmt) (auto split: prod.splits, metis snd_conv, metis snd_conv)

lemma enqueue_quiet: "quiet (enqueue_events newID ts n evs queued)"
  by (induction evs arbitrary: n queued)
    (auto simp: Let_def insert_row_def intro!: quiet_rules quiet_stmt split: if_splits)

lemma report_quiet: "quiet (ReportFraudEvents enc newID c online evs)"
  unfolding ReportFraudEvents_def EnqueueFraudEvents_def flushFraudOutboxLocked_def PendingFraudEvents_def lift_result_def sendFrame_def Let_def
  by (auto intro!: quiet_rules quiet_exec enqueue_quiet split: sum.splits)

interpretation master: ban_port "master_guard cfg"
  by unfold_locales (simp_all add: master_guard_def NoopEngine_def quiet_ret)

interpretation slave: ban_port "slave_guard enc newID c online cfg"
  by unfold_locales (auto simp: slave_guard_def master_guard_def NoopEngine_def quiet_ret replicationFraudReporter_def report_quiet)

section \<open>Witnesses\<close>

definition demo_guard :: guard where
  "demo_guard = \<lparr>t_dialect = Sqlite, t_users = [], t_subs = [], t_devices = [], t_payments = [], t_plans = [], t_promos = [], t_rewards = [],
     t_notifs = [], t_bans = [], t_seq_devices = 0, t_seq_payments = 0, t_seq_plans = 0, t_seq_promos = 0, t_seq_rewards = 0, t_seq_bans = 0,
     r_outbox = [], r_seq_outbox = 0, r_desired = [], r_inbox = [], r_meta = [], r_artifacts = [], r_staging = [], r_replicas = [],
     r_stats = [], r_fraud_out = [], r_fraud_in = [], n_files = Map.empty, n_dirs = [], n_sent = [],
     g_ready = True, g_bans = Map.empty, g_sink = None, g_users = [], g_limits = Map.empty, g_dryRunLogTime = Map.empty, g_slaves = []\<rparr>"

definition guard_world :: "guard \<Rightarrow> guard world" where
  "guard_world d = \<lparr>w_db = d, w_stmt = 0, w_fault = (\<lambda>_. None), w_tick = 0, w_clock = (\<lambda>_. 0), w_intx = False, w_events = []\<rparr>"

definition demo_antifraud :: antifraud_Config where
  "demo_antifraud = antifraud_default\<lparr>ac_SuspiciousIPThreshold := 0\<rparr>"

definition demo_sighting :: log_event where
  "demo_sighting = \<lparr>le_email = ''u'', le_ip = ''h'', le_isHashed = True, le_occurredAt = 0\<rparr>"

lemma demo_banned:
  "g_bans (w_db (snd (run_guards (master_guard demo_antifraud) [Observed demo_sighting] (guard_world demo_guard)))) ''u'' = Some (24 * Hour)"
  by code_simp


lemma calm_guard_world: "calm {0} (guard_world d)" "ambient True {..0} (guard_world d)"
  by (simp_all add: ambient_def guard_world_def)

theorem bans_survive_restart_witness:
  "g_bans (w_db (snd (recoverBansFromDB (master_guard demo_antifraud) (guard_world
     ((w_db (snd (run_guards (master_guard demo_antifraud) [Observed demo_sighting] (guard_world demo_guard))))\<lparr>g_bans := Map.empty\<rparr>))))) ''u''
   = Some (24 * Hour)"
proof -
  let ?an = "master_guard demo_antifraud :: guard analyzer"
  obtain r w1 where run: "run_guards ?an [Observed demo_sighting] (guard_world demo_guard) = (r, w1)" by fastforce
  define w2 where "w2 = guard_world ((w_db w1)\<lparr>g_bans := Map.empty\<rparr>)"
  obtain r2 w3 where again: "recoverBansFromDB ?an w2 = (r2, w3)" by fastforce
  have "mirrored 0 (w_db (guard_world demo_guard))" by (simp add: mirrored_def guard_world_def demo_guard_def)
  moreover have "g_bans (w_db w1) ''u'' = Some (24 * Hour)" using demo_banned run by simp
  moreover have "(0::time) < 24 * Hour" by simp
  moreover have "w_db w2 = (w_db w1)\<lparr>g_bans := Map.empty\<rparr>" "calm {0} w2" by (simp_all add: w2_def calm_guard_world) (simp add: guard_world_def)
  ultimately have "r2 = Inr () \<and> g_bans (w_db w3) ''u'' = Some (24 * Hour)"
    using bans_survive_restart [where c = 0 and email = "''u''" and t = "24 * Hour" and C = "{0}",
      OF master.ban_port_axioms _ calm_guard_world(2) run _ _ _ _ _ again] by simp
  then show ?thesis using run again unfolding w2_def by simp
qed


section \<open>Who is restored\<close>

text \<open>The user and the subscription an unban looks at, when both are found.\<close>

definition restorable :: "'m guard_scheme \<Rightarrow> string \<Rightarrow> time \<Rightarrow> bool" where
  "restorable d email ts \<longleftrightarrow> (case first_by newest_first (\<lambda>s. s_Email s = email) (t_subs d) of
     None \<Rightarrow> False
   | Some sub \<Rightarrow> (case first_by u_ID (\<lambda>u. u_ID u = s_UserID sub) (t_users d) of
       None \<Rightarrow> False
     | Some user \<Rightarrow> eligible ts user sub))"

lemma attempt_first:
  "attempt (wrapped (query_first f)) w = (case w_fault w (w_stmt w) of
     Some e \<Rightarrow> (Inr (Inl (wrapError e)), w\<lparr>w_stmt := Suc (w_stmt w)\<rparr>)
   | None \<Rightarrow> (Inr (case f (w_db w) of None \<Rightarrow> Inl (wrapError gorm_not_found) | Some x \<Rightarrow> Inr x), w\<lparr>w_stmt := Suc (w_stmt w)\<rparr>))"
  by (simp add: attempt_def map_error_def query_first_def stmt_def Let_def split: option.splits)

lemma not_found: "error_is (wrapError gorm_not_found) ErrNotFound"
  by code_simp



text \<open>
  \<open>processExpired\<close> reads the expired bans once and then handles them one by one: a ban that the analyzer renews in
  between is removed although it has not run out. Here the row read had ended at 0 and the row in the table lasts.
\<close>

definition renewed_guard :: guard where
  "renewed_guard = demo_guard\<lparr>
     t_users := [\<lparr>u_ID = ''i'', u_Username = ''u'', u_Balance = 0, u_IsAdmin = False, u_RefCode = [], u_ReferredBy = None, u_Metadata = [],
       u_IsBlocked = False, u_CreatedAt = 0\<rparr>],
     t_subs := [\<lparr>s_ID = ''s'', s_UserID = ''i'', s_Email = ''u'', s_UUID = [], s_Status = ''active'', s_MaxDevices = 1, s_StartsAt = None,
       s_EndsAt = None, s_AutoRenew = False, s_Metadata = [], s_CreatedAt = 0, s_UpdatedAt = 0\<rparr>],
     t_bans := [\<lparr>bn_ID = 1, bn_Email = ''u'', bn_BannedAt = 0, bn_ExpiresAt = Hour, bn_Reason = []\<rparr>], g_bans := [''u'' \<mapsto> Hour]\<rparr>"

lemma stale_unban_drops_renewed_ban:
  "case tryUnban (master_guard demo_antifraud) \<lparr>bn_ID = 1, bn_Email = ''u'', bn_BannedAt = 0, bn_ExpiresAt = 0, bn_Reason = []\<rparr>
     (guard_world renewed_guard) of (r, w) \<Rightarrow> t_bans (w_db w) = [] \<and> g_bans (w_db w) ''u'' = None"
  by code_simp

end
