(* ===== verification/Replication_Safety.thy ===== *)
theory Replication_Safety
  imports Replication_Slave Antifraud_Bans
begin

text \<open>
  What the master may forget and what it must hold on to: pruning the journal, handing the observations of
  the slaves to the anti-fraud plugin, and reading the plugin's configuration.
\<close>

section \<open>Pruning\<close>

lemma replica_by_id_Some: "replica_by_id n d = Some rep \<Longrightarrow> rep \<in> set (r_replicas d) \<and> rp_NodeID rep = n"
  unfolding replica_by_id_def by (drule first_by_Some) blast

definition acknowledged :: "'m repl_tables_scheme \<Rightarrow> string \<Rightarrow> int \<Rightarrow> bool" where
  "acknowledged d n revision \<longleftrightarrow> (\<exists>rep \<in> set (r_replicas d). rp_NodeID rep = n \<and> revision \<le> rp_AcknowledgedRevision rep)"

lemma least_acknowledged_wp:
  assumes "\<forall>rep \<in> set (r_replicas d). 0 \<le> rp_AcknowledgedRevision rep"
  shows "wp (least_acknowledged nodes m)
    (\<lambda>r d' _. d' = d \<and> (\<forall>v. r = Some v \<longrightarrow> (\<forall>n \<in> set nodes. acknowledged d n v) \<and> (0 \<le> m \<longrightarrow> v \<le> m)))
    (\<lambda>_ d' _. d' = d) d ev"
proof (induction nodes arbitrary: m ev)
  case Nil
  then show ?case by (auto intro!: wp_rules)
next
  case (Cons n nodes)
  have step: "wp (least_acknowledged nodes (if m < 0 \<or> rp_AcknowledgedRevision rep < m then rp_AcknowledgedRevision rep else m))
    (\<lambda>r d' _. d' = d \<and> (\<forall>v. r = Some v \<longrightarrow> (\<forall>n \<in> set (n # nodes). acknowledged d n v) \<and> (0 \<le> m \<longrightarrow> v \<le> m)))
    (\<lambda>_ d' _. d' = d) d ev1" if rep: "replica_by_id n d = Some rep" for rep ev1
  proof -
    have "rep \<in> set (r_replicas d)" "rp_NodeID rep = n" "0 \<le> rp_AcknowledgedRevision rep"
      using replica_by_id_Some [OF rep] assms by auto
    then show ?thesis by (intro wp_mono [OF Cons.IH]) (auto simp: acknowledged_def split: if_splits)
  qed
  show ?case
    unfolding least_acknowledged.simps
    by (rule wp_bind, rule wp_attempt, rule wp_query_first) (use step in \<open>auto intro!: wp_rules\<close>)
qed

lemma bounded_below: "\<exists>k. \<forall>row \<in> set rows. k < ob_Revision row"
proof (induction rows)
  case (Cons row rows)
  then obtain k where k: "\<forall>row \<in> set rows. k < ob_Revision row" by blast
  show ?case by (rule exI [of _ "min k (ob_Revision row) - 1"]) (use k in auto)
qed simp

text \<open>
  C14: Whatever fails, pruning removes a journal entry only when every allowed node has acknowledged its
  revision; it keeps the order of the rest, and removes nothing while an allowed node has never connected.
\<close>

theorem prune_keeps_unacknowledged:
  fixes w :: "'m repl_tables_scheme world"
  assumes "\<forall>rep \<in> set (r_replicas (w_db w)). 0 \<le> rp_AcknowledgedRevision rep" and "PruneAcknowledged nodes w = (r, w')"
  shows "\<exists>k. r_outbox (w_db w') = filter (\<lambda>row. k < ob_Revision row) (r_outbox (w_db w)) \<and>
    (\<forall>row \<in> set (r_outbox (w_db w)). ob_Revision row \<le> k \<longrightarrow> nodes \<noteq> [] \<and> (\<forall>n \<in> set nodes. acknowledged (w_db w) n (ob_Revision row)))"
proof -
  let ?d = "w_db w"
  define Q :: "'m repl_tables_scheme \<Rightarrow> bool" where "Q d' \<longleftrightarrow> (\<exists>k. r_outbox d' = filter (\<lambda>row. k < ob_Revision row) (r_outbox ?d) \<and>
    (\<forall>row \<in> set (r_outbox ?d). ob_Revision row \<le> k \<longrightarrow> nodes \<noteq> [] \<and> (\<forall>n \<in> set nodes. acknowledged ?d n (ob_Revision row))))" for d'
  have same: "Q ?d"
  proof -
    obtain k where "\<forall>row \<in> set (r_outbox ?d). k < ob_Revision row"
      using bounded_below [of "r_outbox ?d"] by blast
    then show ?thesis unfolding Q_def by (intro exI [of _ k]) (auto simp: filter_id_conv)
  qed
  have pruned: "Q (?d\<lparr>r_outbox := filter (\<lambda>o'. \<not> ob_Revision o' \<le> v) (r_outbox ?d)\<rparr>)"
    if "nodes \<noteq> []" "\<forall>n \<in> set nodes. acknowledged ?d n v" for v
    unfolding Q_def using that by (intro exI [of _ v]) (fastforce simp: not_le acknowledged_def)
  have "wp (PruneAcknowledged nodes) (\<lambda>_ d' _. Q d') (\<lambda>_ d' _. Q d') ?d (w_events w)"
    unfolding PruneAcknowledged_def
  proof (rule wp_if)
    assume "nodes \<noteq> []"
    then show "wp (bind (least_acknowledged nodes (- 1)) (\<lambda>r. case r of None \<Rightarrow> ret 0 | Some minimum \<Rightarrow>
          if minimum \<le> 0 then ret 0
          else exec (\<lambda>t. (count_rows (\<lambda>o'. ob_Revision o' \<le> minimum) (r_outbox t),
            t\<lparr>r_outbox := filter (\<lambda>o'. \<not> ob_Revision o' \<le> minimum) (r_outbox t)\<rparr>)))) (\<lambda>_ d' _. Q d') (\<lambda>_ d' _. Q d') ?d (w_events w)"
      by (intro wp_bind, intro wp_mono [OF least_acknowledged_wp [OF assms(1)]])
        (auto simp: same pruned intro!: wp_rules split: option.splits)
  qed (use same in \<open>auto intro!: wp_rules\<close>)
  from wpD [OF this assms(2)] show ?thesis by (cases r) (auto simp: Q_def)
qed

definition prune_guard :: guard where
  "prune_guard = demo_guard\<lparr>
     r_replicas := [\<lparr>rp_NodeID = ''n1'', rp_AcknowledgedRevision = 1, rp_ConnectedAt = 0, rp_LastSeenAt = 0\<rparr>],
     r_outbox := map (\<lambda>n. \<lparr>ob_Revision = n, ob_Kind = eventUserRemove, ob_Payload = [], ob_Checksum = [], ob_CreatedAt = 0\<rparr>) [1, 2]\<rparr>"

theorem prune_keeps_unacknowledged_witness:
  "\<exists>k < 2. map ob_Revision (r_outbox (w_db (snd (PruneAcknowledged [''n1''] (guard_world prune_guard))))) = filter (\<lambda>n. k < n) [1, 2]"
proof -
  obtain r w' where run: "PruneAcknowledged [''n1''] (guard_world prune_guard) = (r, w')" by fastforce
  obtain k where k: "r_outbox (w_db w') = filter (\<lambda>row. k < ob_Revision row) (r_outbox prune_guard)"
      "\<forall>row \<in> set (r_outbox prune_guard). ob_Revision row \<le> k \<longrightarrow> acknowledged prune_guard ''n1'' (ob_Revision row)"
    using prune_keeps_unacknowledged [OF _ run] by (auto simp: guard_world_def prune_guard_def)
  then have "k < 2" by (auto simp: prune_guard_def acknowledged_def)
  then show ?thesis using k(1) run by (intro exI [of _ k]) (auto simp: prune_guard_def)
qed

section \<open>The configuration of the plugin\<close>

lemma then_result_Inr: "then_result r f = Inr x \<longleftrightarrow> (\<exists>y. r = Inr y \<and> f y = Inr x)"
  by (cases r) (simp_all add: then_result_simps)

definition taken :: "json_map \<Rightarrow> string \<Rightarrow> string \<Rightarrow> string \<Rightarrow> bool" where
  "taken m key current s = (case map_of m key of None \<Rightarrow> s = current | Some v \<Rightarrow> v = JStr s)"

lemma read_string_Inr: "read_string m key current = Inr s \<longleftrightarrow> taken m key current s"
  by (auto simp: read_string_def taken_def split: option.splits json.splits)

lemma those_strings: "those (map (\<lambda>x. case x of JStr s \<Rightarrow> Some s | _ \<Rightarrow> None) xs) = Some items \<Longrightarrow> xs = map JStr items"
  by (induction xs arbitrary: items) (auto split: json.splits)

lemma read_nodes_Inr:
  "read_nodes m c = Inr c' \<Longrightarrow> c' = c\<lparr>cf_AllowedNodes := cf_AllowedNodes c'\<rparr> \<and>
     (case map_of m ''allowed_nodes'' of None \<Rightarrow> c' = c | Some v \<Rightarrow> v = JArr (map JStr (cf_AllowedNodes c')))"
  by (auto simp: read_nodes_def dest!: those_strings split: option.splits json.splits)

lemma find_first_None_iff: "find_first p xs = None \<longleftrightarrow> (\<forall>x \<in> set xs. \<not> p x)"
  by (induction xs) auto

text \<open>A text that is a duration has no space around it, so that trimming it again changes nothing.\<close>

lemma leadingInt_suffix: "leadingInt x s = Some (v, s') \<Longrightarrow> \<exists>p. s = p @ s'"
  by (induction x s rule: leadingInt.induct) (auto simp: Let_def split: if_splits)

lemma leadingFraction_suffix: "leadingFraction x sc ov s = (f, scale, s') \<Longrightarrow> \<exists>p. s = p @ s'"
  by (induction x sc ov s rule: leadingFraction.induct) (auto simp: Let_def split: if_splits)

lemma duration_term_split:
  assumes "duration_term s = Some (w, s')"
  shows "(hd s = CHR ''.'' \<or> is_digit (hd s)) \<and> (\<exists>p u. s = p @ u @ s' \<and> unitMap u \<noteq> None)"
proof -
  obtain v s1 where i: "leadingInt 0 s = Some (v, s1)" and hd: "hd s = CHR ''.'' \<or> is_digit (hd s)"
    using assms by (auto simp: duration_term_def split: if_splits option.splits)
  obtain f scale s2 where f: "(if s1 \<noteq> [] \<and> hd s1 = CHR ''.'' then leadingFraction 0 1 False (tl s1)
      else (0, 1, s1)) = (f, scale, s2)" by (metis prod_cases3)
  let ?u = "takeWhile (\<lambda>c. \<not> (c = CHR ''.'' \<or> is_digit c)) s2"
  have u: "unitMap ?u \<noteq> None" "s' = drop (length ?u) s2"
    using assms i f by (auto simp: duration_term_def Let_def split: if_splits option.splits)
  have "s2 = ?u @ s'" unfolding u(2) by (metis append_take_drop_id takeWhile_eq_take)
  moreover obtain p1 where "s = p1 @ s1" using leadingInt_suffix [OF i] by blast
  moreover obtain p2 where "s1 = p2 @ s2"
    using f leadingFraction_suffix [of 0 1 False "tl s1" f scale s2] by (auto split: if_splits) (metis append_Cons list.collapse)
  ultimately have "s = (p1 @ p2) @ ?u @ s'" by simp
  then show ?thesis using hd u(1) by blast
qed

lemma unit_last: "unitMap u \<noteq> None \<Longrightarrow> u \<noteq> [] \<and> \<not> is_space (last u)"
  by (auto simp: unitMap_def is_space_def split: if_splits)

lemma duration_terms_ends:
  "duration_terms d s = Some r \<Longrightarrow> s \<noteq> [] \<Longrightarrow> \<not> is_space (hd s) \<and> \<not> is_space (last s)"
proof (induction d s rule: duration_terms.induct)
  case (1 d s)
  obtain w s' where t: "duration_term s = Some (w, s')" using "1.prems" by (auto simp: duration_terms.simps [of d s] split: option.splits)
  obtain p u where s: "s = p @ u @ s'" and u: "u \<noteq> []" "\<not> is_space (last u)" and hd: "hd s = CHR ''.'' \<or> is_digit (hd s)"
    using duration_term_split [OF t] unit_last by blast
  have "\<not> is_space (last s)"
  proof (cases "s' = []")
    case False
    have "duration_terms ((d + w) mod 2 ^ 64) s' = Some r" "\<not> (d + w) mod 2 ^ 64 > 2 ^ 63"
      using "1.prems" t by (auto simp: duration_terms.simps [of d s] Let_def split: if_splits)
    then show ?thesis using "1.IH" [OF "1.prems"(2) t refl refl] False s by simp
  qed (use s u in simp)
  moreover have "\<not> is_space (hd s)" using hd by (auto simp: is_space_def is_digit_def)
  ultimately show ?case by blast
qed

lemma ParseDuration_trim:
  assumes "ParseDuration s = Some d"
  shows "trim_space s = s"
proof -
  let ?signed = "s \<noteq> [] \<and> (hd s = CHR ''-'' \<or> hd s = CHR ''+'')"
  let ?rest = "if ?signed then tl s else s"
  have rest: "?rest \<noteq> [] \<and> \<not> is_space (hd ?rest) \<and> \<not> is_space (last ?rest)"
  proof (cases "?rest = ''0''")
    case True
    then show ?thesis by (simp add: is_space_def)
  next
    case False
    then have "\<exists>r. duration_terms 0 ?rest = Some r" "?rest \<noteq> []" using assms
      unfolding ParseDuration_def Let_def by (auto split: if_splits option.splits)
    then show ?thesis using duration_terms_ends [of 0 ?rest] by blast
  qed
  have s: "s \<noteq> []" "last s = last ?rest" using rest by (auto split: if_splits simp: last_tl)
  moreover have "\<not> is_space (hd s)" using rest by (auto split: if_splits simp: is_space_def)
  ultimately show ?thesis using rest by (simp only: trim_space_id simp_thms)
qed

lemma configDuration_good:
  assumes "\<not> bad_interval s"
  shows "ParseDuration s = Some (configDuration s fallback) \<and> 0 < configDuration s fallback"
  using assms ParseDuration_trim [of s] by (auto simp: bad_interval_def configDuration_def split: option.splits)

definition field_typed :: "json_map \<Rightarrow> Config \<Rightarrow> string \<Rightarrow> (Config \<Rightarrow> string) \<Rightarrow> bool" where
  "field_typed m c key get = (case map_of m key of
     None \<Rightarrow> get c = get default_config
   | Some v \<Rightarrow> \<exists>s. v = JStr s \<and> get c = (if key = ''mode'' then to_lower (trim_space s) else s))"

lemma field_taken:
  "taken m key (get default_config) s \<Longrightarrow> key \<noteq> ''mode'' \<Longrightarrow> get c = s \<Longrightarrow> field_typed m c key get"
  by (auto simp: taken_def field_typed_def split: option.splits)

lemma mode_taken: "taken m ''mode'' [] s \<Longrightarrow> cf_Mode c = to_lower (trim_space s) \<Longrightarrow> field_typed m c ''mode'' cf_Mode"
  by (auto simp: taken_def field_typed_def default_config_def to_lower_def split: option.splits)



section \<open>Observations from the slaves\<close>

definition received :: "string \<Rightarrow> string \<Rightarrow> 'm repl_tables_scheme \<Rightarrow> bool" where
  "received node ident d \<longleftrightarrow> (\<exists>row \<in> set (r_fraud_in d). fi_NodeID row = node \<and> fi_EventID row = ident)"

definition same_receipts :: "'m repl_tables_scheme state_rel" where
  "same_receipts d ev d' ev' \<longleftrightarrow> r_fraud_in d' = r_fraud_in d"

interpretation receipts: rollback_preorder same_receipts
  by unfold_locales (simp_all add: same_receipts_def)

lemma received_grow: "set (r_fraud_in d) \<subseteq> set (r_fraud_in d') \<Longrightarrow> received node ident d \<Longrightarrow> received node ident d'"
  by (auto simp: received_def)

text \<open>The provider of the anti-fraud service: it does not touch the receipts of the replication store.\<close>

locale fraud_provider =
  fixes sink :: "'m repl_tables_scheme fraud_sink"
  assumes sink_receipts: "keeps same_receipts (sink sourceID evs)"

lemma record_receipt_wp:
  "wp (record_receipt node ts ev) (\<lambda>_ d' _. set (r_fraud_in d) \<subseteq> set (r_fraud_in d') \<and> received node (fe_ID ev) d') (\<lambda>_ _ _. True) d events"
  unfolding record_receipt_def
  by (auto intro!: wp_rules simp: received_def list_ex_iff)

lemma record_receipts_wp:
  "wp (for_each (record_receipt node ts) evs)
     (\<lambda>_ d' _. set (r_fraud_in d) \<subseteq> set (r_fraud_in d') \<and> (\<forall>ev \<in> set evs. received node (fe_ID ev) d')) (\<lambda>_ _ _. True) d events"
proof (induction evs arbitrary: d events)
  case Nil
  then show ?case by (auto intro!: wp_rules)
next
  case (Cons ev evs)
  show ?case unfolding for_each.simps
    by (rule wp_bind, rule wp_mono [OF record_receipt_wp], rule wp_mono [OF Cons.IH]) (auto intro: received_grow)
qed

lemma MarkFraudReceived_wp:
  "wp (MarkFraudReceived node evs)
     (\<lambda>_ d' _. set (r_fraud_in d) \<subseteq> set (r_fraud_in d') \<and> (\<forall>ev \<in> set evs. received node (fe_ID ev) d')) (\<lambda>_ d' _. d' = d) d events"
  unfolding MarkFraudReceived_def
  by (auto intro!: wp_bind wp_now wp_fail wp_transaction wp_mono [OF record_receipts_wp])

lemma received_ids:
  assumes "ev \<in> set evs"
  shows "fe_ID ev \<in> set (map fi_EventID (filter (\<lambda>r. fi_NodeID r = node \<and> fi_EventID r \<in> set (map fe_ID evs)) (r_fraud_in d))) \<longleftrightarrow>
    received node (fe_ID ev) d"
  using assms unfolding received_def by (auto simp: image_iff)

lemma UnreceivedFraudEvents_wp:
  "wp (UnreceivedFraudEvents node evs)
     (\<lambda>pending d' _. d' = d \<and> pending = filter (\<lambda>ev. \<not> received node (fe_ID ev) d) evs) (\<lambda>_ d' _. d' = d) d events"
  unfolding UnreceivedFraudEvents_def
  by (intro wp_if wp_fail wp_ret wp_bind wp_map_error wp_query) (simp_all add: received_ids del: set_map cong: filter_cong)

context fraud_provider
begin

lemma ingest_wp:
  "wp (ingest_identified (Some sink) node evs)
     (\<lambda>ack d' _. set (r_fraud_in d) \<subseteq> set (r_fraud_in d') \<and> (\<forall>ident \<in> set ack. received node ident d') \<and>
       ((\<forall>ev \<in> set evs. received node (fe_ID ev) d) \<longrightarrow> d' = d))
     (\<lambda>_ d' _. r_fraud_in d' = r_fraud_in d \<and> ((\<forall>ev \<in> set evs. received node (fe_ID ev) d) \<longrightarrow> d' = d)) d events"
proof -
  let ?pending = "filter (\<lambda>ev. \<not> received node (fe_ID ev) d) evs"
  have mark: "wp (MarkFraudReceived node ?pending) (\<lambda>_ d' _. set (r_fraud_in d) \<subseteq> set (r_fraud_in d') \<and> (\<forall>ev \<in> set evs. received node (fe_ID ev) d'))
      (\<lambda>_ d' _. r_fraud_in d' = r_fraud_in d) d1 ev1" if "r_fraud_in d1 = r_fraud_in d" for d1 ev1
  proof (rule wp_mono [OF MarkFraudReceived_wp])
    fix d' ev'
    assume grown: "set (r_fraud_in d1) \<subseteq> set (r_fraud_in d') \<and> (\<forall>ev \<in> set ?pending. received node (fe_ID ev) d')"
    then have "received node (fe_ID ev) d'" if "ev \<in> set evs" for ev
      using that received_grow [of d d' node "fe_ID ev"] \<open>r_fraud_in d1 = r_fraud_in d\<close>
      by (cases "received node (fe_ID ev) d") auto
    then show "set (r_fraud_in d) \<subseteq> set (r_fraud_in d') \<and> (\<forall>ev \<in> set evs. received node (fe_ID ev) d')"
      using grown \<open>r_fraud_in d1 = r_fraud_in d\<close> by simp
  qed (use that in simp)
  have deliver: "wp (sink node obs) (\<lambda>_ d' _. r_fraud_in d' = r_fraud_in d) (\<lambda>_ d' _. r_fraud_in d' = r_fraud_in d) d ev1" for obs ev1
    by (rule wp_mono [OF keeps_wp [OF sink_receipts]]) (auto simp: same_receipts_def)
  show ?thesis
  proof (cases "?pending = []")
    case True
    then have "\<forall>ev \<in> set evs. received node (fe_ID ev) d" by (auto simp: filter_empty_conv)
    then show ?thesis unfolding ingest_identified_def option.case
      by (intro wp_bind wp_mono [OF UnreceivedFraudEvents_wp]) (auto intro!: wp_rules)
  next
    case False
    then have new: "\<not> (\<forall>ev \<in> set evs. received node (fe_ID ev) d)" by (auto simp: filter_empty_conv)
    have work: "wp (bind (map_error (ErrWrap ''deliver replication anti-fraud events: '') (sink node (map observation ?pending))) (\<lambda>_.
        MarkFraudReceived node ?pending)) (\<lambda>_ d' _. set (r_fraud_in d) \<subseteq> set (r_fraud_in d') \<and> (\<forall>ev \<in> set evs. received node (fe_ID ev) d'))
      (\<lambda>_ d' _. r_fraud_in d' = r_fraud_in d) d ev1" for ev1
      by (intro wp_bind wp_map_error wp_mono [OF deliver] mark)
    show ?thesis unfolding ingest_identified_def option.case
    proof (rule wp_bind, rule wp_mono [OF UnreceivedFraudEvents_wp])
      fix pending d' ev1
      assume "d' = d \<and> pending = ?pending"
      then show "wp (bind (if pending = [] then ret ()
            else bind (map_error (ErrWrap ''deliver replication anti-fraud events: '') (sink node (map observation pending)))
              (\<lambda>_. MarkFraudReceived node pending)) (\<lambda>_. ret (map fe_ID evs)))
          (\<lambda>ack d' _. set (r_fraud_in d) \<subseteq> set (r_fraud_in d') \<and> (\<forall>ident \<in> set ack. received node ident d') \<and>
            ((\<forall>ev \<in> set evs. received node (fe_ID ev) d) \<longrightarrow> d' = d))
          (\<lambda>_ d' _. r_fraud_in d' = r_fraud_in d \<and> ((\<forall>ev \<in> set evs. received node (fe_ID ev) d) \<longrightarrow> d' = d)) d' ev1"
        using False new by (simp only: if_False, intro wp_bind [OF wp_mono [OF work]]) (auto intro!: wp_ret)
    qed (use new in simp)
  qed
qed


lemma ingest_payload_wp:
  "wp (ingestFraudEvents (Some sink) node payload)
     (\<lambda>ack d' _. set (r_fraud_in d) \<subseteq> set (r_fraud_in d') \<and> (\<forall>ident \<in> set ack. received node ident d') \<and>
       (\<forall>evs. json_unmarshal_list fraud_event_of payload = Inr evs \<longrightarrow> fe_ID (hd evs) \<noteq> [] \<longrightarrow>
         (\<forall>ev \<in> set evs. received node (fe_ID ev) d) \<longrightarrow> d' = d))
     (\<lambda>_ d' _. r_fraud_in d' = r_fraud_in d \<and>
       (\<forall>evs. json_unmarshal_list fraud_event_of payload = Inr evs \<longrightarrow> fe_ID (hd evs) \<noteq> [] \<longrightarrow>
         (\<forall>ev \<in> set evs. received node (fe_ID ev) d) \<longrightarrow> d' = d)) d events"
proof (cases "json_unmarshal_list fraud_event_of payload")
  case (Inl e)
  then show ?thesis by (auto simp: ingestFraudEvents_def lift_result_def intro!: wp_rules)
next
  case (Inr evs)
  have legacy: "wp (sink node obs) (\<lambda>_ d' _. r_fraud_in d' = r_fraud_in d) (\<lambda>_ d' _. r_fraud_in d' = r_fraud_in d) d ev1" for obs ev1
    by (rule wp_mono [OF keeps_wp [OF sink_receipts]]) (auto simp: same_receipts_def)
  show ?thesis unfolding ingestFraudEvents_def Inr lift_result_def sum.case Let_def option.case
    by (rule wp_bind, rule wp_map_error, rule wp_ret, intro wp_if wp_fail wp_bind wp_attempt wp_mono [OF legacy] wp_mono [OF ingest_wp])
      (auto intro!: wp_ret)
qed

end

subsection \<open>The anti-fraud plugin is such a provider\<close>

lemma receipts_mem: "(\<And>d. r_fraud_in (snd (f d)) = r_fraud_in d) \<Longrightarrow> keeps same_receipts (mem f)"
  by (simp add: keeps_def mem_def same_receipts_def)

lemma receipts_exec: "(\<And>d. r_fraud_in (snd (f d)) = r_fraud_in d) \<Longrightarrow> keeps same_receipts (exec f)"
  by (rule receipts.keeps_exec) (simp add: same_receipts_def)

lemmas receipt_rules = receipts.keeps_rules receipts_mem receipts_exec

lemma setBan_receipts: "keeps same_receipts (setBan email t :: ('m guard_scheme, unit) prog)"
  unfolding setBan_def push_ban_def by (auto intro!: receipt_rules)

lemma enforce_receipts: "keeps same_receipts (enforce (master_guard cfg) email reason :: ('m guard_scheme, unit) prog)"
  unfolding enforce_def Bans_Upsert_def propagate_def master_guard_def NoopEngine_def Let_def
  by (auto intro!: receipt_rules setBan_receipts split: sum.splits)

lemma master_reporter: "an_reporter (master_guard cfg) = None"
  by (simp add: master_guard_def)

lemma handle_receipts: "keeps same_receipts (handleEvent (master_guard cfg) e :: ('m guard_scheme, unit) prog)"
  unfolding handleEvent_def isBanned_def examine_def getDeviceLimit_def judge_def Let_def
  by (auto intro!: receipt_rules enforce_receipts simp: master_reporter split: option.splits prod.splits)


lemma slot_receipts: "keeps same_receipts queue_slot"
  unfolding queue_slot_def by (rule receipts.keeps_stmt) (simp add: same_receipts_def)

lemma ingest_each_receipts: "keeps same_receipts (ingest_each (master_guard cfg) evs :: ('m guard_scheme, unit) prog)"
  by (induction evs) (auto intro!: receipt_rules handle_receipts slot_receipts split: sum.splits)

lemma provider_receipts:
  "keeps same_receipts (Plugin_IngestEvents (Some (master_guard cfg)) sourceID evs :: ('m guard_scheme, unit) prog)"
  unfolding Plugin_IngestEvents_def Module_IngestEvents_def GetSnapshot_def lift_result_def option.case
  by (auto intro!: receipt_rules ingest_each_receipts split: sum.splits simp: Let_def)

interpretation antifraud: fraud_provider "Plugin_IngestEvents (Some (master_guard cfg)) :: 'm guard_scheme fraud_sink"
  by unfold_locales (rule provider_receipts)

text \<open>
  C13: What the master acknowledges of the observations of a slave is recorded as received, whatever fails; a batch
  that ends in an error records nothing, so the slave keeps it and sends it again; no receipt is lost; and a batch
  that was received before changes nothing, so that no observation is counted a second time.
\<close>

theorem observations_received_once:
  fixes w :: "'m guard_scheme world"
  assumes "ingestFraudEvents (Some (Plugin_IngestEvents (Some (master_guard cfg)))) node payload w = (r, w')"
  shows "set (r_fraud_in (w_db w)) \<subseteq> set (r_fraud_in (w_db w')) \<and>
    (case r of Inr ack \<Rightarrow> \<forall>ident \<in> set ack. received node ident (w_db w') | Inl _ \<Rightarrow> r_fraud_in (w_db w') = r_fraud_in (w_db w)) \<and>
    (\<forall>evs. json_unmarshal_list fraud_event_of payload = Inr evs \<longrightarrow> fe_ID (hd evs) \<noteq> [] \<longrightarrow>
       (\<forall>ev \<in> set evs. received node (fe_ID ev) (w_db w)) \<longrightarrow> w_db w' = w_db w)"
  using wpD [OF antifraud.ingest_payload_wp assms] by (cases r) auto

text \<open>The batch \<open>[{"id":"a","email":"u","ip":"h"}]\<close>.\<close>

definition demo_batch :: "byte list" where
  "demo_batch = bytes_of (let q = [CHR 0x22] in ''[{'' @ q @ ''id'' @ q @ '':'' @ q @ ''a'' @ q @ '','' @ q @ ''email'' @ q @ '':'' @ q @ ''u'' @ q
     @ '','' @ q @ ''ip'' @ q @ '':'' @ q @ ''h'' @ q @ ''}]'')"

lemma demo_batch_events:
  "json_unmarshal_list fraud_event_of demo_batch =
     Inr [\<lparr>fe_ID = ''a'', fe_Email = ''u'', fe_IP = ''h'', fe_OccurredAt = zero_time, fe_HashKeyID = []\<rparr>]"
  by code_simp


definition received_guard :: guard where
  "received_guard = demo_guard\<lparr>r_fraud_in := [\<lparr>fi_NodeID = ''n1'', fi_EventID = ''a'', fi_Email = ''u'', fi_IPHash = ''h'', fi_HashKeyID = [],
     fi_OccurredAt = 0, fi_ReceivedAt = 0\<rparr>]\<rparr>"

theorem observations_received_once_witness:
  "w_db (snd (ingestFraudEvents (Some (Plugin_IngestEvents (Some (master_guard demo_antifraud)))) ''n1'' demo_batch (guard_world received_guard))) = received_guard"
proof -
  obtain r w' where run: "ingestFraudEvents (Some (Plugin_IngestEvents (Some (master_guard demo_antifraud)))) ''n1'' demo_batch
      (guard_world received_guard) = (r, w')" by fastforce
  have "w_db (guard_world received_guard) = received_guard" by (simp add: guard_world_def)
  moreover have "received ''n1'' ''a'' received_guard" by (simp add: received_def received_guard_def)
  ultimately show ?thesis using observations_received_once [OF run] demo_batch_events run by simp
qed

end
