(* ===== verification/Antifraud_Log.thy ===== *)
theory Antifraud_Log
  imports Prelude "HOL-Library.Sublist"
begin

text \<open>
  The lines of the xray access log as the anti-fraud plugin reads them
  (\<^verbatim>\<open>internal/plugins/antifraud/parser.go\<close>). A line is the list of its bytes. The functions of the source return
  slices of it, and \<open>nil\<close> where there is nothing to return; \<open>parseLine\<close> returns \<open>None\<close> for the pair of \<open>nil\<close>s.
  Following the file as it grows and is rotated is input and output and is left out.
\<close>

section \<open>Searching\<close>

text \<open>What stands before and after the first occurrence of a text, and the last occurrence of a byte.\<close>

fun split_first :: "string \<Rightarrow> string \<Rightarrow> (string \<times> string) option" where
  "split_first tag [] = (if tag = [] then Some ([], []) else None)"
| "split_first tag (c # cs) =
     (if prefix tag (c # cs) then Some ([], drop (length tag) (c # cs))
      else map_option (\<lambda>(a, b). (c # a, b)) (split_first tag cs))"

definition split_last :: "char \<Rightarrow> string \<Rightarrow> (string \<times> string) option" where
  "split_last c s = (if c \<in> set s then
     (let back = takeWhile (\<lambda>x. x \<noteq> c) (rev s) in Some (take (length s - length back - 1) s, rev back)) else None)"

section \<open>Lines\<close>

definition acceptedTag :: string where
  "acceptedTag = '' accepted ''"

definition stripPort :: "string \<Rightarrow> string" where
  "stripPort addr =
     (if addr = [] then []
      else if hd addr = CHR ''['' then (if CHR '']'' \<in> set addr then takeWhile (\<lambda>c. c \<noteq> CHR '']'') (tl addr) else [])
      else (case split_last (CHR '':'') addr of None \<Rightarrow> addr | Some (before, _) \<Rightarrow> before))"

definition lastToken :: "string \<Rightarrow> string" where
  "lastToken b =
     (let b = rev (dropWhile (\<lambda>c. (of_char c :: nat) \<in> {9, 10, 13, 32}) (rev b))
      in case split_last (CHR '' '') b of None \<Rightarrow> b | Some (_, after) \<Rightarrow> after)"

definition trim_prefix :: "string \<Rightarrow> string \<Rightarrow> string" where
  "trim_prefix p s = (if prefix p s then drop (length p) s else s)"

definition parseLine :: "string \<Rightarrow> (string \<times> string) option" where
  "parseLine line = (case split_first acceptedTag line of
     None \<Rightarrow> None
   | Some (before, rest) \<Rightarrow>
       (case split_last (CHR '' '') (trim_space before) of
          None \<Rightarrow> None
        | Some (_, srcAddrField) \<Rightarrow>
            let rawIP = stripPort srcAddrField
            in if rawIP = [] \<or> CHR '' '' \<notin> set rest then None
               else let emailField = lastToken rest
                 in if emailField = [] then None else Some (rawIP, trim_prefix ''email:'' emailField)))"

section \<open>What a line gives\<close>

text \<open>Both fields as they are documented; then a line that gives an empty email, and an address cut short.\<close>

lemma parseLine_accepted:
  "parseLine ''2024/01/15 12:34:56 1.2.3.4:56789 accepted tcp:8.8.8.8:443 [inbound] bob'' = Some (''1.2.3.4'', ''bob'')"
  "parseLine ''2024/01/15 12:34:56 [::1]:567 accepted tcp:8.8.8.8:443 [inbound] email: bob'' = Some (''::1'', ''bob'')"
  by code_simp+

lemma parseLine_empty_email: "parseLine ''x 1.2.3.4:5 accepted tcp:8.8.8.8:443 [inbound] email:'' = Some (''1.2.3.4'', [])"
  by code_simp

lemma stripPort_bare_IPv6: "stripPort ''::1'' = '':''"
  by code_simp

end
