(* ===== verification/Spec2Isabelle.thy ===== *)
theory Spec2Isabelle
  imports Frame_Protocol Plugin_Graph Plugin_Host Ban_Cache Referral Lifecycle Replication_Backlog
    Replication_Safety Antifraud_Log
begin

text \<open>
  A verification library for a server that sells and manages VPN subscriptions. The program is a kernel that loads
  plugins; the plugins share a database, a dispatcher of events and a VPN engine, and a master node replicates its
  users to slave nodes. The library models the parts in which money, access and replicated state change, from the
  Go sources under \<^verbatim>\<open>src/internal\<close>, and proves what each promises.

  \<^bold>\<open>Foundations.\<close> \<^verbatim>\<open>Prelude\<close> has the error values, 64-bit integers and texts; \<^verbatim>\<open>Go_Float\<close> the \<open>float64\<close> operations as
  correctly rounded rationals; \<^verbatim>\<open>Go_Time\<close> times as nanoseconds, months and durations; \<^verbatim>\<open>Encoding\<close> base64, hex and
  SHA-256; \<^verbatim>\<open>Json\<close> the printer and the parser of JSON with their round trip. \<^verbatim>\<open>Effects\<close> is the world a service runs in:
  a computation takes the world and returns a result or an error and the world. The world holds the database, a
  plan that says which statement fails and how, the clock, and the dispatched events; a transaction that fails puts
  the database back. \<^verbatim>\<open>Program_Logic\<close> gives weakest preconditions for any faults and any clock (\<open>wp\<close>), for clocks
  within given times (\<open>vc\<close>) and for a database that answers (\<open>calm_wp\<close>), and the locales of the preorders that every statement of a computation keeps.

  \<^bold>\<open>Domain and database.\<close> \<^verbatim>\<open>Domain_Model\<close> has the rows of \<^verbatim>\<open>domain/models.go\<close> and the tables; \<^verbatim>\<open>Database\<close> the repositories
  of \<^verbatim>\<open>database/repo_gorm.go\<close>, one definition for each method and one step for each SQL statement.

  \<^bold>\<open>Money.\<close> \<^verbatim>\<open>Pricing\<close> is \<^verbatim>\<open>plugins/pricing_default\<close>: prices stay within the policy and grow with the devices. \<^verbatim>\<open>Billing\<close>
  is \<^verbatim>\<open>plugins/billing/service.go\<close>. \<^verbatim>\<open>Billing_Ledger\<close>, \<^verbatim>\<open>Billing_Promo\<close> and \<^verbatim>\<open>Billing_Parity\<close> show that balances are
  credited exactly for the top-ups that were completed, each announced once, that promo codes stay within their limit,
  that a payment is created whole or not at all, and that the old price calculation agrees with the engine; \<^verbatim>\<open>Renewal\<close>
  that a paid plan extends the subscription; \<^verbatim>\<open>Referral\<close> that a payment is rewarded once.

  \<^bold>\<open>Subscriptions.\<close> \<^verbatim>\<open>Engine_Port\<close> is the interface of \<^verbatim>\<open>domain/engine.go\<close>, with the contract the services rely on as a
  locale. \<^verbatim>\<open>Device_Limit\<close> shows the device limit; \<^verbatim>\<open>Lifecycle\<close> is one pass of \<^verbatim>\<open>plugins/subscription_lifecycle\<close>: no
  subscription expires early, every overdue one does, warnings are sent once, devices are trimmed to the limit.
  \<^verbatim>\<open>Vpn_Users\<close> derives the users of an engine from the subscriptions.

  \<^bold>\<open>Kernel.\<close> \<^verbatim>\<open>Plugin_Graph\<close> and \<^verbatim>\<open>Plugin_Host\<close> are \<^verbatim>\<open>pluginhost/host.go\<close>: a load order exists exactly for acyclic
  complete declarations and respects them, a failed load stops what was started, no plugin leaks. \<^verbatim>\<open>Ban_Cache\<close> is the
  cache of \<^verbatim>\<open>pluginhost/bancache.go\<close>, a refinement of the last decision about an address under interleaving.

  \<^bold>\<open>Replication\<close> (\<^verbatim>\<open>plugins/cluster_replication\<close>). \<^verbatim>\<open>Frame_Protocol\<close> is the binary frame, \<^verbatim>\<open>Safe_IO\<close> the atomic
  replacement of a file, \<^verbatim>\<open>Replication_Store\<close>, \<^verbatim>\<open>Replication_Service\<close> and \<^verbatim>\<open>Replication_Transport\<close> the tables, the service and
  both ends of a connection. \<^verbatim>\<open>Replication_Wire\<close> shows that what is sent is what is read; \<^verbatim>\<open>Replication_Slave\<close> that a slave
  follows the journal of its master through any faults and converges; \<^verbatim>\<open>Replication_Backlog\<close> that the master drains a
  backlog in a bounded number of turns; \<^verbatim>\<open>Replication_Safety\<close> that pruning keeps what a node has not acknowledged, that
  observations of the slaves are received once, and that an accepted configuration is well typed.

  \<^bold>\<open>Anti-fraud\<close> (\<^verbatim>\<open>plugins/antifraud\<close>). \<^verbatim>\<open>Ip_Address\<close> has the identity of an address over the parser and the printer of
  \<^verbatim>\<open>net/netip\<close>; \<^verbatim>\<open>Antifraud\<close> the analyzer, the bans and the module, with the memory of the process beside the tables;
  \<^verbatim>\<open>Antifraud_Window\<close> shows that the number compared with the limit is that of the addresses in the window;
  \<^verbatim>\<open>Antifraud_Bans\<close> that a ban follows that number, survives a restart, and is not lifted for a user who may not use the
  service; \<^verbatim>\<open>Antifraud_Log\<close> reads the lines of the access log.

  \<^bold>\<open>Interfaces.\<close> What a component relies on is a locale, interpreted on definitions of the model: \<^verbatim>\<open>engine_port\<close>,
  \<^verbatim>\<open>expiry_port\<close>, \<^verbatim>\<open>slave_port\<close> and \<^verbatim>\<open>slave_answers\<close> on the engine that does nothing (\<^verbatim>\<open>engine_xray/noop.go\<close>), the
  one engine of the sources that is not another process; \<^verbatim>\<open>ban_port\<close> on the guard of a master and on that of a slave,
  which relays to its master; \<^verbatim>\<open>pricing_contract\<close> on the default engine, \<^verbatim>\<open>fraud_provider\<close> on the anti-fraud plugin,
  \<^verbatim>\<open>file_store\<close> on the files of a node, and \<^verbatim>\<open>state_preorder\<close> and \<^verbatim>\<open>rollback_preorder\<close> on the relations the components
  keep. Code outside the sources is an argument of the definitions: the VPN engine processes, the uuid package, the names
  of temporary files, and the JSON codec of the replication service, of which a theorem asks that the payloads at
  hand are read back as they were written; the witnesses use the codec of \<^verbatim>\<open>Json\<close>.

  \<^bold>\<open>Bounds.\<close> No definition runs on fuel: loops are structural or have a termination proof. JSON values nest at most
  \<^verbatim>\<open>max_depth\<close> deep, the limit of the Go decoder. The turns of \<^verbatim>\<open>Replication_Backlog\<close> are as many as the statement asks for,
  and it says how many are enough. Texts are lists of bytes; trimming and letter case are those of ASCII.

  \<^bold>\<open>Not modelled.\<close> The HTTP server and the handlers, which decode requests around the services; \<^verbatim>\<open>user_management\<close>,
  \<^verbatim>\<open>server_routing\<close>, \<^verbatim>\<open>support_chat\<close>, \<^verbatim>\<open>traffic_file\<close> and the subscription pages and formats, which are outside this
  library; the xray and sing-box engines, external plugins, the payment provider and the delivery of events, which drive
  other processes; the YAML configuration, the command line, the database driver and its migrations; following and
  rotating the log file. Goroutines and tickers appear as the operations they start, in any order; gRPC and TLS deliver
  the frames of a session in order.
\<close>

end
